theory Spec2Isabelle
  imports Main "HOL-Library.AList"
begin

section \<open>Strings\<close>

text \<open>
  Python's \<^verbatim>\<open>s.split(c)\<close> for a one-character separator: the result is never empty,
  \<^verbatim>\<open>"".split("/")\<close> is \<^verbatim>\<open>[""]\<close> and \<^verbatim>\<open>"a/".split("/")\<close> is \<^verbatim>\<open>["a", ""]\<close>.
\<close>

fun split_on :: "char \<Rightarrow> string \<Rightarrow> string list" where
  "split_on c [] = [[]]"
| "split_on c (x # xs) =
     (if x = c then [] # split_on c xs
      else (case split_on c xs of [] \<Rightarrow> [[x]] | w # ws \<Rightarrow> (x # w) # ws))"

text \<open>\<^verbatim>\<open>s.endswith(suf)\<close>.\<close>

definition endswith :: "string \<Rightarrow> string \<Rightarrow> bool" where
  "endswith s suf = (length suf \<le> length s \<and> drop (length s - length suf) s = suf)"

text \<open>\<^verbatim>\<open>s.startswith(pre)\<close>.\<close>

definition startswith :: "string \<Rightarrow> string \<Rightarrow> bool" where
  "startswith s pre = (take (length pre) s = pre)"

section \<open>The manifest\<close>

text \<open>
  \<^verbatim>\<open>self.paths_json\<close> is a Python dict from key strings to lists of path strings. A dict keeps
  its keys in insertion order, which is the order \<^verbatim>\<open>json.dump\<close> writes them in, so the model
  is an association list: \<open>AList.update\<close> replaces the value of a key where it stands and appends
  a key that is new, as assignment to a dict entry does.
\<close>

type_synonym manifest = "(string \<times> string list) list"

definition manifest_key :: "string \<Rightarrow> string \<Rightarrow> string \<Rightarrow> string" where
  "manifest_key platform arch tool = platform @ ''_'' @ arch @ ''_'' @ tool"

definition rel_path_of :: "string \<Rightarrow> string \<Rightarrow> string \<Rightarrow> string \<Rightarrow> string" where
  "rel_path_of platform arch tool binary = platform @ ''/'' @ arch @ ''/'' @ tool @ ''/'' @ binary"

text \<open>\<^verbatim>\<open>self.paths_json[key]\<close> after the key has been made present.\<close>

definition entries :: "manifest \<Rightarrow> string \<Rightarrow> string list" where
  "entries m key = (case map_of m key of None \<Rightarrow> [] | Some l \<Rightarrow> l)"

text \<open>
  \<^verbatim>\<open>_add_path\<close> (script.py, lines 58 to 65):
  \<^verbatim>\<open>
    key = f"{platform}_{arch}_{tool}"
    if key not in self.paths_json:
        self.paths_json[key] = []
    rel_path = f"{platform}/{arch}/{tool}/{binary}"
    if rel_path not in self.paths_json[key]:
        self.paths_json[key].append(rel_path)
  \<close>
\<close>

definition add_path :: "string \<Rightarrow> string \<Rightarrow> string \<Rightarrow> string \<Rightarrow> manifest \<Rightarrow> manifest" where
  "add_path platform arch tool binary paths_json =
     (let key = manifest_key platform arch tool;
          pj = (if key \<notin> fst ` set paths_json then AList.update key [] paths_json else paths_json);
          rel_path = rel_path_of platform arch tool binary
      in if rel_path \<notin> set (entries pj key)
         then AList.update key (entries pj key @ [rel_path]) pj
         else pj)"

text \<open>
  A sequence of \<^verbatim>\<open>_add_path\<close> calls on the manifest of a fresh \<^verbatim>\<open>BinaryDownloader\<close>, which
  \<^verbatim>\<open>__init__\<close> sets to \<^verbatim>\<open>{}\<close>.
\<close>

definition add_paths :: "(string \<times> string \<times> string \<times> string) list \<Rightarrow> manifest \<Rightarrow> manifest" where
  "add_paths ops m = foldl (\<lambda>m (platform, arch, tool, binary). add_path platform arch tool binary m) m ops"

text \<open>Every stored path was built by \<open>add_path\<close> from the components of its key.\<close>

definition built_paths :: "manifest \<Rightarrow> bool" where
  "built_paths m =
     (\<forall>k x. x \<in> set (entries m k) \<longrightarrow> (\<exists>p a t b. k = manifest_key p a t \<and> x = rel_path_of p a t b))"

section \<open>Exceptions\<close>

text \<open>
  Every exception the script can meet is a value. Library exceptions carry the text that
  \<^verbatim>\<open>str(e)\<close> gives; operating system errors carry the path they are about.
\<close>

type_synonym path = "string list"

datatype exn =
    RequestException string
  | HTTPError string
  | FileNotFoundError path
  | NotADirectoryError path
  | IsADirectoryError path
  | FileExistsError path
  | ShutilError string
  | BadGzipFile string
  | BadZipFile string
  | ArchiveError string
  | KeyError string
  | OSError string

definition show_path :: "path \<Rightarrow> string" where
  "show_path p = (if p = [] then ''/'' else concat (map (\<lambda>c. ''/'' @ c) p))"

definition os_error_text :: "string \<Rightarrow> path \<Rightarrow> string" where
  "os_error_text what p = what @ '': '' @ [CHR 0x27] @ show_path p @ [CHR 0x27]"

text \<open>\<^verbatim>\<open>str(e)\<close>.\<close>

fun str_exn :: "exn \<Rightarrow> string" where
  "str_exn (RequestException msg) = msg"
| "str_exn (HTTPError msg) = msg"
| "str_exn (FileNotFoundError p) = os_error_text ''[Errno 2] No such file or directory'' p"
| "str_exn (NotADirectoryError p) = os_error_text ''[Errno 20] Not a directory'' p"
| "str_exn (IsADirectoryError p) = os_error_text ''[Errno 21] Is a directory'' p"
| "str_exn (FileExistsError p) = os_error_text ''[Errno 17] File exists'' p"
| "str_exn (ShutilError msg) = msg"
| "str_exn (BadGzipFile msg) = msg"
| "str_exn (BadZipFile msg) = msg"
| "str_exn (ArchiveError msg) = msg"
| "str_exn (KeyError k) = [CHR 0x27] @ k @ [CHR 0x27]"
| "str_exn (OSError msg) = msg"

text \<open>
  A block of statements that may raise gives the exception, if any, together with the state
  at that moment: what was done before the exception stays done.
\<close>

definition and_then :: "exn option \<times> 's \<Rightarrow> ('s \<Rightarrow> exn option \<times> 's) \<Rightarrow> exn option \<times> 's" where
  "and_then r f = (case r of (None, s) \<Rightarrow> f s | (Some e, s) \<Rightarrow> (Some e, s))"

text \<open>A \<^verbatim>\<open>for\<close> loop whose body may raise: the first exception ends the loop.\<close>

fun for_each :: "('a \<Rightarrow> 's \<Rightarrow> exn option \<times> 's) \<Rightarrow> 'a list \<Rightarrow> 's \<Rightarrow> exn option \<times> 's" where
  "for_each body [] s = (None, s)"
| "for_each body (x # xs) s =
     (case body x s of (None, s') \<Rightarrow> for_each body xs s' | (Some e, s') \<Rightarrow> (Some e, s'))"

section \<open>The file system\<close>

text \<open>
  A path is the list of its components from the root, with every \<^verbatim>\<open>.\<close>, \<^verbatim>\<open>..\<close> and symbolic
  link already resolved; the empty list is the root directory. A node is a directory or a
  regular file with its content and permission bits. The file system is a finite table from
  paths to nodes, read with \<open>lookup\<close> and changed with \<open>store\<close> and \<open>remove\<close>.
\<close>

datatype node = Dir | File string nat

type_synonym filesystem = "(path \<times> node) list"

definition lookup :: "filesystem \<Rightarrow> path \<Rightarrow> node option" where
  "lookup f p = map_of f p"

definition store :: "path \<Rightarrow> node \<Rightarrow> filesystem \<Rightarrow> filesystem" where
  "store p n f = AList.update p n f"

definition remove :: "path \<Rightarrow> filesystem \<Rightarrow> filesystem" where
  "remove p f = AList.delete p f"

definition is_dir :: "filesystem \<Rightarrow> path \<Rightarrow> bool" where
  "is_dir f p = (p = [] \<or> lookup f p = Some Dir)"

definition path_exists :: "filesystem \<Rightarrow> path \<Rightarrow> bool" where
  "path_exists f p = (p = [] \<or> lookup f p \<noteq> None)"

text \<open>
  \<^verbatim>\<open>Path.mkdir(parents=True, exist_ok=True)\<close>: every missing directory on the way is made, from
  the top; a directory that is there is left alone; a regular file in the way raises.
  \<open>mkdirs pre cs\<close> makes \<open>pre @ cs\<close>, where \<open>pre\<close> is known to be a directory.
\<close>

fun mkdirs :: "path \<Rightarrow> string list \<Rightarrow> filesystem \<Rightarrow> exn option \<times> filesystem" where
  "mkdirs pre [] f = (None, f)"
| "mkdirs pre (c # cs) f =
     (case lookup f (pre @ [c]) of
        None \<Rightarrow> mkdirs (pre @ [c]) cs (store (pre @ [c]) Dir f)
      | Some Dir \<Rightarrow> mkdirs (pre @ [c]) cs f
      | Some (File d m) \<Rightarrow>
          (Some (if cs = [] then FileExistsError (pre @ [c]) else NotADirectoryError (pre @ c # cs)), f))"

definition mkdir_parents :: "path \<Rightarrow> filesystem \<Rightarrow> exn option \<times> filesystem" where
  "mkdir_parents p f = mkdirs [] p f"

text \<open>\<^verbatim>\<open>Path.mkdir(exist_ok=True)\<close>, without \<^verbatim>\<open>parents\<close>: the parent must be there.\<close>

definition mkdir_exist_ok :: "path \<Rightarrow> filesystem \<Rightarrow> exn option \<times> filesystem" where
  "mkdir_exist_ok p f =
     (if p = [] then (None, f)
      else if \<not> path_exists f (butlast p) then (Some (FileNotFoundError p), f)
      else if \<not> is_dir f (butlast p) then (Some (NotADirectoryError p), f)
      else (case lookup f p of
              None \<Rightarrow> (None, store p Dir f)
            | Some Dir \<Rightarrow> (None, f)
            | Some (File d m) \<Rightarrow> (Some (FileExistsError p), f)))"

text \<open>
  \<^verbatim>\<open>open(p, 'wb')\<close>: the file is created empty with the permission bits \<open>mode0\<close> of a new file,
  or truncated, keeping its bits.
\<close>

definition open_wb :: "nat \<Rightarrow> path \<Rightarrow> filesystem \<Rightarrow> exn option \<times> filesystem" where
  "open_wb mode0 p f =
     (if p = [] then (Some (IsADirectoryError p), f)
      else if \<not> path_exists f (butlast p) then (Some (FileNotFoundError p), f)
      else if \<not> is_dir f (butlast p) then (Some (NotADirectoryError p), f)
      else (case lookup f p of
              None \<Rightarrow> (None, store p (File [] mode0) f)
            | Some Dir \<Rightarrow> (Some (IsADirectoryError p), f)
            | Some (File d m) \<Rightarrow> (None, store p (File [] m) f)))"

text \<open>\<^verbatim>\<open>f.write(data)\<close> on the file opened at \<open>p\<close>.\<close>

definition write_bytes :: "path \<Rightarrow> string \<Rightarrow> filesystem \<Rightarrow> filesystem" where
  "write_bytes p data f =
     (case lookup f p of Some (File d m) \<Rightarrow> store p (File (d @ data) m) f | _ \<Rightarrow> f)"

text \<open>Opening a file for reading and reading all of it.\<close>

definition read_file :: "path \<Rightarrow> filesystem \<Rightarrow> exn + string" where
  "read_file p f =
     (if p = [] then Inl (IsADirectoryError p)
      else case lookup f p of
             None \<Rightarrow> Inl (FileNotFoundError p)
           | Some Dir \<Rightarrow> Inl (IsADirectoryError p)
           | Some (File d m) \<Rightarrow> Inr d)"

text \<open>\<^verbatim>\<open>Path.unlink()\<close>.\<close>

definition unlink :: "path \<Rightarrow> filesystem \<Rightarrow> exn option \<times> filesystem" where
  "unlink p f =
     (if p = [] then (Some (IsADirectoryError p), f)
      else case lookup f p of
             None \<Rightarrow> (Some (FileNotFoundError p), f)
           | Some Dir \<Rightarrow> (Some (IsADirectoryError p), f)
           | Some (File d m) \<Rightarrow> (None, remove p f))"

text \<open>\<^verbatim>\<open>os.chmod(p, mode)\<close>; the model keeps no permission bits for directories.\<close>

definition chmod :: "path \<Rightarrow> nat \<Rightarrow> filesystem \<Rightarrow> exn option \<times> filesystem" where
  "chmod p mode f =
     (if p = [] then (None, f)
      else case lookup f p of
             None \<Rightarrow> (Some (FileNotFoundError p), f)
           | Some Dir \<Rightarrow> (None, f)
           | Some (File d m) \<Rightarrow> (None, store p (File d mode) f))"

text \<open>\<open>p\<close> is \<open>q\<close> or lies below it.\<close>

definition lies_under :: "path \<Rightarrow> path \<Rightarrow> bool" where
  "lies_under q p = (take (length q) p = q)"

text \<open>\<^verbatim>\<open>shutil.rmtree(p)\<close>.\<close>

definition rmtree :: "path \<Rightarrow> filesystem \<Rightarrow> exn option \<times> filesystem" where
  "rmtree p f =
     (if \<not> path_exists f p then (Some (FileNotFoundError p), f)
      else if \<not> is_dir f p then (Some (NotADirectoryError p), f)
      else (None, filter (\<lambda>(q, n). \<not> lies_under p q) f))"

text \<open>
  \<^verbatim>\<open>os.rename(src, dst)\<close> where it succeeds: the node at \<open>src\<close>, with everything below it, is at
  \<open>dst\<close> afterwards, in the place of what was there, and nothing is left at \<open>src\<close>.
\<close>

definition rename_tree :: "path \<Rightarrow> path \<Rightarrow> filesystem \<Rightarrow> filesystem" where
  "rename_tree src dst f =
     map (\<lambda>(q, n). if lies_under src q then (dst @ drop (length src) q, n) else (q, n))
       (filter (\<lambda>(q, n). lies_under src q \<or> \<not> lies_under dst q) f)"

text \<open>
  \<^verbatim>\<open>shutil.move(src, dst)\<close>. A destination that is a directory receives the source under the
  source's own name, unless something with that name is there. A rename that the operating
  system refuses (no source, no parent directory for the destination, a directory moved onto a
  file or into itself) ends in an exception, also after the copying that \<^verbatim>\<open>shutil.move\<close> then
  tries.
\<close>

definition shutil_move :: "path \<Rightarrow> path \<Rightarrow> filesystem \<Rightarrow> exn option \<times> filesystem" where
  "shutil_move src dst f =
     (if is_dir f dst \<and> src \<noteq> dst \<and> src \<noteq> [] \<and> path_exists f (dst @ [last src])
      then (Some (ShutilError (''Destination path '' @ [CHR 0x27] @ show_path (dst @ [last src])
                               @ [CHR 0x27] @ '' already exists'')), f)
      else let real_dst = (if is_dir f dst \<and> src \<noteq> dst \<and> src \<noteq> [] then dst @ [last src] else dst)
           in if \<not> path_exists f src then (Some (FileNotFoundError src), f)
              else if src = real_dst then (None, f)
              else if src = [] \<or> real_dst = [] then (Some (ShutilError ''Cannot move the root''), f)
              else if \<not> path_exists f (butlast real_dst) then (Some (FileNotFoundError real_dst), f)
              else if \<not> is_dir f (butlast real_dst) then (Some (NotADirectoryError real_dst), f)
              else if is_dir f src \<and> lies_under src real_dst
                then (Some (ShutilError ''Cannot move a directory into itself''), f)
              else if is_dir f src \<and> path_exists f real_dst then (Some (FileExistsError real_dst), f)
              else (None, rename_tree src real_dst f))"

text \<open>
  How the operating system resolves the path \<open>cur/c1/c2/...\<close>: each step needs the directory it
  starts from, and \<^verbatim>\<open>..\<close> leads to the parent (the root is its own parent). The last component
  need not exist.
\<close>

fun resolve :: "filesystem \<Rightarrow> path \<Rightarrow> string list \<Rightarrow> exn + path" where
  "resolve f cur [] = Inr cur"
| "resolve f cur (c # cs) =
     (if \<not> path_exists f cur then Inl (FileNotFoundError (cur @ c # cs))
      else if \<not> is_dir f cur then Inl (NotADirectoryError (cur @ c # cs))
      else if c = ''..'' then resolve f (butlast cur) cs
      else resolve f (cur @ [c]) cs)"

text \<open>
  \<^verbatim>\<open>directory / name\<close> of \<^verbatim>\<open>pathlib\<close>, handed to the operating system: empty components and
  \<^verbatim>\<open>.\<close> are dropped, and a name that starts with a slash replaces the directory.
\<close>

definition path_parts :: "string \<Rightarrow> string list" where
  "path_parts name = filter (\<lambda>c. c \<noteq> [] \<and> c \<noteq> ''.'') (split_on CHR ''/'' name)"

definition join_resolved :: "filesystem \<Rightarrow> path \<Rightarrow> string \<Rightarrow> exn + path" where
  "join_resolved f directory name =
     resolve f (if startswith name ''/'' then [] else directory) (path_parts name)"

text \<open>A sequence of statements, each of which may raise.\<close>

definition steps :: "('s \<Rightarrow> exn option \<times> 's) list \<Rightarrow> 's \<Rightarrow> exn option \<times> 's" where
  "steps ss s = for_each (\<lambda>f. f) ss s"

section \<open>The environment\<close>

text \<open>
  What the script asks of its libraries and cannot compute itself is a parameter of the model.
  An HTTP response has a status code and reason phrase, the chunks that
  \<^verbatim>\<open>iter_content\<close> delivers, and the text of the exception that ends the stream early, if
  one does.
\<close>

datatype response =
  Response (status_code: nat) (reason: string) (chunks: "string list") (stream_error: "string option")

text \<open>
  A member of a zip archive, as \<^verbatim>\<open>ZipFile.filelist\<close> lists it: its name, the bytes that
  extracting it writes, and the text of the exception that extraction ends with when the
  member is corrupt.
\<close>

datatype zip_info =
  ZipInfo (filename: string) (member_data: string) (member_error: "string option")

text \<open>
  \<^item> \<open>http_get n url\<close> is \<^verbatim>\<open>self.session.get(url, stream=True, timeout=60)\<close> for the request
    number \<open>n\<close> of the run: a response, or the text of the exception (no connection, time out).
  \<^item> \<open>gunzip data\<close> is what reading a gzip stream to its end gives: the bytes decompressed, and
    the text of the exception when the stream is not gzip or is cut short.
  \<^item> \<open>zip_filelist data\<close> is the member list of a zip archive, or the text of the exception
    for bytes that are no zip archive.
  \<^item> \<open>extractall ext data dir\<close> is \<^verbatim>\<open>archive.extractall(dir)\<close> for the archive with these
    bytes, a zip archive when \<open>ext\<close> is \<^verbatim>\<open>.zip\<close> and a gzipped tar archive otherwise.
  \<^item> \<open>walk dir\<close> is the sequence \<^verbatim>\<open>os.walk(dir)\<close> yields: directories with the names of their
    subdirectories and of their files, in the order the operating system lists them.
  \<^item> \<open>new_file_mode\<close> is the permission bits a newly created file gets.
  \<^item> \<open>write_error p chunk\<close> is the text of the \<^verbatim>\<open>OSError\<close> with which the operating system
    refuses \<^verbatim>\<open>f.write(chunk)\<close> on the download that is written to \<open>p\<close> (no space left, quota,
    input/output error), if it does.
  \<^item> \<open>close_error p\<close> is the text of the \<^verbatim>\<open>OSError\<close> with which closing that file, which
    flushes what is buffered, ends, if it does.
\<close>

record env =
  http_get :: "nat \<Rightarrow> string \<Rightarrow> string + response"
  gunzip :: "string \<Rightarrow> string \<times> string option"
  zip_filelist :: "string \<Rightarrow> string + zip_info list"
  extractall :: "string \<Rightarrow> string \<Rightarrow> path \<Rightarrow> filesystem \<Rightarrow> exn option \<times> filesystem"
  walk :: "path \<Rightarrow> filesystem \<Rightarrow> (path \<times> string list \<times> string list) list"
  new_file_mode :: nat
  write_error :: "path \<Rightarrow> string \<Rightarrow> string option"
  close_error :: "path \<Rightarrow> string option"

text \<open>Decimal digits of a number, as an f-string prints it.\<close>

function show_nat :: "nat \<Rightarrow> string" where
  "show_nat n = (if n < 10 then [''0123456789'' ! n] else show_nat (n div 10) @ [''0123456789'' ! (n mod 10)])"
  by pat_completeness auto
termination
  by (relation "measure (\<lambda>n. n)") auto

declare show_nat.simps [simp del]

text \<open>
  \<^verbatim>\<open>response.raise_for_status()\<close> of the \<^verbatim>\<open>requests\<close> library raises \<^verbatim>\<open>HTTPError\<close> for a status
  code from 400 to 599 and for no other.
\<close>

definition raise_for_status :: "string \<Rightarrow> response \<Rightarrow> exn option" where
  "raise_for_status url r =
     (if 400 \<le> status_code r \<and> status_code r < 500
      then Some (HTTPError (show_nat (status_code r) @ '' Client Error: '' @ reason r @ '' for url: '' @ url))
      else if 500 \<le> status_code r \<and> status_code r < 600
      then Some (HTTPError (show_nat (status_code r) @ '' Server Error: '' @ reason r @ '' for url: '' @ url))
      else None)"

section \<open>The downloader\<close>

text \<open>
  The state of a run: the fields of \<^verbatim>\<open>BinaryDownloader\<close> that change or are read
  (\<^verbatim>\<open>base_path\<close>, resolved against the working directory, and \<^verbatim>\<open>paths_json\<close>), the working
  directory, the file system, what has been printed (one entry for each \<^verbatim>\<open>print\<close>), and the
  URLs requested so far.
\<close>

record state =
  cwd :: path
  base_path :: path
  paths_json :: manifest
  fs :: filesystem
  stdout :: "string list"
  requests :: "string list"

definition print_end :: "string \<Rightarrow> string \<Rightarrow> state \<Rightarrow> state" where
  "print_end text ending st = st\<lparr>stdout := stdout st @ [text @ ending]\<rparr>"

definition py_print :: "string \<Rightarrow> state \<Rightarrow> state" where
  "py_print text st = print_end text [CHR 0x0A] st"

definition on_fs :: "(filesystem \<Rightarrow> exn option \<times> filesystem) \<Rightarrow> state \<Rightarrow> exn option \<times> state" where
  "on_fs op st = (case op (fs st) of (e, f) \<Rightarrow> (e, st\<lparr>fs := f\<rparr>))"

text \<open>\<^verbatim>\<open>self.platforms\<close>, set by \<^verbatim>\<open>__init__\<close> and never changed.\<close>

definition platforms :: "(string \<times> string list) list" where
  "platforms = [(''windows'', [''x64'']), (''darwin'', [''x64'', ''arm64'']), (''linux'', [''x64'', ''arm64''])]"

definition FFMPEG_URL :: string where
  "FFMPEG_URL = ''https://github.com/eugeneware/ffmpeg-static/releases/download/b6.1.1''"

definition BENTO4_URL :: string where
  "BENTO4_URL = ''https://www.bok.net/Bento4/binaries''"

definition MEGATOOLS_URL :: string where
  "MEGATOOLS_URL = ''https://megatools.megous.com/builds/builds''"

definition BENTO4_VERSION :: string where
  "BENTO4_VERSION = ''1-6-0-641''"

definition MEGATOOLS_VERSION :: string where
  "MEGATOOLS_VERSION = ''1.11.3.20250401''"

text \<open>
  \<^verbatim>\<open>_create_directories\<close> (lines 37 to 42). Nothing catches an exception of \<^verbatim>\<open>mkdir\<close> here.
\<close>

definition create_directories :: "state \<Rightarrow> exn option \<times> state" where
  "create_directories st =
     for_each (\<lambda>(platform_name, arches).
       for_each (\<lambda>arch. steps
         [on_fs (mkdir_parents (base_path st @ [platform_name, arch, ''ffmpeg''])),
          on_fs (mkdir_parents (base_path st @ [platform_name, arch, ''bento4''])),
          on_fs (mkdir_parents (base_path st @ [platform_name, arch, ''megatools'']))]) arches)
       platforms st"

text \<open>
  Line 51, \<^verbatim>\<open>f.write(chunk)\<close>: the operating system may refuse the write, and then the model
  keeps nothing of the chunk.
\<close>

definition write_chunk :: "env \<Rightarrow> path \<Rightarrow> string \<Rightarrow> filesystem \<Rightarrow> exn option \<times> filesystem" where
  "write_chunk env dest chunk f =
     (case write_error env dest chunk of
        None \<Rightarrow> (None, write_bytes dest chunk f)
      | Some msg \<Rightarrow> (Some (OSError msg), f))"

text \<open>
  The end of the \<^verbatim>\<open>with\<close> block of lines 49 to 51: the file is closed whether the block raised
  or not, and an exception of the closing is the one that leaves the block.
\<close>

definition closing :: "env \<Rightarrow> path \<Rightarrow> exn option \<times> state \<Rightarrow> exn option \<times> state" where
  "closing env dest r =
     (case close_error env dest of None \<Rightarrow> r | Some msg \<Rightarrow> (Some (OSError msg), snd r))"

text \<open>
  \<^verbatim>\<open>_download\<close> (lines 44 to 56). \<open>download_body\<close> is the \<^verbatim>\<open>try\<close> block: the request, the status
  check, then the file opened, the chunks written one by one as the stream delivers them, the
  stream's own exception after the last chunk it delivered, and the file closed.
\<close>

definition download_body :: "env \<Rightarrow> string \<Rightarrow> path \<Rightarrow> state \<Rightarrow> exn option \<times> state" where
  "download_body env url dest st =
     (let st1 = st\<lparr>requests := requests st @ [url]\<rparr>
      in case http_get env (length (requests st)) url of
           Inl msg \<Rightarrow> (Some (RequestException msg), st1)
         | Inr response \<Rightarrow>
             (case raise_for_status url response of
                Some e \<Rightarrow> (Some e, st1)
              | None \<Rightarrow>
                  (case on_fs (open_wb (new_file_mode env) dest) st1 of
                     (Some e, st2) \<Rightarrow> (Some e, st2)
                   | (None, st2) \<Rightarrow>
                       closing env dest
                         (steps
                            [on_fs (for_each (write_chunk env dest) (chunks response)),
                             (\<lambda>s. (map_option RequestException (stream_error response), s))]
                            st2))))"

definition download :: "env \<Rightarrow> string \<Rightarrow> path \<Rightarrow> state \<Rightarrow> bool \<times> state" where
  "download env url dest st =
     (case download_body env url dest st of
        (None, st') \<Rightarrow> (True, st')
      | (Some e, st') \<Rightarrow>
          (False, py_print (''  X '' @ last (split_on CHR ''/'' url) @ '': '' @ take 50 (str_exn e)) st'))"

subsection \<open>FFmpeg: one gzip stream for each executable\<close>

definition ffmpeg_map :: "(string \<times> (string \<times> string) list) list" where
  "ffmpeg_map =
     [(''windows'', [(''x64'', ''win32-x64'')]),
      (''darwin'', [(''x64'', ''darwin-x64''), (''arm64'', ''darwin-arm64'')]),
      (''linux'', [(''x64'', ''linux-x64''), (''arm64'', ''linux-arm64'')])]"

text \<open>
  The \<^verbatim>\<open>try\<close> block of lines 98 to 109: the gzip stream is opened, then the output file, the
  decompressed bytes are copied, the \<^verbatim>\<open>.gz\<close> file is deleted, the permission bits are set
  (octal 755 is 493) unless the platform is windows, and the path is recorded. The stream is
  read only after the output file is opened; the two paths of a call always differ, so the
  model may take the bytes of the stream first.
\<close>

definition ffmpeg_extract ::
  "env \<Rightarrow> string \<Rightarrow> string \<Rightarrow> string \<Rightarrow> path \<Rightarrow> path \<Rightarrow> state \<Rightarrow> exn option \<times> state" where
  "ffmpeg_extract env platform_name arch binary gz_path final_path st =
     (case read_file gz_path (fs st) of
        Inl e \<Rightarrow> (Some e, st)
      | Inr data \<Rightarrow>
          steps
            [on_fs (open_wb (new_file_mode env) final_path),
             (\<lambda>s. (map_option BadGzipFile (snd (gunzip env data)),
                   s\<lparr>fs := write_bytes final_path (fst (gunzip env data)) (fs s)\<rparr>)),
             on_fs (unlink gz_path),
             on_fs (\<lambda>f. if platform_name \<noteq> ''windows'' then chmod final_path 493 f else (None, f)),
             (\<lambda>s. (None, s\<lparr>paths_json := add_path platform_name arch ''ffmpeg'' binary (paths_json s)\<rparr>))]
            st)"

text \<open>Line 94: \<^verbatim>\<open>ext = ".exe" if platform_name == "windows" else ""\<close>.\<close>

definition exe_ext :: "string \<Rightarrow> string" where
  "exe_ext platform_name = (if platform_name = ''windows'' then ''.exe'' else [])"

text \<open>The body of the loop over \<^verbatim>\<open>['ffmpeg', 'ffprobe']\<close> (lines 90 to 111).\<close>

definition ffmpeg_executable ::
  "env \<Rightarrow> string \<Rightarrow> string \<Rightarrow> string \<Rightarrow> nat \<times> state \<Rightarrow> string \<Rightarrow> nat \<times> state" where
  "ffmpeg_executable env platform_name arch platform_str acc executable =
     (let success = fst acc; st = snd acc;
          target_dir = base_path st @ [platform_name, arch, ''ffmpeg''];
          filename = executable @ ''-'' @ platform_str;
          url = FFMPEG_URL @ ''/'' @ filename @ ''.gz'';
          gz_path = target_dir @ [filename @ ''.gz''];
          ext = exe_ext platform_name;
          final_path = target_dir @ [executable @ ext]
      in case download env url gz_path st of
           (False, st1) \<Rightarrow> (success, st1)
         | (True, st1) \<Rightarrow>
             (case ffmpeg_extract env platform_name arch (executable @ ext) gz_path final_path st1 of
                (None, st2) \<Rightarrow> (success + 1, st2)
              | (Some e, st2) \<Rightarrow> (success, py_print (''  X extract '' @ executable) st2)))"

text \<open>
  The body of the two loops over the targets (lines 79 to 113). \<^verbatim>\<open>ffmpeg_map[platform_name]\<close>
  raises \<^verbatim>\<open>KeyError\<close> for a platform the table lacks, outside every \<^verbatim>\<open>try\<close>.
\<close>

definition ffmpeg_cell :: "env \<Rightarrow> string \<Rightarrow> string \<Rightarrow> state \<Rightarrow> exn option \<times> state" where
  "ffmpeg_cell env platform_name arch st =
     (let st0 = print_end (platform_name @ ''-'' @ arch @ '': '') [] st
      in case map_of ffmpeg_map platform_name of
           None \<Rightarrow> (Some (KeyError platform_name), st0)
         | Some m \<Rightarrow>
             (case map_of m arch of
                None \<Rightarrow> (None, py_print ''skip'' st0)
              | Some platform_str \<Rightarrow>
                  if platform_str = [] then (None, py_print ''skip'' st0)
                  else let r = foldl (ffmpeg_executable env platform_name arch platform_str) (0, st0)
                                 [''ffmpeg'', ''ffprobe'']
                       in (None, py_print (show_nat (fst r) @ ''/2'') (snd r))))"

definition download_ffmpeg :: "env \<Rightarrow> state \<Rightarrow> exn option \<times> state" where
  "download_ffmpeg env st =
     for_each (\<lambda>(platform_name, arches). for_each (\<lambda>arch. ffmpeg_cell env platform_name arch) arches)
       platforms (py_print (CHR 0x0A # ''=== FFmpeg ==='') st)"

subsection \<open>Bento4: a zip archive scanned for the executables\<close>

definition platform_config :: "(string \<times> (string \<times> string) list) list" where
  "platform_config =
     [(''windows'', [(''x64'', ''x86_64-microsoft-win32'')]),
      (''darwin'', [(''x64'', ''universal-apple-macosx''), (''arm64'', ''universal-apple-macosx'')]),
      (''linux'', [(''x64'', ''x86_64-unknown-linux''), (''arm64'', ''x86_64-unknown-linux'')])]"

definition executables :: "(string \<times> string list) list" where
  "executables =
     [(''windows'', [''mp4decrypt.exe'', ''mp4encrypt.exe'', ''mp4info.exe'', ''mp4dump.exe'']),
      (''darwin'', [''mp4decrypt'', ''mp4encrypt'', ''mp4info'', ''mp4dump'']),
      (''linux'', [''mp4decrypt'', ''mp4encrypt'', ''mp4info'', ''mp4dump''])]"

text \<open>
  \<^verbatim>\<open>ZipFile.extract(member, directory)\<close> on a POSIX host: the member's name loses its empty,
  \<^verbatim>\<open>.\<close> and \<^verbatim>\<open>..\<close> components, the directories above the target are made when the last of them
  is missing, and the member is written (a name that ends with a slash is a directory).
\<close>

definition zip_arcname :: "string \<Rightarrow> string list" where
  "zip_arcname name = filter (\<lambda>c. c \<noteq> [] \<and> c \<noteq> ''.'' \<and> c \<noteq> ''..'') (split_on CHR ''/'' name)"

definition zip_extract :: "nat \<Rightarrow> zip_info \<Rightarrow> path \<Rightarrow> filesystem \<Rightarrow> exn option \<times> filesystem" where
  "zip_extract mode0 member directory =
     (let targetpath = directory @ zip_arcname (filename member);
          upperdirs = butlast targetpath
      in steps
           [(\<lambda>f. if upperdirs \<noteq> [] \<and> \<not> path_exists f upperdirs then mkdir_parents upperdirs f
                 else (None, f)),
            (\<lambda>f. if endswith (filename member) ''/''
                 then (if \<not> is_dir f targetpath then mkdir_exist_ok targetpath f else (None, f))
                 else steps
                        [open_wb mode0 targetpath,
                         (\<lambda>g. (map_option BadZipFile (member_error member),
                               write_bytes targetpath (member_data member) g))] f)])"

definition in_state :: "(state \<Rightarrow> exn option \<times> state) \<Rightarrow> nat \<times> state \<Rightarrow> exn option \<times> nat \<times> state" where
  "in_state f acc = (case f (snd acc) of (e, st) \<Rightarrow> (e, fst acc, st))"

text \<open>
  Lines 153 to 170, for one archive member and one expected name: when the member's name ends
  with the expected name, the member is extracted below \<^verbatim>\<open>temp\<close>, moved to the tool's directory
  under the expected name, made executable unless the platform is windows, recorded and
  counted, and \<^verbatim>\<open>temp\<close> is removed.
\<close>

definition bento4_match ::
  "env \<Rightarrow> string \<Rightarrow> string \<Rightarrow> path \<Rightarrow> zip_info \<Rightarrow> string \<Rightarrow> nat \<times> state \<Rightarrow> exn option \<times> nat \<times> state" where
  "bento4_match env platform_name arch target_dir member executable acc =
     (if endswith (filename member) executable
      then steps
             [in_state (on_fs (mkdir_exist_ok (target_dir @ [''temp'']))),
              in_state (on_fs (zip_extract (new_file_mode env) member (target_dir @ [''temp'']))),
              in_state (on_fs (\<lambda>f. case join_resolved f (target_dir @ [''temp'']) (filename member) of
                                     Inl e \<Rightarrow> (Some e, f)
                                   | Inr src \<Rightarrow> shutil_move src (target_dir @ [executable]) f)),
              in_state (on_fs (\<lambda>f. if platform_name \<noteq> ''windows'' then chmod (target_dir @ [executable]) 493 f
                                   else (None, f))),
              (\<lambda>a. (None, fst a + 1,
                     (snd a)\<lparr>paths_json := add_path platform_name arch ''bento4'' executable (paths_json (snd a))\<rparr>)),
              in_state (on_fs (\<lambda>f. if path_exists f (target_dir @ [''temp'']) then rmtree (target_dir @ [''temp'']) f
                                   else (None, f)))]
             acc
      else (None, acc))"

text \<open>
  The \<^verbatim>\<open>try\<close> block of lines 149 to 172. \<^verbatim>\<open>executables[platform_name]\<close> is looked up for each
  member and raises \<^verbatim>\<open>KeyError\<close>, inside the \<^verbatim>\<open>try\<close>, for a platform the table lacks.
\<close>

definition bento4_extract ::
  "env \<Rightarrow> string \<Rightarrow> string \<Rightarrow> path \<Rightarrow> path \<Rightarrow> nat \<times> state \<Rightarrow> exn option \<times> nat \<times> state" where
  "bento4_extract env platform_name arch target_dir zip_path acc =
     (case read_file zip_path (fs (snd acc)) of
        Inl e \<Rightarrow> (Some e, acc)
      | Inr data \<Rightarrow>
          (case zip_filelist env data of
             Inl msg \<Rightarrow> (Some (BadZipFile msg), acc)
           | Inr filelist \<Rightarrow>
               steps
                 [for_each (\<lambda>member a.
                    case map_of executables platform_name of
                      None \<Rightarrow> (Some (KeyError platform_name), a)
                    | Some names \<Rightarrow>
                        for_each (bento4_match env platform_name arch target_dir member) names a)
                    filelist,
                  in_state (on_fs (unlink zip_path))]
                 acc))"

definition bento4_url :: "string \<Rightarrow> string" where
  "bento4_url platform_str = BENTO4_URL @ ''/Bento4-SDK-'' @ BENTO4_VERSION @ ''.'' @ platform_str @ ''.zip''"

text \<open>The body of the two loops over the targets (lines 132 to 176).\<close>

definition bento4_cell :: "env \<Rightarrow> string \<Rightarrow> string \<Rightarrow> state \<Rightarrow> exn option \<times> state" where
  "bento4_cell env platform_name arch st =
     (let st0 = print_end (platform_name @ ''-'' @ arch @ '': '') [] st
      in case map_of platform_config platform_name of
           None \<Rightarrow> (Some (KeyError platform_name), st0)
         | Some m \<Rightarrow>
             (case map_of m arch of
                None \<Rightarrow> (None, py_print ''skip'' st0)
              | Some platform_str \<Rightarrow>
                  if platform_str = [] then (None, py_print ''skip'' st0)
                  else let target_dir = base_path st0 @ [platform_name, arch, ''bento4''];
                           zip_path = target_dir @ [''bento4.zip'']
                       in case download env (bento4_url platform_str) zip_path st0 of
                            (False, st1) \<Rightarrow> (None, py_print ''0/4'' st1)
                          | (True, st1) \<Rightarrow>
                              (case bento4_extract env platform_name arch target_dir zip_path (0, st1) of
                                 (None, success, st2) \<Rightarrow> (None, py_print (show_nat success @ ''/4'') st2)
                               | (Some e, success, st2) \<Rightarrow>
                                   (None, py_print (show_nat success @ ''/4'')
                                            (py_print (''  X extract: '' @ take 40 (str_exn e)) st2)))))"

definition download_bento4 :: "env \<Rightarrow> state \<Rightarrow> exn option \<times> state" where
  "download_bento4 env st =
     for_each (\<lambda>(platform_name, arches). for_each (\<lambda>arch. bento4_cell env platform_name arch) arches)
       platforms (py_print (CHR 0x0A # ''=== Bento4 ==='') st)"

subsection \<open>Megatools: an archive unpacked and searched\<close>

definition megatools_config :: "(string \<times> (string \<times> string \<times> string \<times> string) list) list" where
  "megatools_config =
     [(''windows'', [(''x64'', (''win64'', ''.zip'', ''megatools.exe''))]),
      (''darwin'', [(''x64'', (''linux-x86_64'', ''.tar.gz'', ''megatools'')),
                    (''arm64'', (''linux-aarch64'', ''.tar.gz'', ''megatools''))]),
      (''linux'', [(''x64'', (''linux-x86_64'', ''.tar.gz'', ''megatools'')),
                   (''arm64'', (''linux-aarch64'', ''.tar.gz'', ''megatools''))])]"

definition megatools_url :: "string \<Rightarrow> string \<Rightarrow> string" where
  "megatools_url platform_str extension =
     MEGATOOLS_URL @ ''/megatools-'' @ MEGATOOLS_VERSION @ ''-'' @ platform_str @ extension"

text \<open>
  The loop over \<^verbatim>\<open>os.walk(temp_dir)\<close> (lines 217 to 228): the first directory that lists the
  executable among its files gives it, and the loop ends there.
\<close>

fun megatools_find ::
  "string \<Rightarrow> string \<Rightarrow> path \<Rightarrow> string \<Rightarrow> (path \<times> string list \<times> string list) list \<Rightarrow>
   nat \<times> state \<Rightarrow> exn option \<times> nat \<times> state" where
  "megatools_find platform_name arch target_dir executable [] acc = (None, acc)"
| "megatools_find platform_name arch target_dir executable ((root, dirs, files) # rest) acc =
     (if executable \<in> set files
      then steps
             [in_state (on_fs (shutil_move (root @ [executable]) (target_dir @ [executable]))),
              in_state (on_fs (\<lambda>f. if platform_name \<noteq> ''windows'' then chmod (target_dir @ [executable]) 493 f
                                   else (None, f))),
              (\<lambda>a. (None, 1,
                     (snd a)\<lparr>paths_json := add_path platform_name arch ''megatools'' executable (paths_json (snd a))\<rparr>))]
             acc
      else megatools_find platform_name arch target_dir executable rest acc)"

text \<open>The \<^verbatim>\<open>try\<close> block of lines 206 to 231.\<close>

definition megatools_extract ::
  "env \<Rightarrow> string \<Rightarrow> string \<Rightarrow> path \<Rightarrow> path \<Rightarrow> string \<Rightarrow> string \<Rightarrow> nat \<times> state \<Rightarrow>
   exn option \<times> nat \<times> state" where
  "megatools_extract env platform_name arch target_dir archive_path extension executable acc =
     steps
       [in_state (on_fs (mkdir_exist_ok (target_dir @ [''temp'']))),
        in_state (on_fs (\<lambda>f. case read_file archive_path f of
                               Inl e \<Rightarrow> (Some e, f)
                             | Inr data \<Rightarrow> extractall env extension data (target_dir @ [''temp'']) f)),
        (\<lambda>a. megatools_find platform_name arch target_dir executable
                (walk env (target_dir @ [''temp'']) (fs (snd a))) a),
        in_state (on_fs (rmtree (target_dir @ [''temp'']))),
        in_state (on_fs (unlink archive_path))]
       acc"

text \<open>The body of the two loops over the targets (lines 189 to 235).\<close>

definition megatools_cell :: "env \<Rightarrow> string \<Rightarrow> string \<Rightarrow> state \<Rightarrow> exn option \<times> state" where
  "megatools_cell env platform_name arch st =
     (let st0 = print_end (platform_name @ ''-'' @ arch @ '': '') [] st
      in case map_of megatools_config platform_name of
           None \<Rightarrow> (Some (KeyError platform_name), st0)
         | Some m \<Rightarrow>
             (case map_of m arch of
                None \<Rightarrow> (None, py_print ''skip'' st0)
              | Some (platform_str, extension, executable) \<Rightarrow>
                  (let target_dir = base_path st0 @ [platform_name, arch, ''megatools''];
                       archive_path = target_dir @ [''megatools'' @ extension]
                   in case download env (megatools_url platform_str extension) archive_path st0 of
                        (False, st1) \<Rightarrow> (None, py_print ''0/1'' st1)
                      | (True, st1) \<Rightarrow>
                          (case megatools_extract env platform_name arch target_dir archive_path
                                  extension executable (0, st1) of
                             (None, success, st2) \<Rightarrow> (None, py_print (show_nat success @ ''/1'') st2)
                           | (Some e, success, st2) \<Rightarrow>
                               (None, py_print (show_nat success @ ''/1'')
                                        (py_print (''  X extract: '' @ take 40 (str_exn e)) st2))))))"

definition download_megatools :: "env \<Rightarrow> state \<Rightarrow> exn option \<times> state" where
  "download_megatools env st =
     for_each (\<lambda>(platform_name, arches). for_each (\<lambda>arch. megatools_cell env platform_name arch) arches)
       platforms (py_print (CHR 0x0A # ''=== Megatools ==='') st)"

subsection \<open>Writing the manifest\<close>

text \<open>
  \<^verbatim>\<open>json.dump(self.paths_json, f, indent=2)\<close> for a dict of lists of strings. Characters are
  code points below 256; all but the printable ASCII ones are escaped, as \<^verbatim>\<open>ensure_ascii\<close>
  asks.
\<close>

definition hex_digit :: "nat \<Rightarrow> char" where
  "hex_digit n = ''0123456789abcdef'' ! (n mod 16)"

definition json_char :: "char \<Rightarrow> string" where
  "json_char c =
     (if c = CHR 0x22 then [CHR 0x5C, CHR 0x22]
      else if c = CHR 0x5C then [CHR 0x5C, CHR 0x5C]
      else if c = CHR 0x0A then [CHR 0x5C, CHR ''n'']
      else if c = CHR 0x0D then [CHR 0x5C, CHR ''r'']
      else if c = CHR 0x09 then [CHR 0x5C, CHR ''t'']
      else if c = CHR 0x08 then [CHR 0x5C, CHR ''b'']
      else if c = CHR 0x0C then [CHR 0x5C, CHR ''f'']
      else if 32 \<le> (of_char c :: nat) \<and> (of_char c :: nat) \<le> 126 then [c]
      else [CHR 0x5C, CHR ''u'', CHR ''0'', CHR ''0'',
            hex_digit ((of_char c :: nat) div 16), hex_digit (of_char c :: nat)])"

definition json_string :: "string \<Rightarrow> string" where
  "json_string s = [CHR 0x22] @ concat (map json_char s) @ [CHR 0x22]"

fun join_with :: "string \<Rightarrow> string list \<Rightarrow> string" where
  "join_with sep [] = []"
| "join_with sep [x] = x"
| "join_with sep (x # y # ys) = x @ sep @ join_with sep (y # ys)"

definition json_list :: "string list \<Rightarrow> string" where
  "json_list xs =
     (if xs = [] then ''[]''
      else ''['' @ [CHR 0x0A]
           @ join_with ('','' @ [CHR 0x0A]) (map (\<lambda>x. ''    '' @ json_string x) xs)
           @ [CHR 0x0A] @ ''  ]'')"

definition json_dump :: "manifest \<Rightarrow> string" where
  "json_dump m =
     (if m = [] then ''{}''
      else ''{'' @ [CHR 0x0A]
           @ join_with ('','' @ [CHR 0x0A]) (map (\<lambda>(k, v). ''  '' @ json_string k @ '': '' @ json_list v) m)
           @ [CHR 0x0A] @ ''}'')"

text \<open>\<^verbatim>\<open>save_paths_json\<close> (lines 237 to 241); nothing catches an exception here.\<close>

definition save_paths_json :: "env \<Rightarrow> state \<Rightarrow> exn option \<times> state" where
  "save_paths_json env st =
     steps
       [on_fs (open_wb (new_file_mode env) (cwd st @ [''binary_paths.json''])),
        (\<lambda>s. (None, s\<lparr>fs := write_bytes (cwd s @ [''binary_paths.json'']) (json_dump (paths_json s)) (fs s)\<rparr>)),
        (\<lambda>s. (None, py_print (CHR 0x0A # ''Paths: '' @ show_path (cwd s @ [''binary_paths.json''])) s))]
       st"

subsection \<open>The run\<close>

text \<open>\<^verbatim>\<open>run\<close> (lines 243 to 252).\<close>

definition run :: "env \<Rightarrow> state \<Rightarrow> exn option \<times> state" where
  "run env st =
     steps
       [(\<lambda>s. (None, py_print ''Binary Downloader'' s)),
        (\<lambda>s. (None, py_print (''Base: '' @ show_path (base_path s)) s)),
        download_ffmpeg env,
        download_bento4 env,
        download_megatools env,
        save_paths_json env,
        (\<lambda>s. (None, py_print (CHR 0x0A # ''Done!'') s))]
       st"

text \<open>
  \<^verbatim>\<open>BinaryDownloader(base_path)\<close>: \<^verbatim>\<open>__init__\<close> (lines 21 to 35) sets the fields and calls
  \<^verbatim>\<open>_create_directories\<close>. \<open>base\<close> is \<^verbatim>\<open>base_path\<close> resolved against the working directory.
\<close>

definition init :: "path \<Rightarrow> path \<Rightarrow> filesystem \<Rightarrow> exn option \<times> state" where
  "init cwd0 base fs0 =
     create_directories
       \<lparr>cwd = cwd0, base_path = base, paths_json = [], fs = fs0, stdout = [], requests = []\<rparr>"

text \<open>
  The script run as a program (lines 255 to 257), in the working directory \<open>cwd0\<close>:
  \<^verbatim>\<open>BinaryDownloader()\<close> with the default \<^verbatim>\<open>./binaries\<close>, then \<^verbatim>\<open>run()\<close>.
\<close>

definition main :: "env \<Rightarrow> path \<Rightarrow> filesystem \<Rightarrow> exn option \<times> state" where
  "main env cwd0 fs0 = and_then (init cwd0 (cwd0 @ [''binaries'']) fs0) (run env)"

section \<open>Vocabulary of the claims\<close>

text \<open>The cells of the fixed matrix, in the order the loops visit them.\<close>

definition targets :: "(string \<times> string) list" where
  "targets = concat (map (\<lambda>(platform_name, arches). map (Pair platform_name) arches) platforms)"

definition tools :: "string list" where
  "tools = [''ffmpeg'', ''bento4'', ''megatools'']"

text \<open>
  The executables of a tool on a platform, as the loops and tables of the three
  \<^verbatim>\<open>download_\<close> methods name them.
\<close>

definition expected_binaries :: "string \<Rightarrow> string \<Rightarrow> string list" where
  "expected_binaries tool platform_name =
     (if tool = ''ffmpeg''
      then map (\<lambda>x. x @ exe_ext platform_name) [''ffmpeg'', ''ffprobe'']
      else if tool = ''bento4''
      then (case map_of executables platform_name of None \<Rightarrow> [] | Some names \<Rightarrow> names)
      else if tool = ''megatools''
      then (case map_of megatools_config platform_name of
              None \<Rightarrow> []
            | Some m \<Rightarrow> map (\<lambda>(arch, platform_str, extension, executable). executable) m)
      else [])"

text \<open>What a run may record: a cell of the matrix, a tool, and one of its executables.\<close>

definition recordable :: "(string \<times> string \<times> string \<times> string) set" where
  "recordable =
     {(p, a, t, b). (p, a) \<in> set targets \<and> t \<in> set tools \<and> b \<in> set (expected_binaries t p)}"

text \<open>\<open>m'\<close> comes from \<open>m\<close> by \<^verbatim>\<open>_add_path\<close> calls with arguments from \<open>A\<close>.\<close>

definition extends_by :: "(string \<times> string \<times> string \<times> string) set \<Rightarrow> manifest \<Rightarrow> manifest \<Rightarrow> bool" where
  "extends_by A m m' = (\<exists>ops. set ops \<subseteq> A \<and> m' = add_paths ops m)"

text \<open>The URLs that the cell of a target requests, for each tool, as its loop body builds them.\<close>

definition ffmpeg_urls :: "string \<Rightarrow> string \<Rightarrow> string list" where
  "ffmpeg_urls platform_name arch =
     (case map_of ffmpeg_map platform_name of
        None \<Rightarrow> []
      | Some m \<Rightarrow>
          (case map_of m arch of
             None \<Rightarrow> []
           | Some platform_str \<Rightarrow>
               if platform_str = [] then []
               else map (\<lambda>executable. FFMPEG_URL @ ''/'' @ (executable @ ''-'' @ platform_str) @ ''.gz'')
                      [''ffmpeg'', ''ffprobe'']))"

definition bento4_urls :: "string \<Rightarrow> string \<Rightarrow> string list" where
  "bento4_urls platform_name arch =
     (case map_of platform_config platform_name of
        None \<Rightarrow> []
      | Some m \<Rightarrow>
          (case map_of m arch of
             None \<Rightarrow> []
           | Some platform_str \<Rightarrow> if platform_str = [] then [] else [bento4_url platform_str]))"

definition megatools_urls :: "string \<Rightarrow> string \<Rightarrow> string list" where
  "megatools_urls platform_name arch =
     (case map_of megatools_config platform_name of
        None \<Rightarrow> []
      | Some m \<Rightarrow>
          (case map_of m arch of
             None \<Rightarrow> []
           | Some (platform_str, extension, executable) \<Rightarrow> [megatools_url platform_str extension]))"

text \<open>
  The three \<^verbatim>\<open>download_\<close> methods never raise, so \<^verbatim>\<open>run\<close> is their sequence followed by the
  writing of the manifest, which alone may raise.
\<close>

definition after_downloads :: "env \<Rightarrow> state \<Rightarrow> state" where
  "after_downloads env st =
     snd (download_megatools env (snd (download_bento4 env (snd (download_ffmpeg env
       (py_print (''Base: '' @ show_path (base_path st)) (py_print ''Binary Downloader'' st)))))))"

text \<open>
  The paths of lines 92 and 95: where the gzip stream of an FFmpeg executable is downloaded to,
  and where the executable is written.
\<close>

definition ffmpeg_gz_path :: "path \<Rightarrow> string \<Rightarrow> string \<Rightarrow> string \<Rightarrow> string \<Rightarrow> path" where
  "ffmpeg_gz_path base platform_name arch platform_str executable =
     (base @ [platform_name, arch, ''ffmpeg'']) @ [(executable @ ''-'' @ platform_str) @ ''.gz'']"

definition ffmpeg_final_path :: "path \<Rightarrow> string \<Rightarrow> string \<Rightarrow> string \<Rightarrow> path" where
  "ffmpeg_final_path base platform_name arch executable =
     (base @ [platform_name, arch, ''ffmpeg'']) @ [executable @ exe_ext platform_name]"

definition ffmpeg_url :: "string \<Rightarrow> string \<Rightarrow> string" where
  "ffmpeg_url platform_str executable = FFMPEG_URL @ ''/'' @ (executable @ ''-'' @ platform_str) @ ''.gz''"

text \<open>
  The diagnostic of a failed fetch: \<^verbatim>\<open>X\<close>, the last segment of the URL, and the first 50
  characters of the text of the error.
\<close>

definition failure_line :: "string \<Rightarrow> string \<Rightarrow> string" where
  "failure_line url msg = ''  X '' @ last (split_on CHR ''/'' url) @ '': '' @ take 50 msg @ [CHR 0x0A]"

text \<open>The directories that \<^verbatim>\<open>_create_directories\<close> asks for, in the order of its loops.\<close>

definition layout_dirs :: "path \<Rightarrow> path list" where
  "layout_dirs base =
     concat (map (\<lambda>(platform_name, arch).
                    [base @ [platform_name, arch, ''ffmpeg''],
                     base @ [platform_name, arch, ''bento4''],
                     base @ [platform_name, arch, ''megatools'']]) targets)"

text \<open>
  A manifest entry as the schema describes it: the key is \<^verbatim>\<open>{platform}_{architecture}_{tool}\<close> for
  a cell of the matrix and a tool, and every path of its list is
  \<^verbatim>\<open>{platform}/{architecture}/{tool}/{binary}\<close> for the same three and one of the tool's
  executables.
\<close>

definition valid_entry :: "string \<times> string list \<Rightarrow> bool" where
  "valid_entry kv =
     (\<exists>(p, a) \<in> set targets. \<exists>t \<in> set tools.
        fst kv = manifest_key p a t
        \<and> (\<forall>x \<in> set (snd kv). \<exists>b \<in> set (expected_binaries t p). x = rel_path_of p a t b))"

section \<open>Sample environments and states\<close>

text \<open>
  An environment that answers every request alike, in which every gzip stream decompresses to
  itself, no bytes are a zip archive, and unpacking an archive leaves nothing.
\<close>

definition fixed_env :: "string + response \<Rightarrow> env" where
  "fixed_env answer =
     \<lparr>http_get = (\<lambda>n url. answer),
      gunzip = (\<lambda>data. (data, None)),
      zip_filelist = (\<lambda>data. Inl ''File is not a zip file''),
      extractall = (\<lambda>extension data directory f. (None, f)),
      walk = (\<lambda>directory f. []),
      new_file_mode = 420,
      write_error = (\<lambda>p chunk. None),
      close_error = (\<lambda>p. None)\<rparr>"

text \<open>A state with nothing but the directory \<^verbatim>\<open>/srv\<close>, which is the working directory.\<close>

definition bare_state :: state where
  "bare_state =
     \<lparr>cwd = [''srv''], base_path = [''srv'', ''binaries''], paths_json = [],
      fs = [([''srv''], Dir)], stdout = [], requests = []\<rparr>"

text \<open>
  A state whose file system holds the directories of the FFmpeg and Bento4 cells of
  (linux, x64) and of the FFmpeg cell of (windows, x64), below \<^verbatim>\<open>/srv/binaries\<close>.
\<close>

definition sample_state :: state where
  "sample_state =
     \<lparr>cwd = [''srv''], base_path = [''srv'', ''binaries''], paths_json = [],
      fs = [([''srv''], Dir),
            ([''srv'', ''binaries''], Dir),
            ([''srv'', ''binaries'', ''linux''], Dir),
            ([''srv'', ''binaries'', ''linux'', ''x64''], Dir),
            ([''srv'', ''binaries'', ''linux'', ''x64'', ''ffmpeg''], Dir),
            ([''srv'', ''binaries'', ''linux'', ''x64'', ''bento4''], Dir),
            ([''srv'', ''binaries'', ''windows''], Dir),
            ([''srv'', ''binaries'', ''windows'', ''x64''], Dir),
            ([''srv'', ''binaries'', ''windows'', ''x64'', ''ffmpeg''], Dir)],
      stdout = [], requests = []\<rparr>"

text \<open>A file system in which a regular file stands where the base directory should be.\<close>

definition blocked_fs :: filesystem where
  "blocked_fs = [([''srv''], Dir), ([''srv'', ''binaries''], File ''not a directory'' 420)]"

text \<open>
  An environment in which the first \<open>k\<close> requests of a run are answered with the body
  \<^verbatim>\<open>data\<close> and every later request finds no connection.
\<close>

definition first_requests_env :: "nat \<Rightarrow> env" where
  "first_requests_env k =
     \<lparr>http_get = (\<lambda>n url. if n < k then Inr (Response 200 ''OK'' [''data''] None)
                           else Inl ''Connection refused''),
      gunzip = (\<lambda>data. (data, None)),
      zip_filelist = (\<lambda>data. Inl ''File is not a zip file''),
      extractall = (\<lambda>extension data directory f. (None, f)),
      walk = (\<lambda>directory f. []),
      new_file_mode = 420,
      write_error = (\<lambda>p chunk. None),
      close_error = (\<lambda>p. None)\<rparr>"

text \<open>
  An environment in which every request is answered with the two chunks \<^verbatim>\<open>da\<close> and \<^verbatim>\<open>ta\<close>, the
  operating system refuses to write the second chunk with \<open>werr\<close>, if given, and the closing
  of a download ends with \<open>cerr\<close>, if given.
\<close>

definition faulty_disk_env :: "string option \<Rightarrow> string option \<Rightarrow> env" where
  "faulty_disk_env werr cerr =
     \<lparr>http_get = (\<lambda>n url. Inr (Response 200 ''OK'' [''da'', ''ta''] None)),
      gunzip = (\<lambda>data. (data, None)),
      zip_filelist = (\<lambda>data. Inl ''File is not a zip file''),
      extractall = (\<lambda>extension data directory f. (None, f)),
      walk = (\<lambda>directory f. []),
      new_file_mode = 420,
      write_error = (\<lambda>p chunk. if chunk = ''ta'' then werr else None),
      close_error = (\<lambda>p. cerr)\<rparr>"

text \<open>A state whose manifest already holds one entry, as at a second call of \<^verbatim>\<open>run\<close>.\<close>

definition seeded_state :: state where
  "seeded_state = bare_state\<lparr>paths_json := [(''windows_x64_ffmpeg'', [''windows/x64/ffmpeg/ffmpeg.exe''])]\<rparr>"

text \<open>
  An environment in which every download succeeds and every downloaded zip archive has the
  given members.
\<close>

definition archive_env :: "zip_info list \<Rightarrow> env" where
  "archive_env filelist =
     \<lparr>http_get = (\<lambda>n url. Inr (Response 200 ''OK'' [''PK''] None)),
      gunzip = (\<lambda>data. (data, None)),
      zip_filelist = (\<lambda>data. Inr filelist),
      extractall = (\<lambda>extension data directory f. (None, f)),
      walk = (\<lambda>directory f. []),
      new_file_mode = 420,
      write_error = (\<lambda>p chunk. None),
      close_error = (\<lambda>p. None)\<rparr>"

text \<open>
  A zip archive with one member for each of three expected names and two members whose
  names end with the fourth.
\<close>

definition duplicate_archive :: "zip_info list" where
  "duplicate_archive =
     [ZipInfo ''sdk/bin/mp4decrypt'' ''D'' None,
      ZipInfo ''sdk/bin/mp4encrypt'' ''E'' None,
      ZipInfo ''sdk/bin/mp4info'' ''I'' None,
      ZipInfo ''sdk/bin/mp4dump'' ''first'' None,
      ZipInfo ''sdk/utils/mp4dump'' ''second'' None]"

text \<open>A zip archive with members for three of the four expected names.\<close>

definition partial_archive :: "zip_info list" where
  "partial_archive =
     [ZipInfo ''sdk/bin/mp4decrypt'' ''D'' None,
      ZipInfo ''sdk/bin/mp4info'' ''I'' None,
      ZipInfo ''sdk/readme.txt'' ''R'' None,
      ZipInfo ''sdk/bin/mp4dump'' ''U'' None]"

text \<open>A state with the directory of the Bento4 cell of (linux, x64) below \<^verbatim>\<open>/b\<close> and no other.\<close>

definition bento4_state :: state where
  "bento4_state =
     \<lparr>cwd = [], base_path = [''b''], paths_json = [],
      fs = [([''b''], Dir),
            ([''b'', ''linux''], Dir),
            ([''b'', ''linux'', ''x64''], Dir),
            ([''b'', ''linux'', ''x64'', ''bento4''], Dir)],
      stdout = [], requests = []\<rparr>"

section \<open>Facts about the manifest\<close>

lemma split_on_nonempty: "split_on c s \<noteq> []"
  by (induction s) (auto split: list.splits)

lemma map_of_update_same: "map_of (AList.update k v m) k = Some v"
  by (simp add: update_conv')

lemma map_of_update_other: "k' \<noteq> k \<Longrightarrow> map_of (AList.update k v m) k' = map_of m k'"
  by (simp add: update_conv')

lemma map_of_None_iff: "map_of m k = None \<longleftrightarrow> k \<notin> fst ` set m"
  by (simp add: map_of_eq_None_iff)

lemma entries_add_path_same:
  "entries (add_path p a t b m) (manifest_key p a t) =
     (if rel_path_of p a t b \<in> set (entries m (manifest_key p a t))
      then entries m (manifest_key p a t)
      else entries m (manifest_key p a t) @ [rel_path_of p a t b])"
proof (cases "manifest_key p a t \<in> fst ` set m")
  case True
  then show ?thesis
    by (simp add: add_path_def Let_def entries_def map_of_update_same)
next
  case False
  then have "map_of m (manifest_key p a t) = None"
    by (simp add: map_of_None_iff)
  with False show ?thesis
    by (simp add: add_path_def Let_def entries_def map_of_update_same)
qed

lemma entries_add_path_other:
  "k \<noteq> manifest_key p a t \<Longrightarrow> entries (add_path p a t b m) k = entries m k"
  by (auto simp: add_path_def Let_def entries_def map_of_update_other)

lemma keys_add_path:
  "fst ` set (add_path p a t b m) = insert (manifest_key p a t) (fst ` set m)"
  by (auto simp: add_path_def Let_def dom_update)

lemma add_path_idem: "add_path p a t b (add_path p a t b m) = add_path p a t b m"
proof -
  let ?k = "manifest_key p a t"
  let ?m = "add_path p a t b m"
  have key: "?k \<in> fst ` set ?m" by (simp add: keys_add_path)
  have mem: "rel_path_of p a t b \<in> set (entries ?m ?k)"
    by (simp add: entries_add_path_same)
  show ?thesis
    unfolding add_path_def [of p a t b ?m] Let_def using key mem by simp
qed

lemma count_list_distinct: "distinct xs \<Longrightarrow> x \<in> set xs \<Longrightarrow> count_list xs x = 1"
  by (induction xs) auto

lemma add_path_distinct:
  assumes "\<forall>k. distinct (entries m k)"
  shows "\<forall>k. distinct (entries (add_path p a t b m) k)"
proof
  fix k
  show "distinct (entries (add_path p a t b m) k)"
  proof (cases "k = manifest_key p a t")
    case True
    then show ?thesis using assms by (simp add: entries_add_path_same)
  next
    case False
    then show ?thesis using assms by (simp add: entries_add_path_other)
  qed
qed

lemma add_paths_snoc:
  "add_paths (ops @ [(p, a, t, b)]) m = add_path p a t b (add_paths ops m)"
  by (simp add: add_paths_def)

lemma add_paths_distinct: "distinct (entries (add_paths ops []) k)"
proof -
  have "\<forall>k. distinct (entries (add_paths ops []) k)"
  proof (induction ops rule: rev_induct)
    case Nil
    show ?case by (simp add: add_paths_def entries_def)
  next
    case (snoc op ops)
    obtain p a t b where op: "op = (p, a, t, b)" by (cases op) auto
    show ?case unfolding op add_paths_snoc by (rule add_path_distinct) (rule snoc.IH)
  qed
  then show ?thesis by blast
qed

text \<open>
  A key has one reading as platform, architecture and tool when these are free of the
  underscore that joins them.
\<close>

lemma sep_split_unique:
  assumes "c \<notin> set xs" "c \<notin> set xs'" "xs @ c # ys = xs' @ c # ys'"
  shows "xs = xs' \<and> ys = ys'"
proof -
  have "takeWhile (\<lambda>x. x \<noteq> c) (xs @ c # ys) = xs" using assms(1)
    by (simp add: takeWhile_append)
  moreover have "takeWhile (\<lambda>x. x \<noteq> c) (xs' @ c # ys') = xs'" using assms(2)
    by (simp add: takeWhile_append)
  ultimately have "xs = xs'" using assms(3) by simp
  with assms(3) show ?thesis by simp
qed

lemma count_sep_zero: "count_list xs c = 0 \<longleftrightarrow> c \<notin> set xs"
  by (induction xs) auto

lemma manifest_key_inj:
  assumes "CHR ''_'' \<notin> set p" "CHR ''_'' \<notin> set a" "CHR ''_'' \<notin> set t"
    and eq: "manifest_key p a t = manifest_key p' a' t'"
  shows "p = p' \<and> a = a' \<and> t = t'"
proof -
  have "count_list (manifest_key p a t) CHR ''_'' = 2"
    using assms(1-3) by (simp add: manifest_key_def count_sep_zero [symmetric])
  then have "count_list (manifest_key p' a' t') CHR ''_'' = 2" using eq by simp
  then have "count_list p' CHR ''_'' + count_list a' CHR ''_'' + count_list t' CHR ''_'' = 0"
    by (simp add: manifest_key_def)
  then have n: "CHR ''_'' \<notin> set p'" "CHR ''_'' \<notin> set a'" "CHR ''_'' \<notin> set t'"
    by (simp_all add: count_sep_zero)
  from eq have e1: "p @ CHR ''_'' # (a @ ''_'' @ t) = p' @ CHR ''_'' # (a' @ ''_'' @ t')"
    by (simp add: manifest_key_def)
  from sep_split_unique [OF assms(1) n(1) e1] have pp: "p = p'" and r: "a @ ''_'' @ t = a' @ ''_'' @ t'"
    by simp_all
  from r have "a @ CHR ''_'' # t = a' @ CHR ''_'' # t'" by simp
  from sep_split_unique [OF assms(2) n(2) this] pp show ?thesis by simp
qed

lemma built_paths_add_path:
  assumes "built_paths m"
  shows "built_paths (add_path p a t b m)"
  unfolding built_paths_def
proof (intro allI impI)
  fix k x
  assume x: "x \<in> set (entries (add_path p a t b m) k)"
  show "\<exists>p a t b. k = manifest_key p a t \<and> x = rel_path_of p a t b"
  proof (cases "k = manifest_key p a t")
    case True
    with x have "x \<in> set (entries m k) \<or> x = rel_path_of p a t b"
      by (auto simp: entries_add_path_same split: if_splits)
    then show ?thesis using assms True unfolding built_paths_def by blast
  next
    case False
    with x have "x \<in> set (entries m k)" by (simp add: entries_add_path_other)
    then show ?thesis using assms unfolding built_paths_def by blast
  qed
qed

lemma built_paths_add_paths: "built_paths (add_paths ops [])"
proof (induction ops rule: rev_induct)
  case Nil
  show ?case by (simp add: built_paths_def add_paths_def entries_def)
next
  case (snoc op ops)
  obtain p a t b where op: "op = (p, a, t, b)" by (cases op) auto
  show ?case unfolding op add_paths_snoc by (rule built_paths_add_path) (rule snoc.IH)
qed

lemma startswith_append: "startswith (xs @ ys) xs"
  by (simp add: startswith_def)

section \<open>Loops and blocks\<close>

lemma for_each_keeps:
  assumes "\<And>x s. x \<in> set xs \<Longrightarrow> g (snd (body x s)) = g s"
  shows "g (snd (for_each body xs s)) = g s"
  using assms
proof (induction xs arbitrary: s)
  case Nil
  show ?case by simp
next
  case (Cons x xs)
  show ?case
  proof (cases "body x s")
    case (Pair e s')
    have s': "g s' = g s" using Cons.prems [of x s] Pair by simp
    show ?thesis
    proof (cases e)
      case None
      have "g (snd (for_each body xs s')) = g s'" by (rule Cons.IH) (simp add: Cons.prems)
      then show ?thesis using Pair None s' by simp
    next
      case (Some a)
      then show ?thesis using Pair s' by simp
    qed
  qed
qed

lemma steps_keeps:
  assumes "\<And>f s. f \<in> set ss \<Longrightarrow> g (snd (f s)) = g s"
  shows "g (snd (steps ss s)) = g s"
  unfolding steps_def by (rule for_each_keeps) (rule assms)

text \<open>A relation between the state before and after that every iteration respects.\<close>

lemma for_each_rel:
  assumes refl: "\<And>s. R s s"
    and trans: "\<And>s1 s2 s3. R s1 s2 \<Longrightarrow> R s2 s3 \<Longrightarrow> R s1 s3"
    and body: "\<And>x s. x \<in> set xs \<Longrightarrow> R s (snd (body x s))"
  shows "R s (snd (for_each body xs s))"
  using body
proof (induction xs arbitrary: s)
  case Nil
  show ?case by (simp add: refl)
next
  case (Cons x xs)
  show ?case
  proof (cases "body x s")
    case (Pair e s')
    have s': "R s s'" using Cons.prems [of x s] Pair by simp
    show ?thesis
    proof (cases e)
      case None
      have "R s' (snd (for_each body xs s'))" by (rule Cons.IH) (simp add: Cons.prems)
      with s' have "R s (snd (for_each body xs s'))" by (rule trans)
      then show ?thesis using Pair None by simp
    next
      case (Some a)
      then show ?thesis using Pair s' by simp
    qed
  qed
qed

lemma steps_rel:
  assumes "\<And>s. R s s"
    and "\<And>s1 s2 s3. R s1 s2 \<Longrightarrow> R s2 s3 \<Longrightarrow> R s1 s3"
    and "\<And>f s. f \<in> set ss \<Longrightarrow> R s (snd (f s))"
  shows "R s (snd (steps ss s))"
  unfolding steps_def by (rule for_each_rel [where R = R]) (fact assms)+

lemma for_each_no_raise:
  assumes "\<And>x s. x \<in> set xs \<Longrightarrow> fst (body x s) = None"
  shows "fst (for_each body xs s) = None"
  using assms
proof (induction xs arbitrary: s)
  case Nil
  show ?case by simp
next
  case (Cons x xs)
  obtain s' where b: "body x s = (None, s')"
    using Cons.prems [of x s] by (cases "body x s") auto
  have "fst (for_each body xs s') = None" by (rule Cons.IH) (simp add: Cons.prems)
  then show ?case using b by simp
qed

text \<open>
  A loop whose body never raises and appends to a log (the requests) a list that depends on
  the element only: the loop appends the lists of all elements, in order.
\<close>

lemma for_each_appends:
  assumes "\<And>x s. x \<in> set xs \<Longrightarrow> fst (body x s) = None \<and> g (snd (body x s)) = g s @ added x"
  shows "fst (for_each body xs s) = None \<and> g (snd (for_each body xs s)) = g s @ concat (map added xs)"
  using assms
proof (induction xs arbitrary: s)
  case Nil
  show ?case by simp
next
  case (Cons x xs)
  obtain s' where b: "body x s = (None, s')" and g: "g s' = g s @ added x"
    using Cons.prems [of x s] by (cases "body x s") auto
  have "fst (for_each body xs s') = None \<and> g (snd (for_each body xs s')) = g s' @ concat (map added xs)"
    by (rule Cons.IH) (simp add: Cons.prems)
  then show ?case using b g by simp
qed

section \<open>What a step leaves alone\<close>

lemma print_end_fields [simp]:
  "requests (print_end text ending st) = requests st"
  "paths_json (print_end text ending st) = paths_json st"
  "base_path (print_end text ending st) = base_path st"
  "cwd (print_end text ending st) = cwd st"
  "fs (print_end text ending st) = fs st"
  by (simp_all add: print_end_def)

lemma py_print_fields [simp]:
  "requests (py_print text st) = requests st"
  "paths_json (py_print text st) = paths_json st"
  "base_path (py_print text st) = base_path st"
  "cwd (py_print text st) = cwd st"
  "fs (py_print text st) = fs st"
  by (simp_all add: py_print_def)

lemma on_fs_fields [simp]:
  "requests (snd (on_fs op st)) = requests st"
  "paths_json (snd (on_fs op st)) = paths_json st"
  "base_path (snd (on_fs op st)) = base_path st"
  "cwd (snd (on_fs op st)) = cwd st"
  by (simp_all add: on_fs_def split: prod.splits)

lemma in_state_snd: "snd (snd (in_state f acc)) = snd (f (snd acc))"
  by (simp add: in_state_def split: prod.splits)

lemma in_state_count: "fst (snd (in_state f acc)) = fst acc"
  by (simp add: in_state_def split: prod.splits)

lemma in_state_on_fs_fields [simp]:
  "requests (snd (snd (in_state (on_fs op) acc))) = requests (snd acc)"
  "paths_json (snd (snd (in_state (on_fs op) acc))) = paths_json (snd acc)"
  "base_path (snd (snd (in_state (on_fs op) acc))) = base_path (snd acc)"
  "cwd (snd (snd (in_state (on_fs op) acc))) = cwd (snd acc)"
  by (simp_all add: in_state_snd)

text \<open>\<^verbatim>\<open>_download\<close> logs its URL, whatever happens, and leaves the manifest alone.\<close>

lemma download_body_fields:
  "requests (snd (download_body env url dest st)) = requests st @ [url]"
  "paths_json (snd (download_body env url dest st)) = paths_json st"
  "base_path (snd (download_body env url dest st)) = base_path st"
  "cwd (snd (download_body env url dest st)) = cwd st"
  by (auto simp: download_body_def Let_def steps_def on_fs_def closing_def
      split: sum.splits option.splits prod.splits)

lemma download_fields [simp]:
  "requests (snd (download env url dest st)) = requests st @ [url]"
  "paths_json (snd (download env url dest st)) = paths_json st"
  "base_path (snd (download env url dest st)) = base_path st"
  "cwd (snd (download env url dest st)) = cwd st"
  using download_body_fields [of env url dest st]
  by (auto simp: download_def split: prod.splits option.splits)

section \<open>Growth of the manifest\<close>

lemma add_paths_append: "add_paths (xs @ ys) m = add_paths ys (add_paths xs m)"
  by (simp add: add_paths_def)

lemma extends_by_refl: "extends_by A m m"
  unfolding extends_by_def by (rule exI [of _ "[]"]) (simp add: add_paths_def)

lemma extends_by_trans: "extends_by A m1 m2 \<Longrightarrow> extends_by A m2 m3 \<Longrightarrow> extends_by A m1 m3"
proof -
  assume "extends_by A m1 m2" and "extends_by A m2 m3"
  then obtain xs ys where "set xs \<subseteq> A" "m2 = add_paths xs m1" "set ys \<subseteq> A" "m3 = add_paths ys m2"
    unfolding extends_by_def by blast
  then have "set (xs @ ys) \<subseteq> A \<and> m3 = add_paths (xs @ ys) m1" by (simp add: add_paths_append)
  then show ?thesis unfolding extends_by_def by blast
qed

lemma extends_by_mono: "A \<subseteq> B \<Longrightarrow> extends_by A m m' \<Longrightarrow> extends_by B m m'"
  unfolding extends_by_def by blast

lemma extends_by_add: "(p, a, t, b) \<in> A \<Longrightarrow> extends_by A m (add_path p a t b m)"
  unfolding extends_by_def by (rule exI [of _ "[(p, a, t, b)]"]) (simp add: add_paths_def)

section \<open>The FFmpeg cells\<close>

lemma ffmpeg_extract_fields:
  "requests (snd (ffmpeg_extract env p a b gz final st)) = requests st"
  "base_path (snd (ffmpeg_extract env p a b gz final st)) = base_path st"
  "cwd (snd (ffmpeg_extract env p a b gz final st)) = cwd st"
  unfolding ffmpeg_extract_def
  by (auto split: sum.splits intro!: steps_keeps)

lemma ffmpeg_extract_manifest:
  "extends_by {(p, a, ''ffmpeg'', b)} (paths_json st) (paths_json (snd (ffmpeg_extract env p a b gz final st)))"
proof (cases "read_file gz (fs st)")
  case (Inl e)
  then show ?thesis by (simp add: ffmpeg_extract_def extends_by_refl)
next
  case (Inr data)
  show ?thesis unfolding ffmpeg_extract_def Inr sum.case
    by (rule steps_rel [where R = "\<lambda>s s'. extends_by {(p, a, ''ffmpeg'', b)} (paths_json s) (paths_json s')"])
      (auto intro: extends_by_refl extends_by_trans extends_by_add)
qed


lemma ffmpeg_executable_shape:
  fixes env p a ps acc exe
  defines "dir \<equiv> base_path (snd acc) @ [p, a, ''ffmpeg'']"
    and "ext \<equiv> exe_ext p"
  defines "D \<equiv> download env (FFMPEG_URL @ ''/'' @ (exe @ ''-'' @ ps) @ ''.gz'') (dir @ [(exe @ ''-'' @ ps) @ ''.gz'']) (snd acc)"
  defines "X \<equiv> ffmpeg_extract env p a (exe @ ext) (dir @ [(exe @ ''-'' @ ps) @ ''.gz'']) (dir @ [exe @ ext]) (snd D)"
  shows "ffmpeg_executable env p a ps acc exe =
      (if fst D then (case fst X of None \<Rightarrow> (fst acc + 1, snd X)
                      | Some e \<Rightarrow> (fst acc, py_print (''  X extract '' @ exe) (snd X)))
       else (fst acc, snd D))"
  unfolding ffmpeg_executable_def Let_def X_def D_def dir_def ext_def
  by (simp split: prod.splits bool.splits option.splits)

lemma ffmpeg_executable_fields:
  "requests (snd (ffmpeg_executable env p a ps acc exe)) =
     requests (snd acc) @ [FFMPEG_URL @ ''/'' @ (exe @ ''-'' @ ps) @ ''.gz'']"
  "base_path (snd (ffmpeg_executable env p a ps acc exe)) = base_path (snd acc)"
  "cwd (snd (ffmpeg_executable env p a ps acc exe)) = cwd (snd acc)"
  unfolding ffmpeg_executable_shape
  by (simp_all add: ffmpeg_extract_fields split: option.splits)

lemma ffmpeg_executable_manifest:
  "extends_by {(p, a, ''ffmpeg'', exe @ exe_ext p)}
     (paths_json (snd acc)) (paths_json (snd (ffmpeg_executable env p a ps acc exe)))"
proof -
  let ?A = "{(p, a, ''ffmpeg'', exe @ exe_ext p)}"
  let ?dir = "base_path (snd acc) @ [p, a, ''ffmpeg'']"
  let ?D = "download env (FFMPEG_URL @ ''/'' @ (exe @ ''-'' @ ps) @ ''.gz'') (?dir @ [(exe @ ''-'' @ ps) @ ''.gz'']) (snd acc)"
  let ?X = "ffmpeg_extract env p a (exe @ exe_ext p) (?dir @ [(exe @ ''-'' @ ps) @ ''.gz'']) (?dir @ [exe @ exe_ext p]) (snd ?D)"
  have "extends_by ?A (paths_json (snd ?D)) (paths_json (snd ?X))"
    by (rule ffmpeg_extract_manifest)
  then have x: "extends_by ?A (paths_json (snd acc)) (paths_json (snd ?X))"
    by (simp only: download_fields)
  have d: "extends_by ?A (paths_json (snd acc)) (paths_json (snd ?D))"
    by (simp only: download_fields extends_by_refl)
  show ?thesis
    unfolding ffmpeg_executable_shape using x d
    by (simp only: py_print_fields snd_conv split: option.splits if_splits) simp
qed

lemma ffmpeg_cell_fields:
  "base_path (snd (ffmpeg_cell env p a st)) = base_path st"
  "cwd (snd (ffmpeg_cell env p a st)) = cwd st"
  unfolding ffmpeg_cell_def Let_def
  by (simp_all add: ffmpeg_executable_fields split: option.splits)

lemma ffmpeg_cell_requests:
  "requests (snd (ffmpeg_cell env p a st)) = requests st @ ffmpeg_urls p a"
  unfolding ffmpeg_cell_def ffmpeg_urls_def Let_def
  by (simp add: ffmpeg_executable_fields split: option.splits)

lemma ffmpeg_cell_no_raise:
  "map_of ffmpeg_map p \<noteq> None \<Longrightarrow> fst (ffmpeg_cell env p a st) = None"
  unfolding ffmpeg_cell_def Let_def
  by (auto split: option.splits)

lemma foldl_rel:
  assumes refl: "\<And>s. R s s"
    and trans: "\<And>s1 s2 s3. R s1 s2 \<Longrightarrow> R s2 s3 \<Longrightarrow> R s1 s3"
    and body: "\<And>x s. x \<in> set xs \<Longrightarrow> R s (f s x)"
  shows "R s (foldl f s xs)"
  using body
proof (induction xs arbitrary: s)
  case Nil
  show ?case by (simp add: refl)
next
  case (Cons x xs)
  have "R s (f s x)" by (rule Cons.prems) simp
  moreover have "R (f s x) (foldl f (f s x) xs)" by (rule Cons.IH) (simp add: Cons.prems)
  ultimately show ?case by (simp add: trans [of s "f s x"])
qed

lemma ffmpeg_cell_manifest:
  "extends_by {(p, a, ''ffmpeg'', b) | b. b \<in> set (expected_binaries ''ffmpeg'' p)}
     (paths_json st) (paths_json (snd (ffmpeg_cell env p a st)))"
proof -
  let ?A = "{(p, a, ''ffmpeg'', b) | b. b \<in> set (expected_binaries ''ffmpeg'' p)}"
  let ?R = "\<lambda>s s'. extends_by ?A (paths_json (snd s)) (paths_json (snd s'))"
  have loop: "?R acc (foldl (ffmpeg_executable env p a ps) acc [''ffmpeg'', ''ffprobe''])" for ps acc
  proof (rule foldl_rel [where R = ?R])
    fix x :: string and s :: "nat \<times> state"
    assume "x \<in> set [''ffmpeg'', ''ffprobe'']"
    then have "{(p, a, ''ffmpeg'', x @ exe_ext p)} \<subseteq> ?A"
      by (auto simp: expected_binaries_def)
    then show "?R s (ffmpeg_executable env p a ps s x)"
      by (rule extends_by_mono) (rule ffmpeg_executable_manifest)
  qed (auto intro: extends_by_refl extends_by_trans)
  show ?thesis
    unfolding ffmpeg_cell_def Let_def
    using loop [of "(0, print_end (p @ ''-'' @ a @ '': '') [] st)"]
    by (auto split: option.splits simp: extends_by_refl)
qed

section \<open>The Bento4 cells\<close>

text \<open>
  A field of the state that no write to the file system or the manifest touches keeps its
  value through an extraction.
\<close>

lemma on_fs_keeps:
  assumes "\<And>s f. g (s\<lparr>fs := f\<rparr>) = g s"
  shows "g (snd (on_fs op st)) = g st"
  by (simp add: on_fs_def assms split: prod.splits)

lemma in_state_on_fs_keeps:
  assumes "\<And>s f. g (s\<lparr>fs := f\<rparr>) = g s"
  shows "g (snd (snd (in_state (on_fs op) acc))) = g (snd acc)"
  by (simp add: in_state_snd on_fs_keeps [of g, OF assms])

lemma bento4_match_keeps:
  assumes F: "\<And>s f. g (s\<lparr>fs := f\<rparr>) = g s" and M: "\<And>s m. g (s\<lparr>paths_json := m\<rparr>) = g s"
  shows "g (snd (snd (bento4_match env p a dir member exe acc))) = g (snd acc)"
proof (cases "endswith (filename member) exe")
  case False
  then show ?thesis by (simp add: bento4_match_def)
next
  case True
  show ?thesis
    unfolding bento4_match_def if_P [OF True]
    by (rule steps_keeps [where g = "\<lambda>x. g (snd x)"])
      (auto simp: in_state_on_fs_keeps [of g, OF F] M)
qed

lemma bento4_extract_keeps:
  assumes F: "\<And>s f. g (s\<lparr>fs := f\<rparr>) = g s" and M: "\<And>s m. g (s\<lparr>paths_json := m\<rparr>) = g s"
  shows "g (snd (snd (bento4_extract env p a dir zp acc))) = g (snd acc)"
proof -
  have names: "g (snd (snd (for_each (bento4_match env p a dir member) names s))) = g (snd s)"
    for member names s
    by (rule for_each_keeps [where g = "\<lambda>x. g (snd x)"]) (rule bento4_match_keeps [OF F M])
  have members: "g (snd (snd (for_each (\<lambda>member a'.
                    case map_of executables p of
                      None \<Rightarrow> (Some (KeyError p), a')
                    | Some names \<Rightarrow> for_each (bento4_match env p a dir member) names a') filelist s))) = g (snd s)"
    for filelist s
    by (rule for_each_keeps [where g = "\<lambda>x. g (snd x)"]) (simp add: names split: option.splits)
  show ?thesis
  proof (cases "read_file zp (fs (snd acc))")
    case (Inl e)
    then show ?thesis by (simp add: bento4_extract_def)
  next
    case (Inr data)
    show ?thesis
    proof (cases "zip_filelist env data")
      case (Inl msg)
      then show ?thesis using Inr by (simp add: bento4_extract_def)
    next
      case filelist: (Inr filelist)
      show ?thesis
        unfolding bento4_extract_def Inr filelist sum.case
        by (rule steps_keeps [where g = "\<lambda>x. g (snd x)"])
          (auto simp: members in_state_on_fs_keeps [of g, OF F])
    qed
  qed
qed

lemma bento4_match_manifest:
  "extends_by {(p, a, ''bento4'', exe)} (paths_json (snd acc))
     (paths_json (snd (snd (bento4_match env p a dir member exe acc))))"
proof (cases "endswith (filename member) exe")
  case False
  then show ?thesis by (simp add: bento4_match_def extends_by_refl)
next
  case True
  show ?thesis
    unfolding bento4_match_def if_P [OF True]
    by (rule steps_rel [where R = "\<lambda>s s'. extends_by {(p, a, ''bento4'', exe)} (paths_json (snd s)) (paths_json (snd s'))"])
      (auto intro: extends_by_trans extends_by_add simp: extends_by_refl)
qed

lemma bento4_extract_manifest:
  "extends_by {(p, a, ''bento4'', b) | b. b \<in> set (expected_binaries ''bento4'' p)}
     (paths_json (snd acc)) (paths_json (snd (snd (bento4_extract env p a dir zp acc))))"
proof -
  let ?A = "{(p, a, ''bento4'', b) | b. b \<in> set (expected_binaries ''bento4'' p)}"
  let ?R = "\<lambda>s s'. extends_by ?A (paths_json (snd s)) (paths_json (snd (s' :: nat \<times> state)))"
  have refl: "\<And>s. ?R s s" by (rule extends_by_refl)
  have trans: "\<And>s1 s2 s3. ?R s1 s2 \<Longrightarrow> ?R s2 s3 \<Longrightarrow> ?R s1 s3" by (rule extends_by_trans)
  have names: "?R s (snd (for_each (bento4_match env p a dir member) names s))"
    if "map_of executables p = Some names" for member names s
  proof (rule for_each_rel [where R = ?R, OF refl trans])
    fix x s
    assume "x \<in> set names"
    then have "{(p, a, ''bento4'', x)} \<subseteq> ?A" using that by (auto simp: expected_binaries_def)
    then show "?R s (snd (bento4_match env p a dir member x s))"
      by (rule extends_by_mono) (rule bento4_match_manifest)
  qed
  have members: "?R s (snd (for_each (\<lambda>member a'.
                    case map_of executables p of
                      None \<Rightarrow> (Some (KeyError p), a')
                    | Some names \<Rightarrow> for_each (bento4_match env p a dir member) names a') filelist s))"
    for filelist s
    by (rule for_each_rel [where R = ?R, OF refl trans]) (auto split: option.splits simp: refl names)
  show ?thesis
  proof (cases "read_file zp (fs (snd acc))")
    case (Inl e)
    then show ?thesis by (simp add: bento4_extract_def refl)
  next
    case (Inr data)
    show ?thesis
    proof (cases "zip_filelist env data")
      case (Inl msg)
      then show ?thesis using Inr by (simp add: bento4_extract_def refl)
    next
      case filelist: (Inr filelist)
      show ?thesis
        unfolding bento4_extract_def Inr filelist sum.case
      proof (rule steps_rel [where R = ?R, OF refl trans])
        fix f :: "nat \<times> state \<Rightarrow> exn option \<times> nat \<times> state" and s
        assume "f \<in> set [for_each (\<lambda>member a'.
                    case map_of executables p of
                      None \<Rightarrow> (Some (KeyError p), a')
                    | Some names \<Rightarrow> for_each (bento4_match env p a dir member) names a') filelist,
                  in_state (on_fs (unlink zp))]"
        then consider "f = for_each (\<lambda>member a'.
                    case map_of executables p of
                      None \<Rightarrow> (Some (KeyError p), a')
                    | Some names \<Rightarrow> for_each (bento4_match env p a dir member) names a') filelist"
          | "f = in_state (on_fs (unlink zp))" by auto
        then show "?R s (snd (f s))"
        proof cases
          case 1
          show ?thesis unfolding 1 by (rule members)
        next
          case 2
          show ?thesis unfolding 2 by (simp add: refl)
        qed
      qed
    qed
  qed
qed

lemma bento4_cell_keeps:
  assumes F: "\<And>s f. g (s\<lparr>fs := f\<rparr>) = g s" and M: "\<And>s m. g (s\<lparr>paths_json := m\<rparr>) = g s"
    and P: "\<And>s x. g (s\<lparr>stdout := x\<rparr>) = g s"
    and D: "\<And>url dest s. g (snd (download env url dest s)) = g s"
  shows "g (snd (bento4_cell env p a st)) = g st"
proof -
  have pr: "g (py_print msg s) = g s" "g (print_end msg e s) = g s" for msg e s
    by (simp_all add: py_print_def print_end_def P)
  have X: "g (snd (snd (bento4_extract env p a dir zp acc))) = g (snd acc)" for dir zp acc
    by (rule bento4_extract_keeps [OF F M])
  show ?thesis
    unfolding bento4_cell_def Let_def
    by (auto split: option.splits prod.splits bool.splits simp: pr
        dest!: arg_cong [where f = "\<lambda>x. g (snd x)"] arg_cong [where f = "\<lambda>x. g (snd (snd x))"]
        simp: D X)
qed

lemma bento4_cell_fields:
  "base_path (snd (bento4_cell env p a st)) = base_path st"
  "cwd (snd (bento4_cell env p a st)) = cwd st"
  by (rule bento4_cell_keeps; simp)+

lemma bento4_cell_requests:
  "requests (snd (bento4_cell env p a st)) = requests st @ bento4_urls p a"
proof -
  have X: "requests (snd (snd (bento4_extract env p a dir zp acc))) = requests (snd acc)" for dir zp acc
    by (rule bento4_extract_keeps) simp_all
  show ?thesis
    unfolding bento4_cell_def bento4_urls_def Let_def
    by (auto split: option.splits prod.splits bool.splits
        dest!: arg_cong [where f = "\<lambda>x. requests (snd x)"] arg_cong [where f = "\<lambda>x. requests (snd (snd x))"]
        simp: X)
qed

lemma bento4_cell_no_raise:
  "map_of platform_config p \<noteq> None \<Longrightarrow> fst (bento4_cell env p a st) = None"
  unfolding bento4_cell_def Let_def
  by (auto split: option.splits prod.splits bool.splits)

lemma bento4_cell_manifest:
  "extends_by {(p, a, ''bento4'', b) | b. b \<in> set (expected_binaries ''bento4'' p)}
     (paths_json st) (paths_json (snd (bento4_cell env p a st)))"
proof -
  let ?A = "{(p, a, ''bento4'', b) | b. b \<in> set (expected_binaries ''bento4'' p)}"
  have X: "extends_by ?A (paths_json s) (paths_json s')"
    if "bento4_extract env p a dir zp (n, s) = (e, k, s')" for dir zp n s e k s'
    using bento4_extract_manifest [of p a "(n, s)" env dir zp] that by simp
  show ?thesis
    unfolding bento4_cell_def Let_def
    by (auto split: option.splits prod.splits bool.splits simp: extends_by_refl
        dest!: arg_cong [where f = "\<lambda>x. paths_json (snd x)"] intro: X)
qed

section \<open>The Megatools cells\<close>

lemma megatools_find_keeps:
  assumes F: "\<And>s f. g (s\<lparr>fs := f\<rparr>) = g s" and M: "\<And>s m. g (s\<lparr>paths_json := m\<rparr>) = g s"
  shows "g (snd (snd (megatools_find p a dir exe listing acc))) = g (snd acc)"
proof (induction listing)
  case Nil
  show ?case by simp
next
  case (Cons entry listing)
  obtain root dirs files where entry: "entry = (root, dirs, files)" by (cases entry) auto
  show ?case
  proof (cases "exe \<in> set files")
    case True
    show ?thesis
      unfolding entry megatools_find.simps if_P [OF True]
      by (rule steps_keeps [where g = "\<lambda>x. g (snd x)"])
        (auto simp: in_state_on_fs_keeps [of g, OF F] M)
  next
    case False
    then show ?thesis using Cons.IH by (simp add: entry)
  qed
qed

lemma megatools_find_manifest:
  "extends_by {(p, a, ''megatools'', exe)} (paths_json (snd acc))
     (paths_json (snd (snd (megatools_find p a dir exe listing acc))))"
proof (induction listing)
  case Nil
  show ?case by (simp add: extends_by_refl)
next
  case (Cons entry listing)
  obtain root dirs files where entry: "entry = (root, dirs, files)" by (cases entry) auto
  show ?case
  proof (cases "exe \<in> set files")
    case True
    show ?thesis
      unfolding entry megatools_find.simps if_P [OF True]
      by (rule steps_rel [where R = "\<lambda>s s'. extends_by {(p, a, ''megatools'', exe)} (paths_json (snd s)) (paths_json (snd s'))"])
        (auto intro: extends_by_trans extends_by_add simp: extends_by_refl)
  next
    case False
    then show ?thesis using Cons.IH by (simp add: entry)
  qed
qed

lemma megatools_extract_keeps:
  assumes F: "\<And>s f. g (s\<lparr>fs := f\<rparr>) = g s" and M: "\<And>s m. g (s\<lparr>paths_json := m\<rparr>) = g s"
  shows "g (snd (snd (megatools_extract env p a dir archive ext exe acc))) = g (snd acc)"
  unfolding megatools_extract_def
  by (rule steps_keeps [where g = "\<lambda>x. g (snd x)"])
    (auto simp: in_state_on_fs_keeps [of g, OF F] megatools_find_keeps [of g, OF F M])

lemma megatools_extract_manifest:
  "extends_by {(p, a, ''megatools'', exe)} (paths_json (snd acc))
     (paths_json (snd (snd (megatools_extract env p a dir archive ext exe acc))))"
  unfolding megatools_extract_def
proof (rule steps_rel [where R = "\<lambda>s s'. extends_by {(p, a, ''megatools'', exe)} (paths_json (snd s)) (paths_json (snd s'))"])
  fix f :: "nat \<times> state \<Rightarrow> exn option \<times> nat \<times> state" and s
  assume "f \<in> set [in_state (on_fs (mkdir_exist_ok (dir @ [''temp'']))),
        in_state (on_fs (\<lambda>f. case read_file archive f of
                               Inl e \<Rightarrow> (Some e, f)
                             | Inr data \<Rightarrow> extractall env ext data (dir @ [''temp'']) f)),
        (\<lambda>a'. megatools_find p a dir exe (walk env (dir @ [''temp'']) (fs (snd a'))) a'),
        in_state (on_fs (rmtree (dir @ [''temp'']))),
        in_state (on_fs (unlink archive))]"
  then consider op where "f = in_state (on_fs op)"
    | "f = (\<lambda>a'. megatools_find p a dir exe (walk env (dir @ [''temp'']) (fs (snd a'))) a')"
    by auto
  then show "extends_by {(p, a, ''megatools'', exe)} (paths_json (snd s)) (paths_json (snd (snd (f s))))"
  proof cases
    case 1
    show ?thesis unfolding 1 by (simp add: extends_by_refl)
  next
    case 2
    show ?thesis unfolding 2 by (rule megatools_find_manifest)
  qed
qed (auto intro: extends_by_refl extends_by_trans)

lemma megatools_cell_keeps:
  assumes F: "\<And>s f. g (s\<lparr>fs := f\<rparr>) = g s" and M: "\<And>s m. g (s\<lparr>paths_json := m\<rparr>) = g s"
    and P: "\<And>s x. g (s\<lparr>stdout := x\<rparr>) = g s"
    and D: "\<And>url dest s. g (snd (download env url dest s)) = g s"
  shows "g (snd (megatools_cell env p a st)) = g st"
proof -
  have pr: "g (py_print msg s) = g s" "g (print_end msg e s) = g s" for msg e s
    by (simp_all add: py_print_def print_end_def P)
  have X: "g (snd (snd (megatools_extract env p a dir archive ext exe acc))) = g (snd acc)"
    for dir archive ext exe acc
    by (rule megatools_extract_keeps [OF F M])
  show ?thesis
    unfolding megatools_cell_def Let_def
    by (auto split: option.splits prod.splits bool.splits simp: pr
        dest!: arg_cong [where f = "\<lambda>x. g (snd x)"] arg_cong [where f = "\<lambda>x. g (snd (snd x))"]
        simp: D X)
qed

lemma megatools_cell_fields:
  "base_path (snd (megatools_cell env p a st)) = base_path st"
  "cwd (snd (megatools_cell env p a st)) = cwd st"
  by (rule megatools_cell_keeps; simp)+

lemma megatools_cell_requests:
  "requests (snd (megatools_cell env p a st)) = requests st @ megatools_urls p a"
proof -
  have X: "requests (snd (snd (megatools_extract env p a dir archive ext exe acc))) = requests (snd acc)"
    for dir archive ext exe acc
    by (rule megatools_extract_keeps) simp_all
  show ?thesis
    unfolding megatools_cell_def megatools_urls_def Let_def
    by (auto split: option.splits prod.splits bool.splits
        dest!: arg_cong [where f = "\<lambda>x. requests (snd x)"] arg_cong [where f = "\<lambda>x. requests (snd (snd x))"]
        simp: X)
qed

lemma megatools_cell_no_raise:
  "map_of megatools_config p \<noteq> None \<Longrightarrow> fst (megatools_cell env p a st) = None"
  unfolding megatools_cell_def Let_def
  by (auto split: option.splits prod.splits bool.splits)

lemma megatools_cell_manifest:
  "extends_by {(p, a, ''megatools'', b) | b. b \<in> set (expected_binaries ''megatools'' p)}
     (paths_json st) (paths_json (snd (megatools_cell env p a st)))"
proof -
  let ?A = "{(p, a, ''megatools'', b) | b. b \<in> set (expected_binaries ''megatools'' p)}"
  have X: "extends_by ?A (paths_json s) (paths_json s')"
    if "megatools_extract env p a dir archive ext exe (n, s) = (e, k, s')"
      and "map_of megatools_config p = Some m" and "map_of m a = Some (ps, ext, exe)"
    for dir archive ext exe n s e k s' m ps
  proof -
    have "(a, ps, ext, exe) \<in> set m" using that(3) by (rule map_of_SomeD)
    then have "exe \<in> set (expected_binaries ''megatools'' p)"
      using that(2) by (force simp: expected_binaries_def)
    then have sub: "{(p, a, ''megatools'', exe)} \<subseteq> ?A" by simp
    have "extends_by {(p, a, ''megatools'', exe)} (paths_json s) (paths_json s')"
      using megatools_extract_manifest [of p a exe "(n, s)" env dir archive ext] that(1) by simp
    with sub show ?thesis by (rule extends_by_mono)
  qed
  show ?thesis
    unfolding megatools_cell_def Let_def
    by (auto split: option.splits prod.splits bool.splits simp: extends_by_refl
        dest!: arg_cong [where f = "\<lambda>x. paths_json (snd x)"] intro: X)
qed

section \<open>The loops over the matrix\<close>

lemma in_targets: "(p, arches) \<in> set platforms \<Longrightarrow> a \<in> set arches \<Longrightarrow> (p, a) \<in> set targets"
  unfolding targets_def by force

lemma over_platforms_appends:
  assumes "\<And>p a s. (p, a) \<in> set targets \<Longrightarrow> fst (cell p a s) = None \<and> g (snd (cell p a s)) = g s @ added p a"
  shows "fst (for_each (\<lambda>(p, arches). for_each (\<lambda>arch. cell p arch) arches) platforms s) = None
       \<and> g (snd (for_each (\<lambda>(p, arches). for_each (\<lambda>arch. cell p arch) arches) platforms s))
           = g s @ concat (map (\<lambda>(p, arches). concat (map (added p) arches)) platforms)"
proof (rule for_each_appends)
  fix x :: "string \<times> string list" and s
  assume x: "x \<in> set platforms"
  obtain p arches where px: "x = (p, arches)" by (cases x) auto
  have "fst (for_each (\<lambda>arch. cell p arch) arches s) = None
      \<and> g (snd (for_each (\<lambda>arch. cell p arch) arches s)) = g s @ concat (map (added p) arches)"
    by (rule for_each_appends) (use x px in \<open>auto intro!: assms in_targets\<close>)
  then show "fst ((case x of (p, arches) \<Rightarrow> for_each (\<lambda>arch. cell p arch) arches) s) = None
      \<and> g (snd ((case x of (p, arches) \<Rightarrow> for_each (\<lambda>arch. cell p arch) arches) s))
          = g s @ (case x of (p, arches) \<Rightarrow> concat (map (added p) arches))"
    by (simp add: px)
qed

lemma over_platforms_rel:
  assumes refl: "\<And>s. R s s"
    and trans: "\<And>s1 s2 s3. R s1 s2 \<Longrightarrow> R s2 s3 \<Longrightarrow> R s1 s3"
    and cell: "\<And>p a s. (p, a) \<in> set targets \<Longrightarrow> R s (snd (cell p a s))"
  shows "R s (snd (for_each (\<lambda>(p, arches). for_each (\<lambda>arch. cell p arch) arches) platforms s))"
proof (rule for_each_rel [where R = R, OF refl trans])
  fix x :: "string \<times> string list" and s
  assume x: "x \<in> set platforms"
  obtain p arches where px: "x = (p, arches)" by (cases x) auto
  have "R s (snd (for_each (\<lambda>arch. cell p arch) arches s))"
    by (rule for_each_rel [where R = R, OF refl trans]) (use x px in \<open>auto intro!: cell in_targets\<close>)
  then show "R s (snd ((case x of (p, arches) \<Rightarrow> for_each (\<lambda>arch. cell p arch) arches) s))"
    by (simp add: px)
qed

lemma targets_in_tables:
  assumes "(p, a) \<in> set targets"
  shows "map_of ffmpeg_map p \<noteq> None" "map_of platform_config p \<noteq> None" "map_of megatools_config p \<noteq> None"
  using assms
  by (auto simp: targets_def platforms_def ffmpeg_map_def platform_config_def megatools_config_def)

lemma cell_records_recordable:
  assumes "(p, a) \<in> set targets" and "t \<in> set tools"
  shows "{(p, a, t, b) | b. b \<in> set (expected_binaries t p)} \<subseteq> recordable"
  using assms by (auto simp: recordable_def)

lemma download_ffmpeg_requests:
  "fst (download_ffmpeg env st) = None
   \<and> requests (snd (download_ffmpeg env st)) =
       requests st @ concat (map (\<lambda>(p, arches). concat (map (ffmpeg_urls p) arches)) platforms)"
  unfolding download_ffmpeg_def
  using over_platforms_appends [where cell = "ffmpeg_cell env" and g = requests and added = ffmpeg_urls
      and s = "py_print (CHR 0x0A # ''=== FFmpeg ==='') st"]
  by (simp add: ffmpeg_cell_requests ffmpeg_cell_no_raise targets_in_tables)

lemma download_bento4_requests:
  "fst (download_bento4 env st) = None
   \<and> requests (snd (download_bento4 env st)) =
       requests st @ concat (map (\<lambda>(p, arches). concat (map (bento4_urls p) arches)) platforms)"
  unfolding download_bento4_def
  using over_platforms_appends [where cell = "bento4_cell env" and g = requests and added = bento4_urls
      and s = "py_print (CHR 0x0A # ''=== Bento4 ==='') st"]
  by (simp add: bento4_cell_requests bento4_cell_no_raise targets_in_tables)

lemma download_megatools_requests:
  "fst (download_megatools env st) = None
   \<and> requests (snd (download_megatools env st)) =
       requests st @ concat (map (\<lambda>(p, arches). concat (map (megatools_urls p) arches)) platforms)"
  unfolding download_megatools_def
  using over_platforms_appends [where cell = "megatools_cell env" and g = requests and added = megatools_urls
      and s = "py_print (CHR 0x0A # ''=== Megatools ==='') st"]
  by (simp add: megatools_cell_requests megatools_cell_no_raise targets_in_tables)

lemma download_tools_fields:
  "base_path (snd (download_ffmpeg env st)) = base_path st"
  "cwd (snd (download_ffmpeg env st)) = cwd st"
  "base_path (snd (download_bento4 env st)) = base_path st"
  "cwd (snd (download_bento4 env st)) = cwd st"
  "base_path (snd (download_megatools env st)) = base_path st"
  "cwd (snd (download_megatools env st)) = cwd st"
  unfolding download_ffmpeg_def download_bento4_def download_megatools_def
  using over_platforms_rel [where R = "\<lambda>s s'. base_path s' = base_path s" and cell = "ffmpeg_cell env"]
    over_platforms_rel [where R = "\<lambda>s s'. cwd s' = cwd s" and cell = "ffmpeg_cell env"]
    over_platforms_rel [where R = "\<lambda>s s'. base_path s' = base_path s" and cell = "bento4_cell env"]
    over_platforms_rel [where R = "\<lambda>s s'. cwd s' = cwd s" and cell = "bento4_cell env"]
    over_platforms_rel [where R = "\<lambda>s s'. base_path s' = base_path s" and cell = "megatools_cell env"]
    over_platforms_rel [where R = "\<lambda>s s'. cwd s' = cwd s" and cell = "megatools_cell env"]
  by (simp_all add: ffmpeg_cell_fields bento4_cell_fields megatools_cell_fields)

lemma over_platforms_manifest:
  assumes "\<And>p a s. (p, a) \<in> set targets \<Longrightarrow>
             extends_by recordable (paths_json (s :: state)) (paths_json (snd (cell p a s)))"
  shows "extends_by recordable (paths_json (s :: state))
           (paths_json (snd (for_each (\<lambda>(p, arches). for_each (\<lambda>arch. cell p arch) arches) platforms s)))"
proof (rule over_platforms_rel [where R = "\<lambda>s s'. extends_by recordable (paths_json s) (paths_json s')"])
  show "extends_by recordable (paths_json s) (paths_json s)" for s :: state
    by (rule extends_by_refl)
  show "extends_by recordable (paths_json s1) (paths_json s3)"
    if "extends_by recordable (paths_json s1) (paths_json s2)"
      and "extends_by recordable (paths_json s2) (paths_json s3)" for s1 s2 s3 :: state
    using that by (rule extends_by_trans)
  show "extends_by recordable (paths_json s) (paths_json (snd (cell p a s)))"
    if "(p, a) \<in> set targets" for p a s
    using that by (rule assms)
qed

lemma download_tools_manifest:
  "extends_by recordable (paths_json st) (paths_json (snd (download_ffmpeg env st)))"
  "extends_by recordable (paths_json st) (paths_json (snd (download_bento4 env st)))"
  "extends_by recordable (paths_json st) (paths_json (snd (download_megatools env st)))"
proof -
  have "extends_by recordable (paths_json s)
      (paths_json (snd (for_each (\<lambda>(p, arches). for_each (\<lambda>arch. ffmpeg_cell env p arch) arches) platforms s)))" for s
    by (rule over_platforms_manifest)
      (rule extends_by_mono [OF cell_records_recordable ffmpeg_cell_manifest], simp_all add: tools_def)
  from this [of "py_print (CHR 0x0A # ''=== FFmpeg ==='') st"]
  show "extends_by recordable (paths_json st) (paths_json (snd (download_ffmpeg env st)))"
    by (simp add: download_ffmpeg_def)
  have "extends_by recordable (paths_json s)
      (paths_json (snd (for_each (\<lambda>(p, arches). for_each (\<lambda>arch. bento4_cell env p arch) arches) platforms s)))" for s
    by (rule over_platforms_manifest)
      (rule extends_by_mono [OF cell_records_recordable bento4_cell_manifest], simp_all add: tools_def)
  from this [of "py_print (CHR 0x0A # ''=== Bento4 ==='') st"]
  show "extends_by recordable (paths_json st) (paths_json (snd (download_bento4 env st)))"
    by (simp add: download_bento4_def)
  have "extends_by recordable (paths_json s)
      (paths_json (snd (for_each (\<lambda>(p, arches). for_each (\<lambda>arch. megatools_cell env p arch) arches) platforms s)))" for s
    by (rule over_platforms_manifest)
      (rule extends_by_mono [OF cell_records_recordable megatools_cell_manifest], simp_all add: tools_def)
  from this [of "py_print (CHR 0x0A # ''=== Megatools ==='') st"]
  show "extends_by recordable (paths_json st) (paths_json (snd (download_megatools env st)))"
    by (simp add: download_megatools_def)
qed

lemma ffmpeg_url_list:
  "concat (map (\<lambda>(p, arches). concat (map (ffmpeg_urls p) arches)) platforms) =
     [''https://github.com/eugeneware/ffmpeg-static/releases/download/b6.1.1/ffmpeg-win32-x64.gz'',
      ''https://github.com/eugeneware/ffmpeg-static/releases/download/b6.1.1/ffprobe-win32-x64.gz'',
      ''https://github.com/eugeneware/ffmpeg-static/releases/download/b6.1.1/ffmpeg-darwin-x64.gz'',
      ''https://github.com/eugeneware/ffmpeg-static/releases/download/b6.1.1/ffprobe-darwin-x64.gz'',
      ''https://github.com/eugeneware/ffmpeg-static/releases/download/b6.1.1/ffmpeg-darwin-arm64.gz'',
      ''https://github.com/eugeneware/ffmpeg-static/releases/download/b6.1.1/ffprobe-darwin-arm64.gz'',
      ''https://github.com/eugeneware/ffmpeg-static/releases/download/b6.1.1/ffmpeg-linux-x64.gz'',
      ''https://github.com/eugeneware/ffmpeg-static/releases/download/b6.1.1/ffprobe-linux-x64.gz'',
      ''https://github.com/eugeneware/ffmpeg-static/releases/download/b6.1.1/ffmpeg-linux-arm64.gz'',
      ''https://github.com/eugeneware/ffmpeg-static/releases/download/b6.1.1/ffprobe-linux-arm64.gz'']"
  by (simp add: platforms_def ffmpeg_urls_def ffmpeg_map_def FFMPEG_URL_def)

lemma bento4_url_list:
  "concat (map (\<lambda>(p, arches). concat (map (bento4_urls p) arches)) platforms) =
     [''https://www.bok.net/Bento4/binaries/Bento4-SDK-1-6-0-641.x86_64-microsoft-win32.zip'',
      ''https://www.bok.net/Bento4/binaries/Bento4-SDK-1-6-0-641.universal-apple-macosx.zip'',
      ''https://www.bok.net/Bento4/binaries/Bento4-SDK-1-6-0-641.universal-apple-macosx.zip'',
      ''https://www.bok.net/Bento4/binaries/Bento4-SDK-1-6-0-641.x86_64-unknown-linux.zip'',
      ''https://www.bok.net/Bento4/binaries/Bento4-SDK-1-6-0-641.x86_64-unknown-linux.zip'']"
  by (simp add: platforms_def bento4_urls_def platform_config_def bento4_url_def BENTO4_URL_def
      BENTO4_VERSION_def)

lemma megatools_url_list:
  "concat (map (\<lambda>(p, arches). concat (map (megatools_urls p) arches)) platforms) =
     [''https://megatools.megous.com/builds/builds/megatools-1.11.3.20250401-win64.zip'',
      ''https://megatools.megous.com/builds/builds/megatools-1.11.3.20250401-linux-x86_64.tar.gz'',
      ''https://megatools.megous.com/builds/builds/megatools-1.11.3.20250401-linux-aarch64.tar.gz'',
      ''https://megatools.megous.com/builds/builds/megatools-1.11.3.20250401-linux-x86_64.tar.gz'',
      ''https://megatools.megous.com/builds/builds/megatools-1.11.3.20250401-linux-aarch64.tar.gz'']"
  by (simp add: platforms_def megatools_urls_def megatools_config_def megatools_url_def
      MEGATOOLS_URL_def MEGATOOLS_VERSION_def)

section \<open>The run\<close>

lemma entries_add_path_mono: "set (entries m k) \<subseteq> set (entries (add_path p a t b m) k)"
  by (cases "k = manifest_key p a t") (auto simp: entries_add_path_same entries_add_path_other)

lemma extends_by_entries:
  assumes "extends_by A m m'"
  shows "set (entries m k) \<subseteq> set (entries m' k)"
proof -
  have "set (entries m k) \<subseteq> set (entries (add_paths ops m) k)" for ops
  proof (induction ops rule: rev_induct)
    case Nil
    show ?case by (simp add: add_paths_def)
  next
    case (snoc op ops)
    obtain p a t b where op: "op = (p, a, t, b)" by (cases op) auto
    show ?case unfolding op add_paths_snoc using snoc.IH entries_add_path_mono by blast
  qed
  with assms show ?thesis unfolding extends_by_def by blast
qed

lemma save_paths_json_fields:
  "requests (snd (save_paths_json env st)) = requests st"
  "paths_json (snd (save_paths_json env st)) = paths_json st"
  "base_path (snd (save_paths_json env st)) = base_path st"
  "cwd (snd (save_paths_json env st)) = cwd st"
  unfolding save_paths_json_def
  by (rule steps_keeps; auto)+

lemma run_shape:
  "run env st =
     (case save_paths_json env (after_downloads env st) of
        (None, s) \<Rightarrow> (None, py_print (CHR 0x0A # ''Done!'') s)
      | (Some e, s) \<Rightarrow> (Some e, s))"
proof -
  define s2 where "s2 = py_print (''Base: '' @ show_path (base_path st)) (py_print ''Binary Downloader'' st)"
  obtain s3 where s3: "download_ffmpeg env s2 = (None, s3)"
    using download_ffmpeg_requests [of env s2] by (cases "download_ffmpeg env s2") auto
  obtain s4 where s4: "download_bento4 env s3 = (None, s4)"
    using download_bento4_requests [of env s3] by (cases "download_bento4 env s3") auto
  obtain s5 where s5: "download_megatools env s4 = (None, s5)"
    using download_megatools_requests [of env s4] by (cases "download_megatools env s4") auto
  have a: "after_downloads env st = s5"
    unfolding after_downloads_def s2_def [symmetric] by (simp add: s3 s4 s5)
  have "run env st =
      steps [download_ffmpeg env, download_bento4 env, download_megatools env, save_paths_json env,
             (\<lambda>s. (None, py_print (CHR 0x0A # ''Done!'') s))] s2"
    unfolding s2_def by (simp add: run_def steps_def)
  also have "\<dots> = (case save_paths_json env s5 of
        (None, s) \<Rightarrow> (None, py_print (CHR 0x0A # ''Done!'') s)
      | (Some e, s) \<Rightarrow> (Some e, s))"
    by (simp add: steps_def s3 s4 s5 split: prod.splits option.splits)
  finally show ?thesis unfolding a .
qed

lemma after_downloads_requests:
  "requests (after_downloads env st) =
     requests st @ concat (map (\<lambda>(p, arches). concat (map (ffmpeg_urls p) arches)) platforms)
       @ concat (map (\<lambda>(p, arches). concat (map (bento4_urls p) arches)) platforms)
       @ concat (map (\<lambda>(p, arches). concat (map (megatools_urls p) arches)) platforms)"
  unfolding after_downloads_def
  by (simp add: download_ffmpeg_requests download_bento4_requests download_megatools_requests)

lemma after_downloads_manifest:
  "extends_by recordable (paths_json st) (paths_json (after_downloads env st))"
proof -
  let ?s2 = "py_print (''Base: '' @ show_path (base_path st)) (py_print ''Binary Downloader'' st)"
  have "extends_by recordable (paths_json ?s2) (paths_json (snd (download_ffmpeg env ?s2)))"
    by (rule download_tools_manifest)
  moreover have "extends_by recordable (paths_json (snd (download_ffmpeg env ?s2)))
      (paths_json (snd (download_bento4 env (snd (download_ffmpeg env ?s2)))))"
    by (rule download_tools_manifest)
  moreover have "extends_by recordable (paths_json (snd (download_bento4 env (snd (download_ffmpeg env ?s2)))))
      (paths_json (after_downloads env st))"
    unfolding after_downloads_def by (rule download_tools_manifest)
  ultimately show ?thesis by (auto intro: extends_by_trans)
qed

lemma run_fields:
  "requests (snd (run env st)) = requests (after_downloads env st)"
  "paths_json (snd (run env st)) = paths_json (after_downloads env st)"
  using save_paths_json_fields [of env "after_downloads env st"]
  by (auto simp: run_shape split: prod.splits option.splits)

section \<open>Reading the file system\<close>

lemma lookup_store: "lookup (store p n f) q = (if q = p then Some n else lookup f q)"
  by (simp add: lookup_def store_def update_conv')

lemma lookup_remove: "lookup (remove p f) q = (if q = p then None else lookup f q)"
  by (simp add: lookup_def remove_def delete_conv')

lemma lookup_write_bytes_other: "q \<noteq> p \<Longrightarrow> lookup (write_bytes p d f) q = lookup f q"
  by (simp add: write_bytes_def lookup_store split: option.splits node.splits)

lemma lookup_write_bytes_file:
  "lookup f p = Some (File d m) \<Longrightarrow> lookup (write_bytes p d' f) p = Some (File (d @ d') m)"
  by (simp add: write_bytes_def lookup_store)

lemma lookup_write_chunks_other:
  "q \<noteq> p \<Longrightarrow> lookup (foldl (\<lambda>f chunk. write_bytes p chunk f) f cs) q = lookup f q"
  by (induction cs arbitrary: f) (simp_all add: lookup_write_bytes_other)

lemma lookup_write_chunks_file:
  "lookup f p = Some (File d m) \<Longrightarrow>
   lookup (foldl (\<lambda>f chunk. write_bytes p chunk f) f cs) p = Some (File (d @ concat cs) m)"
  by (induction cs arbitrary: f d) (simp_all add: lookup_write_bytes_file)

lemma open_wb_other: "q \<noteq> p \<Longrightarrow> lookup (snd (open_wb mode0 p f)) q = lookup f q"
  by (simp add: open_wb_def lookup_store split: option.splits node.splits)

lemma open_wb_failed: "fst (open_wb mode0 p f) = Some e \<Longrightarrow> snd (open_wb mode0 p f) = f"
  by (auto simp: open_wb_def split: option.splits node.splits if_splits)

lemma open_wb_opened:
  "fst (open_wb mode0 p f) = None \<Longrightarrow>
   lookup (snd (open_wb mode0 p f)) p =
     Some (File [] (case lookup f p of Some (File d m) \<Rightarrow> m | _ \<Rightarrow> mode0))"
  by (auto simp: open_wb_def lookup_store split: option.splits node.splits if_splits)

section \<open>The fetcher\<close>

lemma write_chunks_other:
  "q \<noteq> p \<Longrightarrow> lookup (snd (for_each (write_chunk env p) cs f)) q = lookup f q"
  by (induction cs arbitrary: f)
     (auto simp: write_chunk_def lookup_write_bytes_other split: option.splits)

lemma write_chunks_ok:
  "fst (for_each (write_chunk env p) cs f) = None \<longleftrightarrow> (\<forall>c \<in> set cs. write_error env p c = None)"
  by (induction cs arbitrary: f) (auto simp: write_chunk_def split: option.splits)

lemma write_chunks_all:
  "\<forall>c \<in> set cs. write_error env p c = None \<Longrightarrow>
   for_each (write_chunk env p) cs f = (None, foldl (\<lambda>f chunk. write_bytes p chunk f) f cs)"
  by (induction cs arbitrary: f) (auto simp: write_chunk_def)

lemma write_chunks_first_error:
  "\<forall>c \<in> set xs. write_error env p c = None \<Longrightarrow> write_error env p c = Some msg \<Longrightarrow>
   fst (for_each (write_chunk env p) (xs @ c # rest) f) = Some (OSError msg)"
  by (induction xs arbitrary: f) (auto simp: write_chunk_def)

lemma download_body_cases:
  "download_body env url dest st =
     (case http_get env (length (requests st)) url of
        Inl msg \<Rightarrow> (Some (RequestException msg), st\<lparr>requests := requests st @ [url]\<rparr>)
      | Inr r \<Rightarrow>
          (case raise_for_status url r of
             Some e \<Rightarrow> (Some e, st\<lparr>requests := requests st @ [url]\<rparr>)
           | None \<Rightarrow>
               (case fst (open_wb (new_file_mode env) dest (fs st)) of
                  Some e \<Rightarrow> (Some e, st\<lparr>requests := requests st @ [url],
                                         fs := snd (open_wb (new_file_mode env) dest (fs st))\<rparr>)
                | None \<Rightarrow>
                    (case close_error env dest of
                       Some msg \<Rightarrow> Some (OSError msg)
                     | None \<Rightarrow>
                         (case fst (for_each (write_chunk env dest) (chunks r)
                                      (snd (open_wb (new_file_mode env) dest (fs st)))) of
                            Some e \<Rightarrow> Some e
                          | None \<Rightarrow> map_option RequestException (stream_error r)),
                     st\<lparr>requests := requests st @ [url],
                        fs := snd (for_each (write_chunk env dest) (chunks r)
                                     (snd (open_wb (new_file_mode env) dest (fs st))))\<rparr>))))"
  by (simp add: download_body_def Let_def steps_def on_fs_def closing_def
      split: sum.splits option.splits prod.splits)

lemma raise_for_status_None:
  "raise_for_status url r = None \<longleftrightarrow> \<not> (400 \<le> status_code r \<and> status_code r < 600)"
  by (auto simp: raise_for_status_def)

lemma download_ok_iff:
  "fst (download env url dest st) \<longleftrightarrow>
     (\<exists>r. http_get env (length (requests st)) url = Inr r
          \<and> \<not> (400 \<le> status_code r \<and> status_code r < 600)
          \<and> fst (open_wb (new_file_mode env) dest (fs st)) = None
          \<and> (\<forall>c \<in> set (chunks r). write_error env dest c = None)
          \<and> stream_error r = None
          \<and> close_error env dest = None)"
proof -
  have "fst (download env url dest st) \<longleftrightarrow>
     (\<exists>r. http_get env (length (requests st)) url = Inr r
          \<and> raise_for_status url r = None
          \<and> fst (open_wb (new_file_mode env) dest (fs st)) = None
          \<and> fst (for_each (write_chunk env dest) (chunks r)
                    (snd (open_wb (new_file_mode env) dest (fs st)))) = None
          \<and> stream_error r = None
          \<and> close_error env dest = None)"
    by (auto simp: download_def download_body_cases split: sum.splits option.splits prod.splits)
  then show ?thesis by (simp only: raise_for_status_None write_chunks_ok)
qed

lemma download_result: "fst (download env url dest st) \<longleftrightarrow> fst (download_body env url dest st) = None"
  by (auto simp: download_def split: prod.splits option.splits)

lemma download_stdout:
  "stdout (snd (download env url dest st)) =
     (case fst (download_body env url dest st) of
        None \<Rightarrow> stdout st
      | Some e \<Rightarrow> stdout st @ [''  X '' @ last (split_on CHR ''/'' url) @ '': '' @ take 50 (str_exn e) @ [CHR 0x0A]])"
proof -
  have "stdout (snd (download_body env url dest st)) = stdout st"
    by (simp add: download_body_cases split: sum.splits option.splits)
  then show ?thesis
    by (auto simp: download_def py_print_def print_end_def split: prod.splits option.splits)
qed

lemma download_rejected_fs:
  assumes "http_get env (length (requests st)) url = Inr r"
    and "400 \<le> status_code r" and "status_code r < 600"
  shows "fs (snd (download env url dest st)) = fs st"
proof -
  from assms(2,3) obtain e where "raise_for_status url r = Some e"
    using raise_for_status_None [of url r] by auto
  then show ?thesis
    by (simp add: download_def download_body_cases assms(1))
qed

lemma download_no_response_fs:
  assumes "http_get env (length (requests st)) url = Inl msg"
  shows "fs (snd (download env url dest st)) = fs st"
  by (simp add: download_def download_body_cases assms)

lemma download_touches_dest_only:
  "q \<noteq> dest \<Longrightarrow> lookup (fs (snd (download env url dest st))) q = lookup (fs st) q"
  by (auto simp: download_def download_body_cases write_chunks_other open_wb_other
      split: sum.splits option.splits prod.splits)

section \<open>The gzip variant\<close>

lemma unlink_file: "lookup f p = Some (File d m) \<Longrightarrow> p \<noteq> [] \<Longrightarrow> unlink p f = (None, remove p f)"
  by (simp add: unlink_def)

lemma unlink_ok: "fst (unlink p f) = None \<Longrightarrow> snd (unlink p f) = remove p f"
  by (auto simp: unlink_def split: option.splits node.splits if_splits)

lemma chmod_file:
  "lookup f p = Some (File d m) \<Longrightarrow> p \<noteq> [] \<Longrightarrow> chmod p mode f = (None, store p (File d mode) f)"
  by (simp add: chmod_def)

lemma open_wb_nonempty: "fst (open_wb mode0 p f) = None \<Longrightarrow> p \<noteq> []"
  by (auto simp: open_wb_def)

lemma read_file_Inr: "read_file p f = Inr d \<longleftrightarrow> p \<noteq> [] \<and> (\<exists>m. lookup f p = Some (File d m))"
  by (auto simp: read_file_def split: option.splits node.splits)

lemma ffmpeg_extract_cases:
  "ffmpeg_extract env p a b gz final st =
     (case read_file gz (fs st) of
        Inl e \<Rightarrow> (Some e, st)
      | Inr data \<Rightarrow>
          (case open_wb (new_file_mode env) final (fs st) of
             (Some e, f1) \<Rightarrow> (Some e, st\<lparr>fs := f1\<rparr>)
           | (None, f1) \<Rightarrow>
               (case snd (gunzip env data) of
                  Some msg \<Rightarrow> (Some (BadGzipFile msg), st\<lparr>fs := write_bytes final (fst (gunzip env data)) f1\<rparr>)
                | None \<Rightarrow>
                    (case unlink gz (write_bytes final (fst (gunzip env data)) f1) of
                       (Some e, f3) \<Rightarrow> (Some e, st\<lparr>fs := f3\<rparr>)
                     | (None, f3) \<Rightarrow>
                         (case (if p \<noteq> ''windows'' then chmod final 493 f3 else (None, f3)) of
                            (Some e, f4) \<Rightarrow> (Some e, st\<lparr>fs := f4\<rparr>)
                          | (None, f4) \<Rightarrow>
                              (None, st\<lparr>fs := f4,
                                        paths_json := add_path p a ''ffmpeg'' b (paths_json st)\<rparr>))))))"
  by (simp add: ffmpeg_extract_def steps_def on_fs_def split: sum.splits prod.splits option.splits)

text \<open>
  When the gzip stream is there, decompresses without error, and the output file can be
  opened, the rest of the block cannot fail: the stream is a file, so it can be deleted, and
  the output is a file, so its permission bits can be set.
\<close>

lemma ffmpeg_extract_result:
  assumes gz: "read_file gz (fs st) = Inr data"
    and op: "fst (open_wb (new_file_mode env) final (fs st)) = None"
    and gu: "snd (gunzip env data) = None"
    and ne: "gz \<noteq> final"
  shows "fst (ffmpeg_extract env p a b gz final st) = None"
    and "lookup (fs (snd (ffmpeg_extract env p a b gz final st))) gz = None"
    and "lookup (fs (snd (ffmpeg_extract env p a b gz final st))) final =
          Some (File (fst (gunzip env data))
                  (if p \<noteq> ''windows'' then 493
                   else (case lookup (fs st) final of Some (File d m) \<Rightarrow> m | _ \<Rightarrow> new_file_mode env)))"
    and "paths_json (snd (ffmpeg_extract env p a b gz final st)) = add_path p a ''ffmpeg'' b (paths_json st)"
proof -
  let ?m = "case lookup (fs st) final of Some (File d m) \<Rightarrow> m | _ \<Rightarrow> new_file_mode env"
  obtain f1 where f1: "open_wb (new_file_mode env) final (fs st) = (None, f1)"
    using op by (cases "open_wb (new_file_mode env) final (fs st)") auto
  have fne: "final \<noteq> []" using op by (rule open_wb_nonempty)
  from gz obtain mg where gne: "gz \<noteq> []" and g0: "lookup (fs st) gz = Some (File data mg)"
    by (auto simp: read_file_Inr)
  have f1_final: "lookup f1 final = Some (File [] ?m)"
    using open_wb_opened [OF op] f1 by simp
  have f1_gz: "lookup f1 gz = Some (File data mg)"
    using open_wb_other [OF ne, of "new_file_mode env" "fs st"] f1 g0 by simp
  let ?f2 = "write_bytes final (fst (gunzip env data)) f1"
  have f2_final: "lookup ?f2 final = Some (File (fst (gunzip env data)) ?m)"
    using lookup_write_bytes_file [OF f1_final] by simp
  have f2_gz: "lookup ?f2 gz = Some (File data mg)"
    using lookup_write_bytes_other [OF ne] f1_gz by simp
  have u: "unlink gz ?f2 = (None, remove gz ?f2)"
    using f2_gz gne by (rule unlink_file)
  let ?f3 = "remove gz ?f2"
  have f3_final: "lookup ?f3 final = Some (File (fst (gunzip env data)) ?m)"
    using f2_final ne by (simp add: lookup_remove)
  have c: "chmod final 493 ?f3 = (None, store final (File (fst (gunzip env data)) 493) ?f3)"
    using f3_final fne by (rule chmod_file)
  have r: "ffmpeg_extract env p a b gz final st =
      (None, st\<lparr>fs := (if p \<noteq> ''windows'' then store final (File (fst (gunzip env data)) 493) ?f3 else ?f3),
                paths_json := add_path p a ''ffmpeg'' b (paths_json st)\<rparr>)"
    unfolding ffmpeg_extract_cases by (simp add: gz f1 gu u c)
  show "fst (ffmpeg_extract env p a b gz final st) = None" by (simp add: r)
  show "lookup (fs (snd (ffmpeg_extract env p a b gz final st))) gz = None"
    using ne by (simp add: r lookup_store lookup_remove)
  show "lookup (fs (snd (ffmpeg_extract env p a b gz final st))) final =
          Some (File (fst (gunzip env data)) (if p \<noteq> ''windows'' then 493 else ?m))"
    using f3_final by (simp add: r lookup_store)
  show "paths_json (snd (ffmpeg_extract env p a b gz final st)) = add_path p a ''ffmpeg'' b (paths_json st)"
    by (simp add: r)
qed

lemma ffmpeg_extract_needs:
  assumes "fst (ffmpeg_extract env p a b gz final st) = None"
  shows "\<exists>data. read_file gz (fs st) = Inr data
          \<and> fst (open_wb (new_file_mode env) final (fs st)) = None
          \<and> snd (gunzip env data) = None"
  using assms unfolding ffmpeg_extract_cases
  by (auto split: sum.splits prod.splits option.splits if_splits)

lemma download_ok_file:
  assumes "fst (download env url dest st)"
  shows "\<exists>r m. http_get env (length (requests st)) url = Inr r
           \<and> lookup (fs (snd (download env url dest st))) dest = Some (File (concat (chunks r)) m)"
proof -
  from assms obtain r where r: "http_get env (length (requests st)) url = Inr r"
    and rs: "raise_for_status url r = None"
    and op: "fst (open_wb (new_file_mode env) dest (fs st)) = None"
    and wr: "\<forall>c \<in> set (chunks r). write_error env dest c = None"
    and se: "stream_error r = None"
    and cl: "close_error env dest = None"
    by (auto simp: download_ok_iff raise_for_status_None)
  have "lookup (foldl (\<lambda>f chunk. write_bytes dest chunk f) (snd (open_wb (new_file_mode env) dest (fs st)))
          (chunks r)) dest
      = Some (File ([] @ concat (chunks r))
          (case lookup (fs st) dest of Some (File d m) \<Rightarrow> m | _ \<Rightarrow> new_file_mode env))"
    by (rule lookup_write_chunks_file) (rule open_wb_opened [OF op])
  then show ?thesis
    by (simp add: download_def download_body_cases r rs op se cl write_chunks_all [OF wr])
qed

lemma open_wb_ok_iff:
  "fst (open_wb mode0 p f) = None \<longleftrightarrow>
     p \<noteq> [] \<and> path_exists f (butlast p) \<and> is_dir f (butlast p) \<and> lookup f p \<noteq> Some Dir"
  by (auto simp: open_wb_def split: option.splits node.splits)

text \<open>
  After a download that succeeded the directory of the destination is still a directory, so
  a sibling of the destination can be opened unless it is a directory itself.
\<close>

lemma sibling_opens_after_download:
  assumes ok: "fst (download env url (dir @ [x]) st)" and ne: "y \<noteq> x"
  shows "fst (open_wb mode0 (dir @ [y]) (fs (snd (download env url (dir @ [x]) st)))) = None
      \<longleftrightarrow> lookup (fs st) (dir @ [y]) \<noteq> Some Dir"
proof -
  let ?f1 = "fs (snd (download env url (dir @ [x]) st))"
  from ok have op: "fst (open_wb (new_file_mode env) (dir @ [x]) (fs st)) = None"
    by (auto simp: download_ok_iff)
  then have d: "path_exists (fs st) dir" "is_dir (fs st) dir"
    by (simp_all add: open_wb_ok_iff)
  have "lookup ?f1 dir = lookup (fs st) dir"
    by (rule download_touches_dest_only) simp
  with d have d1: "path_exists ?f1 dir" "is_dir ?f1 dir"
    by (simp_all add: path_exists_def is_dir_def)
  have "lookup ?f1 (dir @ [y]) = lookup (fs st) (dir @ [y])"
    by (rule download_touches_dest_only) (simp add: ne)
  then show ?thesis using d1 by (simp add: open_wb_ok_iff)
qed

lemma gz_not_final: "(exe @ ''-'' @ ps) @ ''.gz'' \<noteq> exe @ exe_ext p"
  by (simp add: exe_ext_def)

lemma ffmpeg_executable_installed:
  fixes env p a ps n st exe
  defines "gz \<equiv> ffmpeg_gz_path (base_path st) p a ps exe"
    and "final \<equiv> ffmpeg_final_path (base_path st) p a exe"
  defines "D \<equiv> download env (ffmpeg_url ps exe) gz st"
  defines "R \<equiv> ffmpeg_executable env p a ps (n, st) exe"
  shows "fst R = n + 1 \<longleftrightarrow>
           fst D \<and> lookup (fs st) final \<noteq> Some Dir
           \<and> (\<exists>r. http_get env (length (requests st)) (ffmpeg_url ps exe) = Inr r
                  \<and> snd (gunzip env (concat (chunks r))) = None)"
    and "fst R = n + 1 \<Longrightarrow> lookup (fs (snd R)) gz = None"
    and "fst R = n + 1 \<Longrightarrow>
          \<exists>r. http_get env (length (requests st)) (ffmpeg_url ps exe) = Inr r
             \<and> lookup (fs (snd R)) final =
                 Some (File (fst (gunzip env (concat (chunks r))))
                   (if p \<noteq> ''windows'' then 493
                    else (case lookup (fs st) final of Some (File d m) \<Rightarrow> m | _ \<Rightarrow> new_file_mode env)))"
    and "fst R = n + 1 \<Longrightarrow>
          paths_json (snd R) = add_path p a ''ffmpeg'' (exe @ exe_ext p) (paths_json st)"
proof -
  let ?dir = "base_path st @ [p, a, ''ffmpeg'']"
  let ?X = "ffmpeg_extract env p a (exe @ exe_ext p) gz final (snd D)"
  have gz: "gz = ?dir @ [(exe @ ''-'' @ ps) @ ''.gz'']" and final: "final = ?dir @ [exe @ exe_ext p]"
    by (simp_all add: gz_def final_def ffmpeg_gz_path_def ffmpeg_final_path_def)
  have ne: "gz \<noteq> final" unfolding gz final using gz_not_final [of exe ps p] by simp
  have shape: "R = (if fst D then (case fst ?X of None \<Rightarrow> (n + 1, snd ?X)
                      | Some e \<Rightarrow> (n, py_print (''  X extract '' @ exe) (snd ?X)))
                    else (n, snd D))"
    unfolding R_def D_def gz final ffmpeg_url_def
    by (simp add: ffmpeg_executable_shape split: option.splits)
  have counted: "fst R = n + 1 \<longleftrightarrow> fst D \<and> fst ?X = None"
    by (auto simp: shape split: option.splits)
  have fin: "lookup (fs (snd D)) final = lookup (fs st) final"
    unfolding D_def by (rule download_touches_dest_only) (rule ne [symmetric])
  have open_iff: "fst (open_wb (new_file_mode env) final (fs (snd D))) = None
      \<longleftrightarrow> lookup (fs st) final \<noteq> Some Dir" if "fst D"
    using sibling_opens_after_download [of env "ffmpeg_url ps exe" ?dir "(exe @ ''-'' @ ps) @ ''.gz''" st
        "exe @ exe_ext p" "new_file_mode env"] that gz_not_final [of exe ps p]
    unfolding D_def gz final by auto
  have body: "\<exists>r m. http_get env (length (requests st)) (ffmpeg_url ps exe) = Inr r
      \<and> lookup (fs (snd D)) gz = Some (File (concat (chunks r)) m)" if "fst D"
    using download_ok_file [of env "ffmpeg_url ps exe" gz st] that unfolding D_def by simp
  have gne: "gz \<noteq> []" by (simp add: gz)
  show "fst R = n + 1 \<longleftrightarrow>
           fst D \<and> lookup (fs st) final \<noteq> Some Dir
           \<and> (\<exists>r. http_get env (length (requests st)) (ffmpeg_url ps exe) = Inr r
                  \<and> snd (gunzip env (concat (chunks r))) = None)"
  proof (cases "fst D")
    case False
    then show ?thesis using counted by simp
  next
    case True
    from body [OF True] obtain r m where r: "http_get env (length (requests st)) (ffmpeg_url ps exe) = Inr r"
      and g: "lookup (fs (snd D)) gz = Some (File (concat (chunks r)) m)" by blast
    have rd: "read_file gz (fs (snd D)) = Inr (concat (chunks r))"
      using g gne by (simp add: read_file_Inr)
    have "fst ?X = None \<longleftrightarrow>
        fst (open_wb (new_file_mode env) final (fs (snd D))) = None \<and> snd (gunzip env (concat (chunks r))) = None"
      using ffmpeg_extract_needs [of env p a "exe @ exe_ext p" gz final "snd D"]
        ffmpeg_extract_result(1) [OF rd _ _ ne, of env p a "exe @ exe_ext p"] rd
      by auto
    then show ?thesis using True r counted open_iff by auto
  qed
  assume c: "fst R = n + 1"
  then have D: "fst D" and X: "fst ?X = None" using counted by simp_all
  from body [OF D] obtain r m where r: "http_get env (length (requests st)) (ffmpeg_url ps exe) = Inr r"
    and g: "lookup (fs (snd D)) gz = Some (File (concat (chunks r)) m)" by blast
  have rd: "read_file gz (fs (snd D)) = Inr (concat (chunks r))"
    using g gne by (simp add: read_file_Inr)
  from ffmpeg_extract_needs [OF X] rd
  have op: "fst (open_wb (new_file_mode env) final (fs (snd D))) = None"
    and gu: "snd (gunzip env (concat (chunks r))) = None" by auto
  have R: "snd R = snd ?X" using D X by (simp add: shape)
  show "lookup (fs (snd R)) gz = None"
    unfolding R by (rule ffmpeg_extract_result(2) [OF rd op gu ne])
  show "\<exists>r. http_get env (length (requests st)) (ffmpeg_url ps exe) = Inr r
             \<and> lookup (fs (snd R)) final =
                 Some (File (fst (gunzip env (concat (chunks r))))
                   (if p \<noteq> ''windows'' then 493
                    else (case lookup (fs st) final of Some (File d m) \<Rightarrow> m | _ \<Rightarrow> new_file_mode env)))"
    using ffmpeg_extract_result(3) [OF rd op gu ne, of p a "exe @ exe_ext p"] r
    unfolding R fin by blast
  show "paths_json (snd R) = add_path p a ''ffmpeg'' (exe @ exe_ext p) (paths_json st)"
    unfolding R using ffmpeg_extract_result(4) [OF rd op gu ne, of p a "exe @ exe_ext p"]
    by (simp add: D_def)
qed

section \<open>The layout\<close>

lemma mkdirs_change:
  "lookup (snd (mkdirs pre cs f)) q = lookup f q
   \<or> (lookup f q = None \<and> lookup (snd (mkdirs pre cs f)) q = Some Dir
      \<and> (\<exists>k. 0 < k \<and> k \<le> length cs \<and> q = pre @ take k cs))"
proof (induction cs arbitrary: pre f)
  case Nil
  show ?case by simp
next
  case (Cons c cs)
  have step: "\<exists>k. 0 < k \<and> k \<le> length (c # cs) \<and> q = pre @ take k (c # cs)"
    if "\<exists>k. 0 < k \<and> k \<le> length cs \<and> q = (pre @ [c]) @ take k cs"
  proof -
    from that obtain k where "0 < k" "k \<le> length cs" "q = (pre @ [c]) @ take k cs" by blast
    then have "0 < Suc k \<and> Suc k \<le> length (c # cs) \<and> q = pre @ take (Suc k) (c # cs)" by simp
    then show ?thesis by blast
  qed
  have here: "\<exists>k. 0 < k \<and> k \<le> length (c # cs) \<and> pre @ [c] = pre @ take k (c # cs)"
    by (rule exI [of _ 1]) simp
  show ?case
  proof (cases "lookup f (pre @ [c])")
    case None
    from Cons.IH [of "pre @ [c]" "store (pre @ [c]) Dir f"] show ?thesis
      using None step here by (auto simp: lookup_store split: if_splits)
  next
    case (Some n)
    show ?thesis
    proof (cases n)
      case Dir
      from Cons.IH [of "pre @ [c]" f] show ?thesis using Some Dir step by auto
    next
      case (File d m)
      then show ?thesis using Some by simp
    qed
  qed
qed

lemma mkdirs_keeps_dir: "lookup f q = Some Dir \<Longrightarrow> lookup (snd (mkdirs pre cs f)) q = Some Dir"
  using mkdirs_change [of pre cs f q] by auto

lemma mkdirs_made:
  "fst (mkdirs pre cs f) = None \<Longrightarrow> 0 < k \<Longrightarrow> k \<le> length cs \<Longrightarrow>
   lookup (snd (mkdirs pre cs f)) (pre @ take k cs) = Some Dir"
proof (induction cs arbitrary: pre f k)
  case Nil
  then show ?case by simp
next
  case (Cons c cs)
  obtain j where k: "k = Suc j" using Cons.prems(2) by (cases k) auto
  have rest: "lookup (snd (mkdirs (pre @ [c]) cs g)) (pre @ take k (c # cs)) = Some Dir"
    if ok: "fst (mkdirs (pre @ [c]) cs g) = None" and here: "lookup g (pre @ [c]) = Some Dir" for g
  proof (cases j)
    case 0
    then show ?thesis using mkdirs_keeps_dir [OF here] by (simp add: k)
  next
    case (Suc i)
    then have "0 < j" "j \<le> length cs" using Cons.prems(3) k by simp_all
    from Cons.IH [OF ok this] show ?thesis by (simp add: k)
  qed
  show ?case
  proof (cases "lookup f (pre @ [c])")
    case None
    then show ?thesis
      using Cons.prems(1) rest [of "store (pre @ [c]) Dir f"] by (simp add: lookup_store)
  next
    case (Some n)
    then show ?thesis using Cons.prems(1) rest [of f] by (cases n) simp_all
  qed
qed

lemma mkdirs_there:
  "(\<And>k. 0 < k \<Longrightarrow> k \<le> length cs \<Longrightarrow> lookup f (pre @ take k cs) = Some Dir) \<Longrightarrow>
   mkdirs pre cs f = (None, f)"
proof (induction cs arbitrary: pre)
  case Nil
  show ?case by simp
next
  case (Cons c cs)
  have here: "lookup f (pre @ [c]) = Some Dir" using Cons.prems [of 1] by simp
  have "mkdirs (pre @ [c]) cs f = (None, f)"
  proof (rule Cons.IH)
    fix k
    assume "0 < k" "k \<le> length cs"
    then show "lookup f ((pre @ [c]) @ take k cs) = Some Dir"
      using Cons.prems [of "Suc k"] by simp
  qed
  then show ?case by (simp add: here)
qed

text \<open>A sequence of \<^verbatim>\<open>mkdir(parents=True, exist_ok=True)\<close> calls.\<close>

lemma mkdir_all_change:
  "lookup (snd (for_each mkdir_parents ds f)) q = lookup f q
   \<or> (lookup f q = None \<and> lookup (snd (for_each mkdir_parents ds f)) q = Some Dir
      \<and> (\<exists>d \<in> set ds. q \<noteq> [] \<and> lies_under q d))"
proof (induction ds arbitrary: f)
  case Nil
  show ?case by simp
next
  case (Cons d ds)
  obtain e g where m: "mkdir_parents d f = (e, g)" by (cases "mkdir_parents d f") auto
  have one: "lookup g q = lookup f q
      \<or> (lookup f q = None \<and> lookup g q = Some Dir \<and> q \<noteq> [] \<and> lies_under q d)"
    using mkdirs_change [of "[]" d f q] m by (auto simp: mkdir_parents_def lies_under_def)
  show ?case
  proof (cases e)
    case (Some x)
    then show ?thesis using m one by auto
  next
    case None
    from Cons.IH [of g] show ?thesis using m None one by auto
  qed
qed

lemma mkdir_all_keeps_dir:
  "lookup f q = Some Dir \<Longrightarrow> lookup (snd (for_each mkdir_parents ds f)) q = Some Dir"
  using mkdir_all_change [of ds f q] by auto

lemma mkdir_all_made:
  "fst (for_each mkdir_parents ds f) = None \<Longrightarrow> d \<in> set ds \<Longrightarrow> 0 < k \<Longrightarrow> k \<le> length d \<Longrightarrow>
   lookup (snd (for_each mkdir_parents ds f)) (take k d) = Some Dir"
proof (induction ds arbitrary: f)
  case Nil
  then show ?case by simp
next
  case (Cons c ds)
  obtain g where m: "mkdir_parents c f = (None, g)"
    using Cons.prems(1) by (cases "mkdir_parents c f") (auto split: option.splits)
  then have rest: "fst (for_each mkdir_parents ds g) = None" using Cons.prems(1) by simp
  show ?case
  proof (cases "d = c")
    case True
    have "lookup g (take k d) = Some Dir"
      using mkdirs_made [of "[]" c f k] m Cons.prems(3,4) True by (simp add: mkdir_parents_def)
    then show ?thesis using m by (simp add: mkdir_all_keeps_dir)
  next
    case False
    then have "d \<in> set ds" using Cons.prems(2) by simp
    from Cons.IH [OF rest this Cons.prems(3,4)] show ?thesis using m by simp
  qed
qed

lemma mkdir_all_there:
  "(\<And>d k. d \<in> set ds \<Longrightarrow> 0 < k \<Longrightarrow> k \<le> length d \<Longrightarrow> lookup f (take k d) = Some Dir) \<Longrightarrow>
   for_each mkdir_parents ds f = (None, f)"
proof (induction ds)
  case Nil
  show ?case by simp
next
  case (Cons c ds)
  have "mkdir_parents c f = (None, f)"
    unfolding mkdir_parents_def by (rule mkdirs_there) (simp add: Cons.prems)
  moreover have "for_each mkdir_parents ds f = (None, f)"
    by (rule Cons.IH) (simp add: Cons.prems)
  ultimately show ?case by simp
qed

lemma mkdir_all_idem:
  assumes "fst (for_each mkdir_parents ds f) = None"
  shows "for_each mkdir_parents ds (snd (for_each mkdir_parents ds f)) = (None, snd (for_each mkdir_parents ds f))"
  by (rule mkdir_all_there) (rule mkdir_all_made [OF assms])

lemma store_distinct: "distinct (map fst f) \<Longrightarrow> distinct (map fst (store p n f))"
  by (simp add: store_def distinct_update)

lemma mkdirs_distinct: "distinct (map fst f) \<Longrightarrow> distinct (map fst (snd (mkdirs pre cs f)))"
  by (induction cs arbitrary: pre f) (auto simp: store_distinct split: option.splits node.splits)

lemma mkdir_all_distinct:
  "distinct (map fst f) \<Longrightarrow> distinct (map fst (snd (for_each mkdir_parents ds f)))"
proof (induction ds arbitrary: f)
  case Nil
  then show ?case by simp
next
  case (Cons d ds)
  obtain e g where m: "mkdir_parents d f = (e, g)" by (cases "mkdir_parents d f") auto
  then have "distinct (map fst g)"
    using mkdirs_distinct [OF Cons.prems, of "[]" d] by (simp add: mkdir_parents_def)
  then show ?case using m Cons.IH [of g] by (cases e) simp_all
qed

lemma for_each_on_fs:
  "for_each (\<lambda>x. on_fs (op x)) xs st =
     (fst (for_each op xs (fs st)), st\<lparr>fs := snd (for_each op xs (fs st))\<rparr>)"
proof (induction xs arbitrary: st)
  case Nil
  show ?case by simp
next
  case (Cons x xs)
  obtain e g where m: "op x (fs st) = (e, g)" by (cases "op x (fs st)") auto
  then have o: "on_fs (op x) st = (e, st\<lparr>fs := g\<rparr>)" by (simp add: on_fs_def)
  show ?case by (cases e) (simp_all add: o m Cons.IH)
qed

lemma create_directories_flat:
  "create_directories st =
     (fst (for_each mkdir_parents (layout_dirs (base_path st)) (fs st)),
      st\<lparr>fs := snd (for_each mkdir_parents (layout_dirs (base_path st)) (fs st))\<rparr>)"
proof -
  have "create_directories st = for_each (\<lambda>d. on_fs (mkdir_parents d)) (layout_dirs (base_path st)) st"
    by (simp add: create_directories_def layout_dirs_def targets_def platforms_def steps_def
        split: prod.splits option.splits)
  then show ?thesis by (simp only: for_each_on_fs)
qed

lemma mkdirs_error:
  "fst (mkdirs pre cs f) = Some e \<Longrightarrow>
   \<exists>k c m. 0 < k \<and> k \<le> length cs \<and> lookup f (pre @ take k cs) = Some (File c m)"
proof (induction cs arbitrary: pre f)
  case Nil
  then show ?case by simp
next
  case (Cons x cs)
  have up: "\<exists>k c m. 0 < k \<and> k \<le> length (x # cs) \<and> lookup f (pre @ take k (x # cs)) = Some (File c m)"
    if "\<exists>k c m. 0 < k \<and> k \<le> length cs \<and> lookup f ((pre @ [x]) @ take k cs) = Some (File c m)"
  proof -
    from that obtain k c m where "0 < k" "k \<le> length cs" "lookup f ((pre @ [x]) @ take k cs) = Some (File c m)"
      by blast
    then have "0 < Suc k \<and> Suc k \<le> length (x # cs) \<and> lookup f (pre @ take (Suc k) (x # cs)) = Some (File c m)"
      by simp
    then show ?thesis by blast
  qed
  show ?case
  proof (cases "lookup f (pre @ [x])")
    case None
    with Cons.prems have "fst (mkdirs (pre @ [x]) cs (store (pre @ [x]) Dir f)) = Some e" by simp
    from Cons.IH [OF this] obtain k c m where k: "0 < k" "k \<le> length cs"
      and l: "lookup (store (pre @ [x]) Dir f) ((pre @ [x]) @ take k cs) = Some (File c m)" by blast
    from l have "lookup f ((pre @ [x]) @ take k cs) = Some (File c m)"
      by (simp add: lookup_store split: if_splits)
    with k show ?thesis by (intro up) blast
  next
    case (Some n)
    show ?thesis
    proof (cases n)
      case Dir
      with Some Cons.prems have "fst (mkdirs (pre @ [x]) cs f) = Some e" by simp
      from Cons.IH [OF this] show ?thesis by (rule up)
    next
      case (File c m)
      then have "0 < (1::nat) \<and> 1 \<le> length (x # cs) \<and> lookup f (pre @ take 1 (x # cs)) = Some (File c m)"
        using Some by simp
      then show ?thesis by blast
    qed
  qed
qed

lemma mkdir_all_error:
  "fst (for_each mkdir_parents ds f) = Some e \<Longrightarrow>
   \<exists>d \<in> set ds. \<exists>k c m. 0 < k \<and> k \<le> length d \<and> lookup f (take k d) = Some (File c m)"
proof (induction ds arbitrary: f)
  case Nil
  then show ?case by simp
next
  case (Cons d ds)
  obtain e' g where m: "mkdir_parents d f = (e', g)" by (cases "mkdir_parents d f") auto
  show ?case
  proof (cases e')
    case (Some x)
    then have "fst (mkdirs [] d f) = Some x" using m by (simp add: mkdir_parents_def)
    from mkdirs_error [OF this] show ?thesis by auto
  next
    case None
    then have "fst (for_each mkdir_parents ds g) = Some e" using Cons.prems m by simp
    from Cons.IH [OF this] obtain d' k c mo where d': "d' \<in> set ds" "0 < k" "k \<le> length d'"
      and l: "lookup g (take k d') = Some (File c mo)" by blast
    have "lookup g (take k d') = lookup f (take k d')"
      using mkdirs_change [of "[]" d f "take k d'"] m l by (auto simp: mkdir_parents_def)
    with l have "lookup f (take k d') = Some (File c mo)" by simp
    moreover have "d' \<in> set (d # ds)" using d'(1) by simp
    ultimately show ?thesis using d'(2,3) by blast
  qed
qed

lemma in_layout_dirs:
  "d \<in> set (layout_dirs base) \<longleftrightarrow> (\<exists>(p, a) \<in> set targets. \<exists>t \<in> set tools. d = base @ [p, a, t])"
  by (auto simp: layout_dirs_def tools_def)

lemma init_requests: "requests (snd (init cwd0 base f0)) = []"
  by (simp add: init_def create_directories_flat)

section \<open>The schema of the manifest\<close>

lemma set_update_subset: "set (AList.update k v al) \<subseteq> insert (k, v) (set al)"
  by (induction al) auto

lemma matrix_no_underscore:
  "(p, a) \<in> set targets \<Longrightarrow> CHR ''_'' \<notin> set p \<and> CHR ''_'' \<notin> set a"
  "t \<in> set tools \<Longrightarrow> CHR ''_'' \<notin> set t"
  by (auto simp: targets_def platforms_def tools_def)

lemma valid_entry_add_path:
  assumes rec: "(p, a, t, b) \<in> recordable" and val: "\<forall>kv \<in> set m. valid_entry kv"
  shows "\<forall>kv \<in> set (add_path p a t b m). valid_entry kv"
proof -
  from rec have pa: "(p, a) \<in> set targets" and t: "t \<in> set tools"
    and b: "b \<in> set (expected_binaries t p)" by (auto simp: recordable_def)
  let ?k = "manifest_key p a t"
  have here: "valid_entry (?k, l)" if "\<forall>x \<in> set l. \<exists>b \<in> set (expected_binaries t p). x = rel_path_of p a t b" for l
    unfolding valid_entry_def by (rule bexI [OF _ pa]) (use t that in auto)
  have old: "\<forall>x \<in> set (entries m ?k). \<exists>b \<in> set (expected_binaries t p). x = rel_path_of p a t b"
  proof (cases "map_of m ?k")
    case None
    then show ?thesis by (simp add: entries_def)
  next
    case (Some l)
    then have "(?k, l) \<in> set m" by (rule map_of_SomeD)
    with val have "valid_entry (?k, l)" by blast
    then obtain p' a' t' where pa': "(p', a') \<in> set targets" and t': "t' \<in> set tools"
      and k: "?k = manifest_key p' a' t'"
      and l: "\<forall>x \<in> set l. \<exists>b \<in> set (expected_binaries t' p'). x = rel_path_of p' a' t' b"
      unfolding valid_entry_def by auto
    from manifest_key_inj [OF _ _ _ k] matrix_no_underscore(1) [OF pa] matrix_no_underscore(2) [OF t]
    have "p = p' \<and> a = a' \<and> t = t'" by blast
    with l Some show ?thesis by (simp add: entries_def)
  qed
  let ?pj = "if ?k \<notin> fst ` set m then AList.update ?k [] m else m"
  have pj: "\<forall>kv \<in> set ?pj. valid_entry kv"
    using set_update_subset [of ?k "[]" m] val here [of "[]"] by auto
  have epj: "entries ?pj ?k = entries m ?k"
    by (auto simp: entries_def map_of_update_same map_of_None_iff [symmetric] split: option.splits)
  have new: "valid_entry (?k, entries ?pj ?k @ [rel_path_of p a t b])"
    unfolding epj by (rule here) (use old b in auto)
  show ?thesis
    unfolding add_path_def Let_def
    using set_update_subset [of ?k "entries ?pj ?k @ [rel_path_of p a t b]" ?pj] pj new
    by (auto split: if_splits)
qed

lemma valid_entry_extends:
  assumes "extends_by recordable m m'" and "\<forall>kv \<in> set m. valid_entry kv"
  shows "\<forall>kv \<in> set m'. valid_entry kv"
proof -
  have "set ops \<subseteq> recordable \<Longrightarrow> \<forall>kv \<in> set (add_paths ops m). valid_entry kv" for ops
  proof (induction ops rule: rev_induct)
    case Nil
    show ?case using assms(2) by (simp add: add_paths_def)
  next
    case (snoc op ops)
    obtain p a t b where op: "op = (p, a, t, b)" by (cases op) auto
    show ?case unfolding op add_paths_snoc
      by (rule valid_entry_add_path) (use snoc op in auto)
  qed
  with assms(1) show ?thesis unfolding extends_by_def by blast
qed

lemma create_directories_manifest: "paths_json (snd (create_directories st)) = paths_json st"
  by (simp add: create_directories_flat)

lemma main_manifest:
  "extends_by recordable [] (paths_json (snd (main env cwd0 f0)))"
proof (cases "init cwd0 (cwd0 @ [''binaries'']) f0")
  case (Pair e s)
  have s: "paths_json s = []"
    using create_directories_manifest [of "\<lparr>cwd = cwd0, base_path = cwd0 @ [''binaries''], paths_json = [],
        fs = f0, stdout = [], requests = []\<rparr>"] Pair by (simp add: init_def)
  show ?thesis
  proof (cases e)
    case None
    have "extends_by recordable (paths_json s) (paths_json (snd (run env s)))"
      unfolding run_fields by (rule after_downloads_manifest)
    then show ?thesis using Pair None s by (simp add: main_def and_then_def)
  next
    case (Some x)
    then show ?thesis using Pair s by (simp add: main_def and_then_def extends_by_refl)
  qed
qed

text \<open>What \<^verbatim>\<open>save_paths_json\<close> writes when it does not raise.\<close>

lemma save_paths_json_file:
  assumes "fst (save_paths_json env st) = None"
  shows "\<exists>m. lookup (fs (snd (save_paths_json env st))) (cwd st @ [''binary_paths.json''])
           = Some (File (json_dump (paths_json st)) m)"
proof -
  let ?p = "cwd st @ [''binary_paths.json'']"
  let ?o = "open_wb (new_file_mode env) ?p (fs st)"
  have r: "save_paths_json env st =
      (case fst ?o of
         Some e \<Rightarrow> (Some e, st\<lparr>fs := snd ?o\<rparr>)
       | None \<Rightarrow> (None, py_print (CHR 0x0A # ''Paths: '' @ show_path ?p)
                     (st\<lparr>fs := write_bytes ?p (json_dump (paths_json st)) (snd ?o)\<rparr>)))"
    by (simp add: save_paths_json_def steps_def on_fs_def split: prod.splits option.splits)
  from assms have ok: "fst ?o = None" by (simp add: r split: option.splits)
  from lookup_write_bytes_file [OF open_wb_opened [OF ok], of "json_dump (paths_json st)"]
  show ?thesis by (simp add: r ok)
qed

lemma ffmpeg_executable_count:
  "fst (ffmpeg_executable env p a ps acc exe) = fst acc
   \<or> fst (ffmpeg_executable env p a ps acc exe) = fst acc + 1"
  unfolding ffmpeg_executable_shape by (simp split: option.splits)

lemma show_nat_small: "show_nat 0 = ''0''" "show_nat 1 = ''1''" "show_nat 2 = ''2''"
  by (simp_all add: show_nat.simps)

section \<open>The claims\<close>

text \<open>
  C1. The zip variant on an archive with two members whose names end with \<^verbatim>\<open>mp4dump\<close>, next to
  one member for each of the other three expected names, downloaded for (linux, x64). The
  loops of \<^verbatim>\<open>download_bento4\<close> install every member whose name ends with an expected name: the
  cell reports \<^verbatim>\<open>5/4\<close>, more than the four expected names, and the file installed as
  \<^verbatim>\<open>mp4dump\<close> holds the bytes of the second such member, not of the first. The manifest lists
  each of the four paths once. On an archive with one member for each of three expected names
  the cell reports \<^verbatim>\<open>3/4\<close> and the manifest lists exactly those three paths.
\<close>

theorem zip_variant_counts_every_match:
  "(let r = snd (bento4_cell (archive_env duplicate_archive) ''linux'' ''x64'' bento4_state)
    in (last (stdout r), lookup (fs r) [''b'', ''linux'', ''x64'', ''bento4'', ''mp4dump''], paths_json r))
     = (''5/4'' @ [CHR 0x0A], Some (File ''second'' 493),
        [(''linux_x64_bento4'',
          [''linux/x64/bento4/mp4decrypt'', ''linux/x64/bento4/mp4encrypt'',
           ''linux/x64/bento4/mp4info'', ''linux/x64/bento4/mp4dump''])])
   \<and> (let r = snd (bento4_cell (archive_env partial_archive) ''linux'' ''x64'' bento4_state)
      in (last (stdout r), paths_json r))
     = (''3/4'' @ [CHR 0x0A],
        [(''linux_x64_bento4'',
          [''linux/x64/bento4/mp4decrypt'', ''linux/x64/bento4/mp4info'', ''linux/x64/bento4/mp4dump''])])"
  by code_simp

text \<open>
  C2. Recording is idempotent by relative path. For every platform, architecture, tool and
  path, a second \<^verbatim>\<open>_add_path\<close> with the same arguments leaves any manifest as the first call
  left it; after the two calls the list at the key \<^verbatim>\<open>{platform}_{architecture}_{tool}\<close> of a
  manifest built by \<^verbatim>\<open>_add_path\<close> calls holds the path exactly once; and on the empty manifest
  the two calls give that key with a list of length one.
\<close>

theorem record_idempotent:
  "add_path p a t b (add_path p a t b m) = add_path p a t b m
   \<and> count_list (entries (add_path p a t b (add_path p a t b (add_paths ops []))) (manifest_key p a t))
        (rel_path_of p a t b) = 1
   \<and> add_path p a t b (add_path p a t b []) = [(manifest_key p a t, [rel_path_of p a t b])]"
proof (intro conjI)
  show "add_path p a t b (add_path p a t b m) = add_path p a t b m"
    by (rule add_path_idem)
  have d: "distinct (entries (add_path p a t b (add_paths ops [])) (manifest_key p a t))"
    using add_paths_distinct [of "ops @ [(p, a, t, b)]"] by (simp add: add_paths_snoc)
  have i: "rel_path_of p a t b \<in> set (entries (add_path p a t b (add_paths ops [])) (manifest_key p a t))"
    by (simp add: entries_add_path_same)
  show "count_list (entries (add_path p a t b (add_path p a t b (add_paths ops []))) (manifest_key p a t))
        (rel_path_of p a t b) = 1"
    unfolding add_path_idem using d i by (rule count_list_distinct)
  have "add_path p a t b [] = [(manifest_key p a t, [rel_path_of p a t b])]"
    by (simp add: add_path_def Let_def entries_def)
  then show "add_path p a t b (add_path p a t b []) = [(manifest_key p a t, [rel_path_of p a t b])]"
    unfolding add_path_idem .
qed

text \<open>
  C8, as the claim states it, fails: \<^verbatim>\<open>_add_path("a_b", "c", "d", "x")\<close> stores the path
  \<^verbatim>\<open>a_b/c/d/x\<close> under the key \<^verbatim>\<open>a_b_c_d\<close>, which is also the key of platform \<^verbatim>\<open>a\<close>, architecture
  \<^verbatim>\<open>b_c\<close> and tool \<^verbatim>\<open>d\<close>, and the path does not begin with \<^verbatim>\<open>a/b_c/d/\<close>.
\<close>

theorem key_path_mismatch_with_underscore:
  "''a_b/c/d/x'' \<in> set (entries (add_paths [(''a_b'', ''c'', ''d'', ''x'')] []) (manifest_key ''a'' ''b_c'' ''d''))
   \<and> \<not> startswith ''a_b/c/d/x'' (rel_path_of ''a'' ''b_c'' ''d'' [])"
  by (simp add: add_paths_def add_path_def Let_def entries_def manifest_key_def rel_path_of_def
      startswith_def)

text \<open>
  C8, amended. After any sequence of \<^verbatim>\<open>_add_path\<close> calls on a fresh manifest, for every platform,
  architecture and tool that contain no underscore (as all those of the script do), every path
  in the list at the key \<^verbatim>\<open>{platform}_{architecture}_{tool}\<close> is
  \<^verbatim>\<open>{platform}/{architecture}/{tool}/{binary}\<close> for some binary, so it begins with
  \<^verbatim>\<open>{platform}/{architecture}/{tool}/\<close>.
\<close>

theorem key_path_consistent:
  assumes "CHR ''_'' \<notin> set p" and "CHR ''_'' \<notin> set a" and "CHR ''_'' \<notin> set t"
    and "x \<in> set (entries (add_paths ops []) (manifest_key p a t))"
  shows "(\<exists>b. x = rel_path_of p a t b) \<and> startswith x (rel_path_of p a t [])"
proof -
  from built_paths_add_paths [of ops] assms(4)
  obtain p' a' t' b where k: "manifest_key p a t = manifest_key p' a' t'" and x: "x = rel_path_of p' a' t' b"
    unfolding built_paths_def by blast
  from manifest_key_inj [OF assms(1-3) k] x have xb: "x = rel_path_of p a t b" by simp
  have "startswith (rel_path_of p a t [] @ b) (rel_path_of p a t [])"
    by (rule startswith_append)
  then have "startswith x (rel_path_of p a t [])" by (simp add: xb rel_path_of_def)
  with xb show ?thesis by blast
qed

theorem key_path_consistent_witness:
  "CHR ''_'' \<notin> set ''linux'' \<and> CHR ''_'' \<notin> set ''x64'' \<and> CHR ''_'' \<notin> set ''ffmpeg''
   \<and> ''linux/x64/ffmpeg/ffprobe'' \<in> set (entries (add_paths [(''linux'', ''x64'', ''ffmpeg'', ''ffmpeg''),
        (''linux'', ''x64'', ''ffmpeg'', ''ffprobe'')] []) (manifest_key ''linux'' ''x64'' ''ffmpeg''))
   \<and> (\<exists>b. ''linux/x64/ffmpeg/ffprobe'' = rel_path_of ''linux'' ''x64'' ''ffmpeg'' b)
   \<and> startswith ''linux/x64/ffmpeg/ffprobe'' (rel_path_of ''linux'' ''x64'' ''ffmpeg'' [])"
proof -
  have h1: "CHR ''_'' \<notin> set ''linux''" and h2: "CHR ''_'' \<notin> set ''x64''" and h3: "CHR ''_'' \<notin> set ''ffmpeg''"
    by simp_all
  have h4: "''linux/x64/ffmpeg/ffprobe'' \<in> set (entries (add_paths [(''linux'', ''x64'', ''ffmpeg'', ''ffmpeg''),
        (''linux'', ''x64'', ''ffmpeg'', ''ffprobe'')] []) (manifest_key ''linux'' ''x64'' ''ffmpeg''))"
    by (simp add: add_paths_def add_path_def Let_def entries_def manifest_key_def rel_path_of_def)
  from key_path_consistent [OF h1 h2 h3 h4] h1 h2 h3 h4 show ?thesis by blast
qed

text \<open>
  C10. Some targets resolve to artifacts that are not native. The Bento4 cells of
  (linux, x64) and (linux, arm64) request the same URL, that of the
  \<^verbatim>\<open>x86_64-unknown-linux\<close> archive. The Megatools cells of (darwin, x64) and (darwin, arm64)
  request the \<^verbatim>\<open>linux-x86_64\<close> and \<^verbatim>\<open>linux-aarch64\<close> builds, and the five requests of
  \<^verbatim>\<open>download_megatools\<close>, whatever the environment answers, are one Windows build and four
  Linux builds: no darwin build is ever requested.
\<close>

theorem non_native_artifacts:
  "requests (snd (bento4_cell env ''linux'' ''x64'' st)) =
     requests st @ [''https://www.bok.net/Bento4/binaries/Bento4-SDK-1-6-0-641.x86_64-unknown-linux.zip'']
   \<and> requests (snd (bento4_cell env ''linux'' ''arm64'' st)) =
     requests st @ [''https://www.bok.net/Bento4/binaries/Bento4-SDK-1-6-0-641.x86_64-unknown-linux.zip'']
   \<and> requests (snd (megatools_cell env ''darwin'' ''x64'' st)) =
     requests st @ [''https://megatools.megous.com/builds/builds/megatools-1.11.3.20250401-linux-x86_64.tar.gz'']
   \<and> requests (snd (megatools_cell env ''darwin'' ''arm64'' st)) =
     requests st @ [''https://megatools.megous.com/builds/builds/megatools-1.11.3.20250401-linux-aarch64.tar.gz'']
   \<and> requests (snd (download_megatools env st)) =
     requests st @
       [''https://megatools.megous.com/builds/builds/megatools-1.11.3.20250401-win64.zip'',
        ''https://megatools.megous.com/builds/builds/megatools-1.11.3.20250401-linux-x86_64.tar.gz'',
        ''https://megatools.megous.com/builds/builds/megatools-1.11.3.20250401-linux-aarch64.tar.gz'',
        ''https://megatools.megous.com/builds/builds/megatools-1.11.3.20250401-linux-x86_64.tar.gz'',
        ''https://megatools.megous.com/builds/builds/megatools-1.11.3.20250401-linux-aarch64.tar.gz'']"
proof (intro conjI)
  show "requests (snd (bento4_cell env ''linux'' ''x64'' st)) =
     requests st @ [''https://www.bok.net/Bento4/binaries/Bento4-SDK-1-6-0-641.x86_64-unknown-linux.zip'']"
    by (simp add: bento4_cell_requests bento4_urls_def platform_config_def bento4_url_def
        BENTO4_URL_def BENTO4_VERSION_def)
  show "requests (snd (bento4_cell env ''linux'' ''arm64'' st)) =
     requests st @ [''https://www.bok.net/Bento4/binaries/Bento4-SDK-1-6-0-641.x86_64-unknown-linux.zip'']"
    by (simp add: bento4_cell_requests bento4_urls_def platform_config_def bento4_url_def
        BENTO4_URL_def BENTO4_VERSION_def)
  show "requests (snd (megatools_cell env ''darwin'' ''x64'' st)) =
     requests st @ [''https://megatools.megous.com/builds/builds/megatools-1.11.3.20250401-linux-x86_64.tar.gz'']"
    by (simp add: megatools_cell_requests megatools_urls_def megatools_config_def megatools_url_def
        MEGATOOLS_URL_def MEGATOOLS_VERSION_def)
  show "requests (snd (megatools_cell env ''darwin'' ''arm64'' st)) =
     requests st @ [''https://megatools.megous.com/builds/builds/megatools-1.11.3.20250401-linux-aarch64.tar.gz'']"
    by (simp add: megatools_cell_requests megatools_urls_def megatools_config_def megatools_url_def
        MEGATOOLS_URL_def MEGATOOLS_VERSION_def)
  show "requests (snd (download_megatools env st)) =
     requests st @
       [''https://megatools.megous.com/builds/builds/megatools-1.11.3.20250401-win64.zip'',
        ''https://megatools.megous.com/builds/builds/megatools-1.11.3.20250401-linux-x86_64.tar.gz'',
        ''https://megatools.megous.com/builds/builds/megatools-1.11.3.20250401-linux-aarch64.tar.gz'',
        ''https://megatools.megous.com/builds/builds/megatools-1.11.3.20250401-linux-x86_64.tar.gz'',
        ''https://megatools.megous.com/builds/builds/megatools-1.11.3.20250401-linux-aarch64.tar.gz'']"
    using download_megatools_requests [of env st] by (simp only: megatools_url_list)
qed


text \<open>
  C3, as the claim states it, fails: a response with status 304 is outside 2xx, yet
  \<^verbatim>\<open>raise_for_status\<close> accepts it, so \<^verbatim>\<open>_download\<close> writes the body and returns \<^verbatim>\<open>True\<close>.
\<close>

theorem fetch_accepts_status_304:
  "http_get (fixed_env (Inr (Response 304 ''Not Modified'' [] None))) 0 ''https://host/file.gz''
     = Inr (Response 304 ''Not Modified'' [] None)
   \<and> fst (download (fixed_env (Inr (Response 304 ''Not Modified'' [] None))) ''https://host/file.gz''
          [''srv'', ''file.gz''] bare_state)"
  by (simp add: download_ok_iff fixed_env_def bare_state_def open_wb_def path_exists_def is_dir_def
      lookup_def)

text \<open>
  C3, amended. For every URL and destination, \<^verbatim>\<open>_download\<close> never raises and its result is a
  boolean: every exception of the \<^verbatim>\<open>try\<close> block is turned into \<^verbatim>\<open>False\<close>. On each failure, a
  request that raises (no connection, time out), a status that \<^verbatim>\<open>raise_for_status\<close> rejects
  (400 to 599), a destination that cannot be opened, a write or the closing of the file that
  the operating system refuses, a stream that breaks, it returns \<^verbatim>\<open>False\<close> and prints one line:
  \<^verbatim>\<open>X\<close>, the last segment of the URL and the first 50 characters of that error's text. On
  success, which includes a status outside 2xx that \<^verbatim>\<open>raise_for_status\<close> accepts, it returns
  \<^verbatim>\<open>True\<close> and prints nothing.
\<close>

theorem fetch_never_raises:
  "(fst (download env url dest st) \<longleftrightarrow> fst (download_body env url dest st) = None)
   \<and> (http_get env (length (requests st)) url = Inl msg \<longrightarrow>
        \<not> fst (download env url dest st)
        \<and> stdout (snd (download env url dest st)) = stdout st @ [failure_line url msg])
   \<and> (http_get env (length (requests st)) url = Inr r \<and> 400 \<le> status_code r \<and> status_code r < 500 \<longrightarrow>
        \<not> fst (download env url dest st)
        \<and> stdout (snd (download env url dest st)) =
            stdout st @ [failure_line url (show_nat (status_code r) @ '' Client Error: '' @ reason r
                                           @ '' for url: '' @ url)])
   \<and> (http_get env (length (requests st)) url = Inr r \<and> 500 \<le> status_code r \<and> status_code r < 600 \<longrightarrow>
        \<not> fst (download env url dest st)
        \<and> stdout (snd (download env url dest st)) =
            stdout st @ [failure_line url (show_nat (status_code r) @ '' Server Error: '' @ reason r
                                           @ '' for url: '' @ url)])
   \<and> (http_get env (length (requests st)) url = Inr r \<and> \<not> (400 \<le> status_code r \<and> status_code r < 600)
      \<and> fst (open_wb (new_file_mode env) dest (fs st)) = Some e \<longrightarrow>
        \<not> fst (download env url dest st)
        \<and> stdout (snd (download env url dest st)) = stdout st @ [failure_line url (str_exn e)])
   \<and> (http_get env (length (requests st)) url = Inr r \<and> \<not> (400 \<le> status_code r \<and> status_code r < 600)
      \<and> fst (open_wb (new_file_mode env) dest (fs st)) = None
      \<and> chunks r = cs @ c # rest \<and> (\<forall>x \<in> set cs. write_error env dest x = None)
      \<and> write_error env dest c = Some msg \<and> close_error env dest = None \<longrightarrow>
        \<not> fst (download env url dest st)
        \<and> stdout (snd (download env url dest st)) = stdout st @ [failure_line url msg])
   \<and> (http_get env (length (requests st)) url = Inr r \<and> \<not> (400 \<le> status_code r \<and> status_code r < 600)
      \<and> fst (open_wb (new_file_mode env) dest (fs st)) = None
      \<and> (\<forall>x \<in> set (chunks r). write_error env dest x = None)
      \<and> stream_error r = Some msg \<and> close_error env dest = None \<longrightarrow>
        \<not> fst (download env url dest st)
        \<and> stdout (snd (download env url dest st)) = stdout st @ [failure_line url msg])
   \<and> (http_get env (length (requests st)) url = Inr r \<and> \<not> (400 \<le> status_code r \<and> status_code r < 600)
      \<and> fst (open_wb (new_file_mode env) dest (fs st)) = None
      \<and> close_error env dest = Some msg \<longrightarrow>
        \<not> fst (download env url dest st)
        \<and> stdout (snd (download env url dest st)) = stdout st @ [failure_line url msg])
   \<and> (http_get env (length (requests st)) url = Inr r \<and> \<not> (400 \<le> status_code r \<and> status_code r < 600)
      \<and> fst (open_wb (new_file_mode env) dest (fs st)) = None
      \<and> (\<forall>x \<in> set (chunks r). write_error env dest x = None)
      \<and> stream_error r = None \<and> close_error env dest = None \<longrightarrow>
        fst (download env url dest st)
        \<and> stdout (snd (download env url dest st)) = stdout st)"
proof -
  let ?D = "download env url dest st"
  let ?B = "download_body env url dest st"
  have failed: "\<not> fst ?D \<and> stdout (snd ?D) = stdout st @ [failure_line url (str_exn x)]"
    if "fst ?B = Some x" for x
    using that by (simp add: download_result download_stdout failure_line_def)
  have c1: "fst ?D \<longleftrightarrow> fst ?B = None" by (rule download_result)
  have c2: "\<not> fst ?D \<and> stdout (snd ?D) = stdout st @ [failure_line url msg]"
    if "http_get env (length (requests st)) url = Inl msg"
    using failed [of "RequestException msg"] that by (simp add: download_body_cases)
  have c3: "\<not> fst ?D \<and> stdout (snd ?D) =
        stdout st @ [failure_line url (show_nat (status_code r) @ '' Client Error: '' @ reason r
                                       @ '' for url: '' @ url)]"
    if "http_get env (length (requests st)) url = Inr r \<and> 400 \<le> status_code r \<and> status_code r < 500"
    using failed [of "HTTPError (show_nat (status_code r) @ '' Client Error: '' @ reason r
                                 @ '' for url: '' @ url)"] that
    by (simp add: download_body_cases raise_for_status_def)
  have c4: "\<not> fst ?D \<and> stdout (snd ?D) =
        stdout st @ [failure_line url (show_nat (status_code r) @ '' Server Error: '' @ reason r
                                       @ '' for url: '' @ url)]"
    if "http_get env (length (requests st)) url = Inr r \<and> 500 \<le> status_code r \<and> status_code r < 600"
    using failed [of "HTTPError (show_nat (status_code r) @ '' Server Error: '' @ reason r
                                 @ '' for url: '' @ url)"] that
    by (simp add: download_body_cases raise_for_status_def)
  have c5: "\<not> fst ?D \<and> stdout (snd ?D) = stdout st @ [failure_line url (str_exn e)]"
    if "http_get env (length (requests st)) url = Inr r \<and> \<not> (400 \<le> status_code r \<and> status_code r < 600)
        \<and> fst (open_wb (new_file_mode env) dest (fs st)) = Some e"
    using failed [of e] that by (simp add: download_body_cases raise_for_status_None [THEN iffD2])
  have c6: "\<not> fst ?D \<and> stdout (snd ?D) = stdout st @ [failure_line url msg]"
    if h: "http_get env (length (requests st)) url = Inr r \<and> \<not> (400 \<le> status_code r \<and> status_code r < 600)
        \<and> fst (open_wb (new_file_mode env) dest (fs st)) = None
        \<and> chunks r = cs @ c # rest \<and> (\<forall>x \<in> set cs. write_error env dest x = None)
        \<and> write_error env dest c = Some msg \<and> close_error env dest = None"
  proof -
    from h have "fst (for_each (write_chunk env dest) (chunks r)
        (snd (open_wb (new_file_mode env) dest (fs st)))) = Some (OSError msg)"
      by (simp add: write_chunks_first_error)
    with h have "fst ?B = Some (OSError msg)"
      by (simp add: download_body_cases raise_for_status_None [THEN iffD2])
    from failed [OF this] show ?thesis by simp
  qed
  have written: "fst (for_each (write_chunk env dest) (chunks r)
        (snd (open_wb (new_file_mode env) dest (fs st)))) = None"
    if "\<forall>x \<in> set (chunks r). write_error env dest x = None"
    using that by (simp add: write_chunks_ok)
  have c7: "\<not> fst ?D \<and> stdout (snd ?D) = stdout st @ [failure_line url msg]"
    if h: "http_get env (length (requests st)) url = Inr r \<and> \<not> (400 \<le> status_code r \<and> status_code r < 600)
        \<and> fst (open_wb (new_file_mode env) dest (fs st)) = None
        \<and> (\<forall>x \<in> set (chunks r). write_error env dest x = None)
        \<and> stream_error r = Some msg \<and> close_error env dest = None"
  proof -
    from h written have "fst ?B = Some (RequestException msg)"
      by (simp add: download_body_cases raise_for_status_None [THEN iffD2])
    from failed [OF this] show ?thesis by simp
  qed
  have c8: "\<not> fst ?D \<and> stdout (snd ?D) = stdout st @ [failure_line url msg]"
    if h: "http_get env (length (requests st)) url = Inr r \<and> \<not> (400 \<le> status_code r \<and> status_code r < 600)
        \<and> fst (open_wb (new_file_mode env) dest (fs st)) = None
        \<and> close_error env dest = Some msg"
  proof -
    from h have "fst ?B = Some (OSError msg)"
      by (simp add: download_body_cases raise_for_status_None [THEN iffD2])
    from failed [OF this] show ?thesis by simp
  qed
  have c9: "fst ?D \<and> stdout (snd ?D) = stdout st"
    if h: "http_get env (length (requests st)) url = Inr r \<and> \<not> (400 \<le> status_code r \<and> status_code r < 600)
        \<and> fst (open_wb (new_file_mode env) dest (fs st)) = None
        \<and> (\<forall>x \<in> set (chunks r). write_error env dest x = None)
        \<and> stream_error r = None \<and> close_error env dest = None"
  proof -
    from h written have "fst ?B = None"
      by (simp add: download_body_cases raise_for_status_None [THEN iffD2])
    then show ?thesis by (simp add: download_result download_stdout)
  qed
  from c1 c2 c3 c4 c5 c6 c7 c8 c9 show ?thesis by blast
qed

theorem fetch_never_raises_witness:
  "\<not> fst (download (fixed_env (Inl ''Connection refused'')) ''https://host/file.gz'' [''srv'', ''file.gz''] bare_state)
   \<and> stdout (snd (download (fixed_env (Inl ''Connection refused'')) ''https://host/file.gz''
                     [''srv'', ''file.gz''] bare_state))
       = [''  X file.gz: Connection refused'' @ [CHR 0x0A]]
   \<and> \<not> fst (download (fixed_env (Inr (Response 404 ''Not Found'' [] None))) ''https://host/file.gz''
             [''srv'', ''file.gz''] bare_state)
   \<and> stdout (snd (download (fixed_env (Inr (Response 404 ''Not Found'' [] None))) ''https://host/file.gz''
                     [''srv'', ''file.gz''] bare_state))
       = [''  X file.gz: 404 Client Error: Not Found for url: https://host/'' @ [CHR 0x0A]]
   \<and> \<not> fst (download (fixed_env (Inr (Response 503 ''Service Unavailable'' [] None))) ''https://host/file.gz''
             [''srv'', ''file.gz''] bare_state)
   \<and> stdout (snd (download (fixed_env (Inr (Response 503 ''Service Unavailable'' [] None)))
                     ''https://host/file.gz'' [''srv'', ''file.gz''] bare_state))
       = [''  X file.gz: 503 Server Error: Service Unavailable for url: htt'' @ [CHR 0x0A]]
   \<and> \<not> fst (download (faulty_disk_env None None) ''https://host/file.gz'' [''srv'', ''missing'', ''file.gz'']
             bare_state)
   \<and> stdout (snd (download (faulty_disk_env None None) ''https://host/file.gz''
                     [''srv'', ''missing'', ''file.gz''] bare_state))
       = [''  X file.gz: [Errno 2] No such file or directory: '' @ [CHR 0x27] @ ''/srv/missing'' @ [CHR 0x0A]]
   \<and> \<not> fst (download (faulty_disk_env (Some ''[Errno 28] No space left on device'') None)
             ''https://host/file.gz'' [''srv'', ''file.gz''] bare_state)
   \<and> stdout (snd (download (faulty_disk_env (Some ''[Errno 28] No space left on device'') None)
                     ''https://host/file.gz'' [''srv'', ''file.gz''] bare_state))
       = [''  X file.gz: [Errno 28] No space left on device'' @ [CHR 0x0A]]
   \<and> \<not> fst (download (fixed_env (Inr (Response 200 ''OK'' [''da''] (Some ''Connection broken''))))
             ''https://host/file.gz'' [''srv'', ''file.gz''] bare_state)
   \<and> stdout (snd (download (fixed_env (Inr (Response 200 ''OK'' [''da''] (Some ''Connection broken''))))
                     ''https://host/file.gz'' [''srv'', ''file.gz''] bare_state))
       = [''  X file.gz: Connection broken'' @ [CHR 0x0A]]
   \<and> \<not> fst (download (faulty_disk_env None (Some ''[Errno 5] Input/output error''))
             ''https://host/file.gz'' [''srv'', ''file.gz''] bare_state)
   \<and> stdout (snd (download (faulty_disk_env None (Some ''[Errno 5] Input/output error''))
                     ''https://host/file.gz'' [''srv'', ''file.gz''] bare_state))
       = [''  X file.gz: [Errno 5] Input/output error'' @ [CHR 0x0A]]
   \<and> fst (download (faulty_disk_env None None) ''https://host/file.gz'' [''srv'', ''file.gz''] bare_state)
   \<and> stdout (snd (download (faulty_disk_env None None) ''https://host/file.gz'' [''srv'', ''file.gz'']
                     bare_state)) = []"
proof -
  let ?url = "''https://host/file.gz''"
  let ?dest = "[''srv'', ''file.gz'']"
  let ?far = "[''srv'', ''missing'', ''file.gz'']"
  let ?ok = "Response 200 ''OK'' [''da'', ''ta''] None"
  let ?cut = "Response 200 ''OK'' [''da''] (Some ''Connection broken'')"
  have st: "requests bare_state = []" "stdout bare_state = []" "fs bare_state = [([''srv''], Dir)]"
    by (simp_all add: bare_state_def)
  have opened: "fst (open_wb 420 ?dest [([''srv''], Dir)]) = None"
    by (simp add: open_wb_def path_exists_def is_dir_def lookup_def)
  have missing: "fst (open_wb 420 ?far [([''srv''], Dir)]) = Some (FileNotFoundError ?far)"
    by (simp add: open_wb_def path_exists_def is_dir_def lookup_def)
  have line: "failure_line ?url ''Connection refused'' = ''  X file.gz: Connection refused'' @ [CHR 0x0A]"
    "failure_line ?url (show_nat 404 @ '' Client Error: '' @ ''Not Found'' @ '' for url: '' @ ?url)
       = ''  X file.gz: 404 Client Error: Not Found for url: https://host/'' @ [CHR 0x0A]"
    "failure_line ?url (show_nat 503 @ '' Server Error: '' @ ''Service Unavailable'' @ '' for url: '' @ ?url)
       = ''  X file.gz: 503 Server Error: Service Unavailable for url: htt'' @ [CHR 0x0A]"
    "failure_line ?url (str_exn (FileNotFoundError ?far))
       = ''  X file.gz: [Errno 2] No such file or directory: '' @ [CHR 0x27] @ ''/srv/missing'' @ [CHR 0x0A]"
    "failure_line ?url ''[Errno 28] No space left on device''
       = ''  X file.gz: [Errno 28] No space left on device'' @ [CHR 0x0A]"
    "failure_line ?url ''Connection broken'' = ''  X file.gz: Connection broken'' @ [CHR 0x0A]"
    "failure_line ?url ''[Errno 5] Input/output error'' = ''  X file.gz: [Errno 5] Input/output error'' @ [CHR 0x0A]"
    by (simp_all add: failure_line_def show_nat.simps os_error_text_def show_path_def)
  let ?down = "fixed_env (Inl ''Connection refused'')"
  let ?nf = "Response 404 ''Not Found'' [] None"
  let ?su = "Response 503 ''Service Unavailable'' [] None"
  let ?full = "faulty_disk_env (Some ''[Errno 28] No space left on device'') None"
  let ?io = "faulty_disk_env None (Some ''[Errno 5] Input/output error'')"
  let ?fine = "faulty_disk_env None None"
  have get: "http_get (fixed_env answer) (length (requests bare_state)) ?url = answer"
    "http_get (faulty_disk_env werr cerr) (length (requests bare_state)) ?url = Inr ?ok" for answer werr cerr
    by (simp_all add: fixed_env_def faulty_disk_env_def)
  have op: "fst (open_wb (new_file_mode (fixed_env answer)) ?dest (fs bare_state)) = None"
    "fst (open_wb (new_file_mode (faulty_disk_env werr cerr)) ?dest (fs bare_state)) = None"
    "fst (open_wb (new_file_mode (faulty_disk_env werr cerr)) ?far (fs bare_state)) = Some (FileNotFoundError ?far)"
    for answer werr cerr
    using opened missing by (simp_all add: fixed_env_def faulty_disk_env_def st)
  have sc: "400 \<le> status_code ?nf \<and> status_code ?nf < 500" "500 \<le> status_code ?su \<and> status_code ?su < 600"
    "\<not> (400 \<le> status_code ?ok \<and> status_code ?ok < 600)" "\<not> (400 \<le> status_code ?cut \<and> status_code ?cut < 600)"
    "reason ?nf = ''Not Found''" "reason ?su = ''Service Unavailable''"
    "status_code ?nf = 404" "status_code ?su = 503"
    by simp_all
  have wr: "chunks ?ok = [''da''] @ ''ta'' # []"
    "\<forall>x \<in> set [''da'']. write_error ?full ?dest x = None"
    "write_error ?full ?dest ''ta'' = Some ''[Errno 28] No space left on device''"
    "\<forall>x \<in> set (chunks ?ok). write_error (faulty_disk_env None cerr) q x = None"
    "\<forall>x \<in> set (chunks ?cut). write_error (fixed_env answer) q x = None"
    "close_error (faulty_disk_env werr cerr) q = cerr" "close_error (fixed_env answer) q = None"
    "stream_error ?ok = None" "stream_error ?cut = Some ''Connection broken''"
    for cerr werr answer q
    by (simp_all add: fixed_env_def faulty_disk_env_def)
  have a: "\<not> fst (download ?down ?url ?dest bare_state)
      \<and> stdout (snd (download ?down ?url ?dest bare_state)) = stdout bare_state @ [failure_line ?url ''Connection refused'']"
    by (rule fetch_never_raises [of ?down ?url ?dest bare_state "''Connection refused''",
          THEN conjunct2, THEN conjunct1, THEN mp]) (rule get(1))
  have b: "\<not> fst (download (fixed_env (Inr ?nf)) ?url ?dest bare_state)
      \<and> stdout (snd (download (fixed_env (Inr ?nf)) ?url ?dest bare_state))
          = stdout bare_state @ [failure_line ?url (show_nat (status_code ?nf) @ '' Client Error: '' @ reason ?nf
                                    @ '' for url: '' @ ?url)]"
    by (rule fetch_never_raises [of "fixed_env (Inr ?nf)" ?url ?dest bare_state _ ?nf,
          THEN conjunct2, THEN conjunct2, THEN conjunct1, THEN mp])
       (intro conjI get(1) sc(1) [THEN conjunct1] sc(1) [THEN conjunct2])
  have c: "\<not> fst (download (fixed_env (Inr ?su)) ?url ?dest bare_state)
      \<and> stdout (snd (download (fixed_env (Inr ?su)) ?url ?dest bare_state))
          = stdout bare_state @ [failure_line ?url (show_nat (status_code ?su) @ '' Server Error: '' @ reason ?su
                                    @ '' for url: '' @ ?url)]"
    by (rule fetch_never_raises [of "fixed_env (Inr ?su)" ?url ?dest bare_state _ ?su,
          THEN conjunct2, THEN conjunct2, THEN conjunct2, THEN conjunct1, THEN mp])
       (intro conjI get(1) sc(2) [THEN conjunct1] sc(2) [THEN conjunct2])
  have d: "\<not> fst (download ?fine ?url ?far bare_state)
      \<and> stdout (snd (download ?fine ?url ?far bare_state))
          = stdout bare_state @ [failure_line ?url (str_exn (FileNotFoundError ?far))]"
    by (rule fetch_never_raises [of ?fine ?url ?far bare_state _ ?ok "FileNotFoundError ?far",
          THEN conjunct2, THEN conjunct2, THEN conjunct2, THEN conjunct2, THEN conjunct1, THEN mp])
       (intro conjI get(2) sc(3) op(3))
  have e: "\<not> fst (download ?full ?url ?dest bare_state)
      \<and> stdout (snd (download ?full ?url ?dest bare_state))
          = stdout bare_state @ [failure_line ?url ''[Errno 28] No space left on device'']"
    by (rule fetch_never_raises [of ?full ?url ?dest bare_state "''[Errno 28] No space left on device''" ?ok _
          "[''da'']" "''ta''" "[]",
          THEN conjunct2, THEN conjunct2, THEN conjunct2, THEN conjunct2, THEN conjunct2, THEN conjunct1, THEN mp])
       (intro conjI get(2) sc(3) op(2) wr(1,2,3,6))
  have f: "\<not> fst (download (fixed_env (Inr ?cut)) ?url ?dest bare_state)
      \<and> stdout (snd (download (fixed_env (Inr ?cut)) ?url ?dest bare_state))
          = stdout bare_state @ [failure_line ?url ''Connection broken'']"
    by (rule fetch_never_raises [of "fixed_env (Inr ?cut)" ?url ?dest bare_state "''Connection broken''" ?cut,
          THEN conjunct2, THEN conjunct2, THEN conjunct2, THEN conjunct2, THEN conjunct2, THEN conjunct2,
          THEN conjunct1, THEN mp])
       (intro conjI get(1) sc(4) op(1) wr(5,7,9))
  have g: "\<not> fst (download ?io ?url ?dest bare_state)
      \<and> stdout (snd (download ?io ?url ?dest bare_state))
          = stdout bare_state @ [failure_line ?url ''[Errno 5] Input/output error'']"
    by (rule fetch_never_raises [of ?io ?url ?dest bare_state "''[Errno 5] Input/output error''" ?ok,
          THEN conjunct2, THEN conjunct2, THEN conjunct2, THEN conjunct2, THEN conjunct2, THEN conjunct2,
          THEN conjunct2, THEN conjunct1, THEN mp])
       (intro conjI get(2) sc(3) op(2) wr(6))
  have h: "fst (download ?fine ?url ?dest bare_state)
      \<and> stdout (snd (download ?fine ?url ?dest bare_state)) = stdout bare_state"
    by (rule fetch_never_raises [of ?fine ?url ?dest bare_state _ ?ok,
          THEN conjunct2, THEN conjunct2, THEN conjunct2, THEN conjunct2, THEN conjunct2, THEN conjunct2,
          THEN conjunct2, THEN conjunct2, THEN mp])
       (intro conjI get(2) sc(3) op(2) wr(4,6,8))
  from a b c d e f g h show ?thesis
    unfolding sc(5-8) line st(2) append_Nil by (intro conjI) (erule conjunct1 conjunct2)+
qed

text \<open>
  C9, as the claim states it, fails: on a response with status 304, which is outside 2xx, the
  destination did not exist before and is a file afterwards.
\<close>

theorem status_304_creates_destination:
  "http_get (fixed_env (Inr (Response 304 ''Not Modified'' [] None))) 0 ''https://host/file.gz''
     = Inr (Response 304 ''Not Modified'' [] None)
   \<and> lookup (fs bare_state) [''srv'', ''file.gz''] = None
   \<and> lookup (fs (snd (download (fixed_env (Inr (Response 304 ''Not Modified'' [] None)))
        ''https://host/file.gz'' [''srv'', ''file.gz''] bare_state))) [''srv'', ''file.gz'']
       = Some (File [] 420)"
  by (simp add: download_def download_body_cases raise_for_status_def fixed_env_def bare_state_def
      open_wb_def path_exists_def is_dir_def lookup_def store_def)

text \<open>
  C9, amended. The status is checked before the destination is opened: when the request
  raises, or the response has a status that \<^verbatim>\<open>raise_for_status\<close> rejects (400 to 599),
  \<^verbatim>\<open>_download\<close> returns \<^verbatim>\<open>False\<close> and the file system is as it was, so the destination is
  neither created nor modified. The file system changes only after a response with an accepted
  status, and then at the destination only.
\<close>

theorem rejected_status_leaves_destination:
  "(http_get env (length (requests st)) url = Inr r \<and> 400 \<le> status_code r \<and> status_code r < 600
      \<longrightarrow> \<not> fst (download env url dest st) \<and> fs (snd (download env url dest st)) = fs st)
   \<and> (http_get env (length (requests st)) url = Inl msg
      \<longrightarrow> \<not> fst (download env url dest st) \<and> fs (snd (download env url dest st)) = fs st)
   \<and> (fs (snd (download env url dest st)) \<noteq> fs st
      \<longrightarrow> (\<exists>r'. http_get env (length (requests st)) url = Inr r'
                \<and> \<not> (400 \<le> status_code r' \<and> status_code r' < 600)))
   \<and> (q \<noteq> dest \<longrightarrow> lookup (fs (snd (download env url dest st))) q = lookup (fs st) q)"
proof (intro conjI impI)
  assume a: "http_get env (length (requests st)) url = Inr r \<and> 400 \<le> status_code r \<and> status_code r < 600"
  then show "\<not> fst (download env url dest st)" by (auto simp: download_ok_iff)
  from a show "fs (snd (download env url dest st)) = fs st" by (auto intro: download_rejected_fs)
next
  assume a: "http_get env (length (requests st)) url = Inl msg"
  then show "\<not> fst (download env url dest st)" by (auto simp: download_ok_iff)
  from a show "fs (snd (download env url dest st)) = fs st" by (rule download_no_response_fs)
next
  assume changed: "fs (snd (download env url dest st)) \<noteq> fs st"
  show "\<exists>r'. http_get env (length (requests st)) url = Inr r'
      \<and> \<not> (400 \<le> status_code r' \<and> status_code r' < 600)"
  proof (cases "http_get env (length (requests st)) url")
    case (Inl msg')
    then show ?thesis using changed download_no_response_fs by blast
  next
    case (Inr r')
    then show ?thesis using changed download_rejected_fs by blast
  qed
next
  assume "q \<noteq> dest"
  then show "lookup (fs (snd (download env url dest st))) q = lookup (fs st) q"
    by (rule download_touches_dest_only)
qed

theorem rejected_status_leaves_destination_witness:
  "\<not> fst (download (fixed_env (Inr (Response 404 ''Not Found'' [''page''] None))) ''https://host/file.gz''
          [''srv'', ''file.gz''] bare_state)
   \<and> fs (snd (download (fixed_env (Inr (Response 404 ''Not Found'' [''page''] None)))
        ''https://host/file.gz'' [''srv'', ''file.gz''] bare_state)) = fs bare_state
   \<and> fs (snd (download (fixed_env (Inl ''Connection refused''))
        ''https://host/file.gz'' [''srv'', ''file.gz''] bare_state)) = fs bare_state
   \<and> (\<exists>r'. http_get (fixed_env (Inr (Response 200 ''OK'' [''da'', ''ta''] None))) (length (requests bare_state))
          ''https://host/file.gz'' = Inr r' \<and> \<not> (400 \<le> status_code r' \<and> status_code r' < 600))
   \<and> lookup (fs (snd (download (fixed_env (Inr (Response 200 ''OK'' [''da'', ''ta''] None)))
        ''https://host/file.gz'' [''srv'', ''file.gz''] bare_state))) [''srv'']
       = lookup (fs bare_state) [''srv'']"
proof -
  let ?bad = "fixed_env (Inr (Response 404 ''Not Found'' [''page''] None))"
  let ?none = "fixed_env (Inl ''Connection refused'')"
  let ?good = "fixed_env (Inr (Response 200 ''OK'' [''da'', ''ta''] None))"
  have h1: "http_get ?bad (length (requests bare_state)) ''https://host/file.gz''
        = Inr (Response 404 ''Not Found'' [''page''] None)
      \<and> 400 \<le> status_code (Response 404 ''Not Found'' [''page''] None)
      \<and> status_code (Response 404 ''Not Found'' [''page''] None) < 600"
    by (simp add: fixed_env_def)
  have h2: "http_get ?none (length (requests bare_state)) ''https://host/file.gz'' = Inl ''Connection refused''"
    by (simp add: fixed_env_def)
  have h3: "fs (snd (download ?good ''https://host/file.gz'' [''srv'', ''file.gz''] bare_state)) \<noteq> fs bare_state"
    by (simp add: download_def download_body_cases raise_for_status_def fixed_env_def bare_state_def
        open_wb_def path_exists_def is_dir_def lookup_def store_def write_bytes_def write_chunk_def)
  have h4: "[''srv''] \<noteq> [''srv'', ''file.gz'']" by simp
  from rejected_status_leaves_destination [of ?bad bare_state "''https://host/file.gz''"
      "Response 404 ''Not Found'' [''page''] None" "[''srv'', ''file.gz'']" "''x''" "[''srv'']"]
    rejected_status_leaves_destination [of ?none bare_state "''https://host/file.gz''"
      "Response 404 ''Not Found'' [''page''] None" "[''srv'', ''file.gz'']" "''Connection refused''" "[''srv'']"]
    rejected_status_leaves_destination [of ?good bare_state "''https://host/file.gz''"
      "Response 404 ''Not Found'' [''page''] None" "[''srv'', ''file.gz'']" "''x''" "[''srv'']"]
    h1 h2 h3 h4
  show ?thesis by blast
qed

text \<open>
  C6. The gzip variant, for one executable of FFmpeg (the body of the loop over \<^verbatim>\<open>ffmpeg\<close> and
  \<^verbatim>\<open>ffprobe\<close>). The executable is counted as installed exactly when the download succeeded, the
  stream decompressed without error and the output path is not a directory. Then the \<^verbatim>\<open>.gz\<close>
  file no longer exists; the output file holds the decompressed bytes of the response, with
  mode 0755 (493) on every platform but windows, where no mode is set and the file has the
  mode it was created with or had before; and the output file's name is the executable's
  name with \<^verbatim>\<open>.exe\<close> appended exactly when the platform is windows, which is also the name
  recorded in the manifest.
\<close>

theorem gzip_variant_postconditions:
  "(fst (ffmpeg_executable env p a ps (n, st) exe) = n + 1 \<longleftrightarrow>
      fst (download env (ffmpeg_url ps exe) (ffmpeg_gz_path (base_path st) p a ps exe) st)
      \<and> lookup (fs st) (ffmpeg_final_path (base_path st) p a exe) \<noteq> Some Dir
      \<and> (\<exists>r. http_get env (length (requests st)) (ffmpeg_url ps exe) = Inr r
             \<and> snd (gunzip env (concat (chunks r))) = None))
   \<and> (fst (ffmpeg_executable env p a ps (n, st) exe) = n + 1 \<longrightarrow>
        lookup (fs (snd (ffmpeg_executable env p a ps (n, st) exe))) (ffmpeg_gz_path (base_path st) p a ps exe)
          = None
        \<and> (\<exists>r. http_get env (length (requests st)) (ffmpeg_url ps exe) = Inr r
               \<and> lookup (fs (snd (ffmpeg_executable env p a ps (n, st) exe)))
                    (ffmpeg_final_path (base_path st) p a exe) =
                   Some (File (fst (gunzip env (concat (chunks r))))
                     (if p \<noteq> ''windows'' then 493
                      else (case lookup (fs st) (ffmpeg_final_path (base_path st) p a exe) of
                              Some (File d m) \<Rightarrow> m
                            | _ \<Rightarrow> new_file_mode env))))
        \<and> paths_json (snd (ffmpeg_executable env p a ps (n, st) exe)) =
             add_path p a ''ffmpeg'' (if p = ''windows'' then exe @ ''.exe'' else exe) (paths_json st))
   \<and> ffmpeg_final_path (base_path st) p a exe =
        base_path st @ [p, a, ''ffmpeg'', (if p = ''windows'' then exe @ ''.exe'' else exe)]"
proof (intro conjI impI)
  show "fst (ffmpeg_executable env p a ps (n, st) exe) = n + 1 \<longleftrightarrow>
      fst (download env (ffmpeg_url ps exe) (ffmpeg_gz_path (base_path st) p a ps exe) st)
      \<and> lookup (fs st) (ffmpeg_final_path (base_path st) p a exe) \<noteq> Some Dir
      \<and> (\<exists>r. http_get env (length (requests st)) (ffmpeg_url ps exe) = Inr r
             \<and> snd (gunzip env (concat (chunks r))) = None)"
    by (rule ffmpeg_executable_installed(1))
  show "ffmpeg_final_path (base_path st) p a exe =
        base_path st @ [p, a, ''ffmpeg'', (if p = ''windows'' then exe @ ''.exe'' else exe)]"
    by (simp add: ffmpeg_final_path_def exe_ext_def)
next
  assume c: "fst (ffmpeg_executable env p a ps (n, st) exe) = n + 1"
  show "lookup (fs (snd (ffmpeg_executable env p a ps (n, st) exe))) (ffmpeg_gz_path (base_path st) p a ps exe)
          = None"
    using c by (rule ffmpeg_executable_installed(2))
  show "\<exists>r. http_get env (length (requests st)) (ffmpeg_url ps exe) = Inr r
               \<and> lookup (fs (snd (ffmpeg_executable env p a ps (n, st) exe)))
                    (ffmpeg_final_path (base_path st) p a exe) =
                   Some (File (fst (gunzip env (concat (chunks r))))
                     (if p \<noteq> ''windows'' then 493
                      else (case lookup (fs st) (ffmpeg_final_path (base_path st) p a exe) of
                              Some (File d m) \<Rightarrow> m
                            | _ \<Rightarrow> new_file_mode env)))"
    using c by (rule ffmpeg_executable_installed(3))
  show "paths_json (snd (ffmpeg_executable env p a ps (n, st) exe)) =
             add_path p a ''ffmpeg'' (if p = ''windows'' then exe @ ''.exe'' else exe) (paths_json st)"
    using ffmpeg_executable_installed(4) [OF c] by (simp add: exe_ext_def)
qed

theorem gzip_variant_postconditions_witness:
  "fst (ffmpeg_executable (fixed_env (Inr (Response 200 ''OK'' [''ab'', ''cd''] None)))
          ''linux'' ''x64'' ''linux-x64'' (0, sample_state) ''ffmpeg'') = 0 + 1
   \<and> lookup (fs (snd (ffmpeg_executable (fixed_env (Inr (Response 200 ''OK'' [''ab'', ''cd''] None)))
          ''linux'' ''x64'' ''linux-x64'' (0, sample_state) ''ffmpeg'')))
        [''srv'', ''binaries'', ''linux'', ''x64'', ''ffmpeg'', ''ffmpeg-linux-x64.gz''] = None
   \<and> lookup (fs (snd (ffmpeg_executable (fixed_env (Inr (Response 200 ''OK'' [''ab'', ''cd''] None)))
          ''linux'' ''x64'' ''linux-x64'' (0, sample_state) ''ffmpeg'')))
        [''srv'', ''binaries'', ''linux'', ''x64'', ''ffmpeg'', ''ffmpeg''] = Some (File ''abcd'' 493)
   \<and> fst (ffmpeg_executable (fixed_env (Inr (Response 200 ''OK'' [''ab'', ''cd''] None)))
          ''windows'' ''x64'' ''win32-x64'' (0, sample_state) ''ffprobe'') = 0 + 1
   \<and> lookup (fs (snd (ffmpeg_executable (fixed_env (Inr (Response 200 ''OK'' [''ab'', ''cd''] None)))
          ''windows'' ''x64'' ''win32-x64'' (0, sample_state) ''ffprobe'')))
        [''srv'', ''binaries'', ''windows'', ''x64'', ''ffmpeg'', ''ffprobe-win32-x64.gz''] = None
   \<and> lookup (fs (snd (ffmpeg_executable (fixed_env (Inr (Response 200 ''OK'' [''ab'', ''cd''] None)))
          ''windows'' ''x64'' ''win32-x64'' (0, sample_state) ''ffprobe'')))
        [''srv'', ''binaries'', ''windows'', ''x64'', ''ffmpeg'', ''ffprobe.exe''] = Some (File ''abcd'' 420)"
proof -
  let ?env = "fixed_env (Inr (Response 200 ''OK'' [''ab'', ''cd''] None))"
  have get: "http_get ?env k u = Inr (Response 200 ''OK'' [''ab'', ''cd''] None)" for k u
    by (simp add: fixed_env_def)
  have gun: "gunzip ?env d = (d, None)" for d by (simp add: fixed_env_def)
  have mode: "new_file_mode ?env = 420" by (simp add: fixed_env_def)
  have disk: "write_error ?env q c = None" "close_error ?env q = None" for q c
    by (simp_all add: fixed_env_def)
  have dl: "fst (download ?env (ffmpeg_url ''linux-x64'' ''ffmpeg'')
      (ffmpeg_gz_path (base_path sample_state) ''linux'' ''x64'' ''linux-x64'' ''ffmpeg'') sample_state)"
    by (simp add: download_ok_iff get disk open_wb_ok_iff sample_state_def ffmpeg_gz_path_def
        path_exists_def is_dir_def lookup_def)
  have dw: "fst (download ?env (ffmpeg_url ''win32-x64'' ''ffprobe'')
      (ffmpeg_gz_path (base_path sample_state) ''windows'' ''x64'' ''win32-x64'' ''ffprobe'') sample_state)"
    by (simp add: download_ok_iff get disk open_wb_ok_iff sample_state_def ffmpeg_gz_path_def
        path_exists_def is_dir_def lookup_def)
  have fl: "lookup (fs sample_state) (ffmpeg_final_path (base_path sample_state) ''linux'' ''x64'' ''ffmpeg'') = None"
    by (simp add: sample_state_def ffmpeg_final_path_def exe_ext_def lookup_def)
  have fw: "lookup (fs sample_state) (ffmpeg_final_path (base_path sample_state) ''windows'' ''x64'' ''ffprobe'') = None"
    by (simp add: sample_state_def ffmpeg_final_path_def exe_ext_def lookup_def)
  have pl: "ffmpeg_gz_path (base_path sample_state) ''linux'' ''x64'' ''linux-x64'' ''ffmpeg''
        = [''srv'', ''binaries'', ''linux'', ''x64'', ''ffmpeg'', ''ffmpeg-linux-x64.gz'']"
      "ffmpeg_gz_path (base_path sample_state) ''windows'' ''x64'' ''win32-x64'' ''ffprobe''
        = [''srv'', ''binaries'', ''windows'', ''x64'', ''ffmpeg'', ''ffprobe-win32-x64.gz'']"
      "ffmpeg_final_path (base_path sample_state) ''linux'' ''x64'' ''ffmpeg''
        = [''srv'', ''binaries'', ''linux'', ''x64'', ''ffmpeg'', ''ffmpeg'']"
      "ffmpeg_final_path (base_path sample_state) ''windows'' ''x64'' ''ffprobe''
        = [''srv'', ''binaries'', ''windows'', ''x64'', ''ffmpeg'', ''ffprobe.exe'']"
    by (simp_all add: sample_state_def ffmpeg_gz_path_def ffmpeg_final_path_def exe_ext_def)
  from gzip_variant_postconditions [of ?env "''linux''" "''x64''" "''linux-x64''" 0 sample_state "''ffmpeg''"]
    dl fl
  have l: "fst (ffmpeg_executable ?env ''linux'' ''x64'' ''linux-x64'' (0, sample_state) ''ffmpeg'') = 0 + 1
     \<and> lookup (fs (snd (ffmpeg_executable ?env ''linux'' ''x64'' ''linux-x64'' (0, sample_state) ''ffmpeg'')))
        [''srv'', ''binaries'', ''linux'', ''x64'', ''ffmpeg'', ''ffmpeg-linux-x64.gz''] = None
     \<and> lookup (fs (snd (ffmpeg_executable ?env ''linux'' ''x64'' ''linux-x64'' (0, sample_state) ''ffmpeg'')))
        [''srv'', ''binaries'', ''linux'', ''x64'', ''ffmpeg'', ''ffmpeg''] = Some (File ''abcd'' 493)"
    by (simp add: get gun pl)
  from gzip_variant_postconditions [of ?env "''windows''" "''x64''" "''win32-x64''" 0 sample_state "''ffprobe''"]
    dw fw
  have w: "fst (ffmpeg_executable ?env ''windows'' ''x64'' ''win32-x64'' (0, sample_state) ''ffprobe'') = 0 + 1
     \<and> lookup (fs (snd (ffmpeg_executable ?env ''windows'' ''x64'' ''win32-x64'' (0, sample_state) ''ffprobe'')))
        [''srv'', ''binaries'', ''windows'', ''x64'', ''ffmpeg'', ''ffprobe-win32-x64.gz''] = None
     \<and> lookup (fs (snd (ffmpeg_executable ?env ''windows'' ''x64'' ''win32-x64'' (0, sample_state) ''ffprobe'')))
        [''srv'', ''binaries'', ''windows'', ''x64'', ''ffmpeg'', ''ffprobe.exe''] = Some (File ''abcd'' 420)"
    by (simp add: get gun pl mode)
  from l w show ?thesis by blast
qed

text \<open>
  C5. Layout creation. When \<^verbatim>\<open>_create_directories\<close> ends without an exception, the three tool
  directories \<^verbatim>\<open>ffmpeg\<close>, \<^verbatim>\<open>bento4\<close> and \<^verbatim>\<open>megatools\<close> exist below
  \<^verbatim>\<open><base>/<platform>/<architecture>\<close> for every cell of the matrix, and a second call changes
  nothing and does not fail. Whatever happens, the only change to the file system is that
  missing directories on the way to those fifteen are made, and no path is listed twice.
  The only cause of an exception is a regular file where a directory is needed, never a
  directory that is already there. \<^verbatim>\<open>__init__\<close> requests no URL, and when it raises, the program
  ends with that exception before \<^verbatim>\<open>run\<close> starts, so with no request made.
\<close>

theorem layout_creation:
  "(fst (create_directories st) = None \<longrightarrow>
      (\<forall>(p, a) \<in> set targets. \<forall>t \<in> set tools.
          lookup (fs (snd (create_directories st))) (base_path st @ [p, a, t]) = Some Dir)
      \<and> create_directories (snd (create_directories st)) = (None, snd (create_directories st)))
   \<and> (lookup (fs (snd (create_directories st))) q \<noteq> lookup (fs st) q \<longrightarrow>
        lookup (fs st) q = None \<and> lookup (fs (snd (create_directories st))) q = Some Dir
        \<and> (\<exists>(p, a) \<in> set targets. \<exists>t \<in> set tools. q \<noteq> [] \<and> lies_under q (base_path st @ [p, a, t])))
   \<and> (distinct (map fst (fs st)) \<longrightarrow> distinct (map fst (fs (snd (create_directories st)))))
   \<and> (fst (create_directories st) = Some e \<longrightarrow>
        (\<exists>(p, a) \<in> set targets. \<exists>t \<in> set tools. \<exists>k c m.
            0 < k \<and> k \<le> length (base_path st @ [p, a, t])
            \<and> lookup (fs st) (take k (base_path st @ [p, a, t])) = Some (File c m)))
   \<and> requests (snd (init cwd0 base f0)) = []
   \<and> (fst (init cwd0 (cwd0 @ [''binaries'']) f0) = Some e \<longrightarrow>
        main env cwd0 f0 = init cwd0 (cwd0 @ [''binaries'']) f0
        \<and> requests (snd (main env cwd0 f0)) = [])"
proof (intro conjI impI)
  let ?ds = "layout_dirs (base_path st)"
  let ?r = "for_each mkdir_parents ?ds (fs st)"
  {
    assume ok: "fst (create_directories st) = None"
    then have ok': "fst ?r = None" by (simp add: create_directories_flat)
    show "\<forall>(p, a) \<in> set targets. \<forall>t \<in> set tools.
          lookup (fs (snd (create_directories st))) (base_path st @ [p, a, t]) = Some Dir"
    proof (intro ballI, clarify)
      fix p a t
      assume "(p, a) \<in> set targets" "t \<in> set tools"
      then have d: "base_path st @ [p, a, t] \<in> set ?ds" by (auto simp: in_layout_dirs)
      from mkdir_all_made [OF ok' d, of "length (base_path st @ [p, a, t])"]
      show "lookup (fs (snd (create_directories st))) (base_path st @ [p, a, t]) = Some Dir"
        by (simp add: create_directories_flat)
    qed
    show "create_directories (snd (create_directories st)) = (None, snd (create_directories st))"
      using mkdir_all_idem [OF ok'] by (simp add: create_directories_flat)
  }
  {
    assume ch: "lookup (fs (snd (create_directories st))) q \<noteq> lookup (fs st) q"
    with mkdir_all_change [of ?ds "fs st" q]
    have c: "lookup (fs st) q = None \<and> lookup (snd ?r) q = Some Dir \<and> (\<exists>d \<in> set ?ds. q \<noteq> [] \<and> lies_under q d)"
      by (auto simp: create_directories_flat)
    then show "lookup (fs st) q = None" by simp
    from c show "lookup (fs (snd (create_directories st))) q = Some Dir"
      by (simp add: create_directories_flat)
    from c obtain d where "d \<in> set ?ds" and qd: "q \<noteq> []" "lies_under q d" by blast
    then obtain p a t where pa: "(p, a) \<in> set targets" and t: "t \<in> set tools"
      and d: "d = base_path st @ [p, a, t]" by (auto simp: in_layout_dirs)
    show "\<exists>(p, a) \<in> set targets. \<exists>t \<in> set tools. q \<noteq> [] \<and> lies_under q (base_path st @ [p, a, t])"
      by (rule bexI [OF _ pa]) (use t qd d in auto)
  }
  {
    assume "distinct (map fst (fs st))"
    then show "distinct (map fst (fs (snd (create_directories st))))"
      by (simp add: create_directories_flat mkdir_all_distinct)
  }
  {
    assume "fst (create_directories st) = Some e"
    then have "fst ?r = Some e" by (simp add: create_directories_flat)
    from mkdir_all_error [OF this]
    obtain d k c m where "d \<in> set ?ds" and k: "0 < k" "k \<le> length d"
      and l: "lookup (fs st) (take k d) = Some (File c m)" by blast
    then obtain p a t where pa: "(p, a) \<in> set targets" and t: "t \<in> set tools"
      and d: "d = base_path st @ [p, a, t]" by (auto simp: in_layout_dirs)
    show "\<exists>(p, a) \<in> set targets. \<exists>t \<in> set tools. \<exists>k c m.
            0 < k \<and> k \<le> length (base_path st @ [p, a, t])
            \<and> lookup (fs st) (take k (base_path st @ [p, a, t])) = Some (File c m)"
      by (rule bexI [OF _ pa]) (use t k l d in auto)
  }
  show "requests (snd (init cwd0 base f0)) = []" by (rule init_requests)
  {
    assume f: "fst (init cwd0 (cwd0 @ [''binaries'']) f0) = Some e"
    then show m: "main env cwd0 f0 = init cwd0 (cwd0 @ [''binaries'']) f0"
      by (cases "init cwd0 (cwd0 @ [''binaries'']) f0") (simp add: main_def and_then_def)
    show "requests (snd (main env cwd0 f0)) = []" unfolding m by (rule init_requests)
  }
qed

theorem layout_creation_witness:
  "fst (create_directories bare_state) = None
   \<and> lookup (fs (snd (create_directories bare_state))) [''srv'', ''binaries'', ''linux'', ''arm64'', ''megatools'']
        = Some Dir
   \<and> create_directories (snd (create_directories bare_state)) = (None, snd (create_directories bare_state))
   \<and> lookup (fs bare_state) [''srv'', ''binaries'', ''linux'', ''arm64'', ''megatools''] = None
   \<and> distinct (map fst (fs (snd (create_directories bare_state))))
   \<and> fst (init [''srv''] ([''srv''] @ [''binaries'']) blocked_fs)
        = Some (NotADirectoryError [''srv'', ''binaries'', ''windows'', ''x64'', ''ffmpeg''])
   \<and> main (fixed_env (Inl ''unreachable'')) [''srv''] blocked_fs = init [''srv''] ([''srv''] @ [''binaries'']) blocked_fs
   \<and> requests (snd (main (fixed_env (Inl ''unreachable'')) [''srv''] blocked_fs)) = []"
proof -
  let ?q = "[''srv'', ''binaries'', ''linux'', ''arm64'', ''megatools'']"
  let ?e = "NotADirectoryError [''srv'', ''binaries'', ''windows'', ''x64'', ''ffmpeg'']"
  note L = layout_creation [of bare_state ?q _ "[''srv'']" "[''srv'', ''binaries'']" blocked_fs
      "fixed_env (Inl ''unreachable'')"]
  have nofile: "lookup (fs bare_state) x \<noteq> Some (File c m)" for x c m
    by (simp add: bare_state_def lookup_def)
  have ok: "fst (create_directories bare_state) = None"
  proof (cases "fst (create_directories bare_state)")
    case None
    then show ?thesis .
  next
    case (Some e)
    with L [of e] nofile show ?thesis by blast
  qed
  have cell: "(''linux'', ''arm64'') \<in> set targets" "''megatools'' \<in> set tools"
    by (simp_all add: targets_def platforms_def tools_def)
  have base: "base_path bare_state = [''srv'', ''binaries'']" by (simp add: bare_state_def)
  from L [of ?e] ok cell
  have made: "lookup (fs (snd (create_directories bare_state))) (base_path bare_state @ [''linux'', ''arm64'', ''megatools''])
      = Some Dir"
    by fast
  have before: "lookup (fs bare_state) ?q = None" by (simp add: bare_state_def lookup_def)
  have d: "distinct (map fst (fs bare_state))" by (simp add: bare_state_def)
  have blocked: "fst (init [''srv''] ([''srv''] @ [''binaries'']) blocked_fs) = Some ?e"
    by (simp add: init_def create_directories_def platforms_def steps_def on_fs_def mkdir_parents_def
        blocked_fs_def lookup_def)
  from L [of ?e] ok made before d blocked show ?thesis
    by (simp add: base)
qed



end
